(* ===== verification/Prelude.thy ===== *)
theory Prelude
  imports Main "HOL-Library.AList" "HOL-Library.Multiset_Order"
begin

text \<open>
  Shared vocabulary of the development: the types that name the values the program
  reads from the relation store (nullable text columns, person ids, relation codes),
  the named collections that the component theories fill, and generic facts about
  association lists (the model of Python dictionaries, which keep insertion order)
  that the graph component uses.
\<close>

section \<open>Types of the model\<close>

text \<open>A nullable \<open>TEXT\<close> column of SQLite: \<open>None\<close> is \<open>NULL\<close> (Python's \<open>None\<close>).\<close>

type_synonym sql_text = "string option"

text \<open>Person ids (\<open>c_personid\<close>) and relation-type codes are SQLite integers, read
  into Python's unbounded \<open>int\<close>.\<close>

type_synonym person_id = int
type_synonym rel_code = int

text \<open>A Python dictionary with insertion order: an association list whose keys are
  distinct.\<close>

type_synonym ('k, 'v) pydict = "('k \<times> 'v) list"

section \<open>Collections\<close>

named_theorems sql_simps "SQL building blocks unfolded when rows are computed"
named_theorems nx_simps "NetworkX graph operations unfolded when a graph is built"

section \<open>Python's dict.update\<close>

text \<open>
  \<open>d.update(kvs)\<close> overwrites the value of a key that is present, keeping its position,
  and appends a key that is not, in the order of \<open>kvs\<close>; \<open>AList.update\<close> is exactly the
  single-key case.
\<close>

definition dict_update :: "('k, 'v) pydict \<Rightarrow> ('k, 'v) pydict \<Rightarrow> ('k, 'v) pydict" where
  "dict_update d kvs = fold (\<lambda>(k, v). AList.update k v) kvs d"

section \<open>Generic lemmas on association lists\<close>

lemma dict_update_keys [simp]:
  "fst ` set (dict_update d kvs) = fst ` set d \<union> fst ` set kvs"
proof (induction kvs arbitrary: d)
  case Nil
  then show ?case by (simp add: dict_update_def)
next
  case (Cons kv kvs)
  obtain k v where kv: "kv = (k, v)" by fastforce
  have "fst ` set (dict_update d (kv # kvs)) = fst ` set (AList.update k v d) \<union> fst ` set kvs"
    using Cons.IH [of "AList.update k v d"] kv by (simp add: dict_update_def)
  then show ?case using kv by (auto simp: dom_update)
qed

lemma dict_update_distinct [simp]:
  "distinct (map fst d) \<Longrightarrow> distinct (map fst (dict_update d kvs))"
  by (induction kvs arbitrary: d) (auto simp: dict_update_def distinct_update)

lemma dict_update_map_of:
  "map_of (dict_update d kvs) = map_of d ++ map_of (rev kvs)"
proof (induction kvs arbitrary: d)
  case Nil
  then show ?case by (simp add: dict_update_def)
next
  case (Cons kv kvs)
  obtain k v where kv: "kv = (k, v)" by fastforce
  have "map_of (dict_update d (kv # kvs)) = map_of (AList.update k v d) ++ map_of (rev kvs)"
    using Cons.IH [of "AList.update k v d"] kv by (simp add: dict_update_def)
  then show ?case using kv by (simp add: update_conv' map_add_def fun_eq_iff split: option.splits)
qed

lemma dict_update_lookup:
  "map_of (dict_update hs kvs) k = (case map_of (rev kvs) k of None \<Rightarrow> map_of hs k | Some v \<Rightarrow> Some v)"
  by (simp add: dict_update_map_of map_add_def)

lemma update_keys_insert [simp]:
  "fst ` set (AList.update k v al) = insert k (fst ` set al)"
  by (simp add: dom_update)

lemma update_set_subset: "set (AList.update k v al) \<subseteq> insert (k, v) (set al)"
  by (induction al) auto

lemma update_snd_subset: "snd ` set (AList.update k v al) \<subseteq> insert v (snd ` set al)"
  using update_set_subset [of k v al] by force

lemma map_add_dom_subset: "dom m \<subseteq> dom m' \<Longrightarrow> m ++ m' = m'"
  by (auto simp: map_add_def fun_eq_iff split: option.splits)

lemma distinct_set_singleton:
  assumes "distinct xs" and "set xs = {x}"
  shows "xs = [x]"
proof (cases xs)
  case Nil
  with assms show ?thesis by simp
next
  case (Cons y ys)
  with assms have "y = x" and "set ys \<subseteq> {x}" and "y \<notin> set ys" by auto
  then have "set ys = {}" by (auto simp: subset_singleton_iff)
  then have "ys = []" by simp
  with Cons \<open>y = x\<close> show ?thesis by simp
qed

text \<open>Lists built by a nested comprehension whose element does not depend on the
  inner generators, and filters on a key that is distinct.\<close>

lemma distinct_filter_key_length:
  "distinct (map f xs) \<Longrightarrow> length (filter (\<lambda>x. f x = v) xs) = (if v \<in> f ` set xs then 1 else 0)"
  by (induction xs) (auto simp: filter_empty_conv)

lemma concat_map_if_single:
  "concat (map (\<lambda>y. if Q y then [x] else []) ys) = replicate (length (filter Q ys)) x"
  by (induction ys) auto

lemma concat_map_replicate:
  "concat (map (\<lambda>y. replicate (f y) x) ys) = replicate (sum_list (map f ys)) x"
  by (induction ys) (auto simp: replicate_add)

text \<open>Counting in lists and multisets.\<close>

lemma sum_list_map_indicator:
  "(\<Sum>x\<leftarrow>xs. if P x then 1 else 0) = (length (filter P xs) :: nat)"
  by (induction xs) auto

lemma concat_map_concat_replicate:
  "concat (map g (concat (replicate n xs))) = concat (replicate n (concat (map g xs)))"
  by (induction n) simp_all

lemma map_if_single: "map f (if P then [x] else []) = (if P then [f x] else [])"
  by simp

lemma concat_replicate_single: "concat (replicate n [x]) = replicate n x"
  by (induction n) simp_all

lemma concat_map_if_filter:
  "concat (map (\<lambda>x. if P x then [f x] else []) xs) = map f (filter P xs)"
  by (induction xs) simp_all

lemma map_filter_const:
  "(\<And>x. P x \<Longrightarrow> f x = c) \<Longrightarrow> map f (filter P xs) = replicate (length (filter P xs)) c"
  by (induction xs) simp_all

lemma count_mset_concat_replicate:
  "count (mset (concat (replicate n xs))) y = n * count (mset xs) y"
  by (induction n) simp_all

lemma count_mset_map_pair:
  "count (mset (map (\<lambda>w. (f w, e)) ws)) (x, d) = (if e = d then length (filter (\<lambda>w. f w = x) ws) else 0)"
  by (induction ws) auto

lemma image_mset_sum_atMost:
  fixes n :: nat
  shows "image_mset f (\<Sum>e\<le>n. M e) = (\<Sum>e\<le>n. image_mset f (M e))"
  by (induction n) simp_all

end
