(* ===== verification/Sql.thy ===== *)
theory Sql
  imports Prelude
begin

text \<open>
  The fragment of SQLite's semantics that the queries of \<open>src/main.py\<close> rely on:
  three-valued comparison with \<open>NULL\<close> in a \<open>WHERE\<close> or \<open>ON\<close> clause, \<open>x IN (...)\<close>,
  string concatenation \<open>||\<close>,
  \<open>LEFT JOIN\<close>, \<open>SELECT DISTINCT\<close>, and the evaluation of a \<open>WITH RECURSIVE\<close> common
  table expression with \<open>UNION ALL\<close>. Tables are lists of records (bags, in the order
  SQLite scans them). The recursive CTE is evaluated the way SQLite documents it: the
  rows of the initial select go into a queue; while the queue is not empty one row is
  taken from its front, added to the result, and the recursive select is run with that
  row as the only row of the recursive table, its results appended to the queue. The
  loop is a \<open>partial_function (option)\<close>: SQLite gives no bound, so not returning is
  \<open>None\<close>; \<open>cte_queue_closure\<close> shows that the loop returns whenever the recursive
  select strictly lowers a rank, and that it returns the least set of rows that
  contains the initial rows and is closed under the recursive select.
\<close>

section \<open>Comparisons with NULL\<close>

text \<open>\<open>x = y\<close> in a condition: true only when both sides are non-NULL and equal.\<close>

definition sql_eq :: "'a option \<Rightarrow> 'a option \<Rightarrow> bool" where
  "sql_eq x y = (case (x, y) of (Some a, Some b) \<Rightarrow> a = b | _ \<Rightarrow> False)"

text \<open>\<open>x IN (v1, ..., vn)\<close>: \<open>NULL IN (...)\<close> is never true, and \<open>x IN ()\<close> (an empty
  list, which SQLite accepts) is false.\<close>

definition sql_in :: "'a option \<Rightarrow> 'a list \<Rightarrow> bool" where
  "sql_in x vs = (case x of None \<Rightarrow> False | Some a \<Rightarrow> a \<in> set vs)"

lemma sql_eq_iff [simp, sql_simps]: "sql_eq x y \<longleftrightarrow> (\<exists>a. x = Some a \<and> y = Some a)"
  by (auto simp: sql_eq_def split: option.splits)

lemma sql_in_iff [simp, sql_simps]: "sql_in x vs \<longleftrightarrow> (\<exists>a. x = Some a \<and> a \<in> set vs)"
  by (auto simp: sql_in_def split: option.splits)

lemma sql_in_Nil [simp]: "\<not> sql_in x []"
  by simp

section \<open>String concatenation\<close>

text \<open>\<open>x || y\<close> is \<open>NULL\<close> when either operand is \<open>NULL\<close>.\<close>

definition sql_concat :: "sql_text \<Rightarrow> sql_text \<Rightarrow> sql_text" where
  "sql_concat x y = (case (x, y) of (Some a, Some b) \<Rightarrow> Some (a @ b) | _ \<Rightarrow> None)"

lemma sql_concat_Some [simp]: "sql_concat (Some a) (Some b) = Some (a @ b)"
  by (simp add: sql_concat_def)

lemma sql_concat_None [simp]: "sql_concat None y = None" "sql_concat x None = None"
  by (simp_all add: sql_concat_def split: option.splits)

section \<open>LEFT JOIN\<close>

text \<open>\<open>xs LEFT JOIN ys ON c\<close>: every row of \<open>xs\<close> with each row of \<open>ys\<close> it matches, or
  with \<open>NULL\<close> columns when it matches none.\<close>

definition left_join :: "'a list \<Rightarrow> 'b list \<Rightarrow> ('a \<Rightarrow> 'b \<Rightarrow> bool) \<Rightarrow> ('a \<times> 'b option) list" where
  "left_join xs ys on =
     concat (map (\<lambda>x. case filter (on x) ys of
                         [] \<Rightarrow> [(x, None)]
                       | ms \<Rightarrow> map (\<lambda>y. (x, Some y)) ms) xs)"

lemma left_join_row_set:
  "set (case filter (on x) ys of [] \<Rightarrow> [(x, None)] | ms \<Rightarrow> map (\<lambda>y. (x, Some y)) ms) =
     (if \<exists>y \<in> set ys. on x y then (\<lambda>y. (x, Some y)) ` {y \<in> set ys. on x y} else {(x, None)})"
proof (cases "filter (on x) ys")
  case Nil
  then show ?thesis by (simp add: filter_empty_conv)
next
  case (Cons a l)
  then have eq: "(case filter (on x) ys of [] \<Rightarrow> [(x, None)] | ms \<Rightarrow> map (\<lambda>y. (x, Some y)) ms) =
      map (\<lambda>y. (x, Some y)) (filter (on x) ys)"
    by simp
  from Cons have "\<exists>y \<in> set ys. on x y" by (metis filter_empty_conv list.distinct(1))
  then show ?thesis unfolding eq by auto
qed

lemma left_join_set:
  "set (left_join xs ys on) =
     {(x, Some y) | x y. x \<in> set xs \<and> y \<in> set ys \<and> on x y} \<union>
     {(x, None) | x. x \<in> set xs \<and> (\<forall>y \<in> set ys. \<not> on x y)}"
  unfolding left_join_def set_concat set_map image_image left_join_row_set
  by (auto split: if_splits)

lemma left_join_row_length:
  "length (case filter (on x) ys of [] \<Rightarrow> [(x, None)] | ms \<Rightarrow> map (\<lambda>y. (x, Some y)) ms) =
     max 1 (length (filter (on x) ys))"
  by (cases "filter (on x) ys") auto

lemma left_join_length:
  "length (left_join xs ys on) = sum_list (map (\<lambda>x. max 1 (length (filter (on x) ys))) xs)"
  by (induction xs) (simp_all add: left_join_def left_join_row_length)

lemma left_join_length_functional:
  assumes "\<And>x. x \<in> set xs \<Longrightarrow> length (filter (on x) ys) \<le> 1"
  shows "length (left_join xs ys on) = length xs"
proof -
  have "(\<Sum>x\<leftarrow>xs. max 1 (length (filter (on x) ys))) = (\<Sum>x\<leftarrow>xs. 1)"
    using assms by (intro arg_cong [where f = sum_list] map_cong) (force simp: max_def)+
  then show ?thesis unfolding left_join_length by (simp add: sum_list_triv)
qed

lemma left_join_fst:
  assumes x: "x \<in> set xs"
  shows "\<exists>y. (x, y) \<in> set (left_join xs ys on)"
proof (cases "\<exists>y \<in> set ys. on x y")
  case True
  then obtain y where "y \<in> set ys" "on x y" by blast
  with x have "(x, Some y) \<in> set (left_join xs ys on)" by (simp add: left_join_set)
  then show ?thesis by blast
next
  case False
  with x have "(x, None) \<in> set (left_join xs ys on)" by (simp add: left_join_set)
  then show ?thesis by blast
qed

lemma distinct_filter_sql_eq:
  assumes "distinct (map f ys)"
  shows "length (filter (\<lambda>y. sql_eq v (Some (f y))) ys) \<le> 1"
proof (cases v)
  case None
  then show ?thesis by simp
next
  case (Some a)
  then have "filter (\<lambda>y. sql_eq v (Some (f y))) ys = filter (\<lambda>y. f y = a) ys"
    by (intro filter_cong) auto
  then show ?thesis using distinct_filter_key_length [OF assms, of a] by simp
qed

section \<open>SELECT DISTINCT\<close>

text \<open>Duplicates removed, first occurrences kept (SQLite's \<open>DISTINCT\<close> emits a row the
  first time it is met).\<close>

definition sql_distinct :: "'a list \<Rightarrow> 'a list" where
  "sql_distinct xs = rev (remdups (rev xs))"

lemma set_sql_distinct [simp, sql_simps]: "set (sql_distinct xs) = set xs"
  by (simp add: sql_distinct_def)

lemma distinct_sql_distinct [simp]: "distinct (sql_distinct xs)"
  by (simp add: sql_distinct_def)

lemma sql_distinct_Nil [simp]: "sql_distinct [] = []"
  by (simp add: sql_distinct_def)

section \<open>WITH RECURSIVE ... UNION ALL\<close>

partial_function (option) cte_queue :: "('r \<Rightarrow> 'r list) \<Rightarrow> 'r list \<Rightarrow> 'r list option" where
  "cte_queue step q =
     (case q of
        [] \<Rightarrow> Some []
      | r # rest \<Rightarrow> Option.bind (cte_queue step (rest @ step r)) (\<lambda>out. Some (r # out)))"

declare cte_queue.simps [code]

lemma cte_queue_Nil [simp]: "cte_queue step [] = Some []"
  by (simp add: cte_queue.simps)

lemma cte_queue_Cons:
  "cte_queue step (r # rest) = Option.bind (cte_queue step (rest @ step r)) (\<lambda>out. Some (r # out))"
  by (simp add: cte_queue.simps)

text \<open>The declarative meaning of the CTE: the least set containing the initial rows
  and closed under the recursive select.\<close>

inductive cte_closure :: "('r \<Rightarrow> 'r list) \<Rightarrow> 'r set \<Rightarrow> 'r \<Rightarrow> bool" for step S where
  base: "r \<in> S \<Longrightarrow> cte_closure step S r"
| rec: "cte_closure step S p \<Longrightarrow> r \<in> set (step p) \<Longrightarrow> cte_closure step S r"

lemma cte_closure_empty: "cte_closure step {} r \<Longrightarrow> False"
  by (induction rule: cte_closure.induct) auto

lemma cte_closure_trans:
  assumes "cte_closure step T r" and "\<And>x. x \<in> T \<Longrightarrow> cte_closure step S x"
  shows "cte_closure step S r"
  using assms
proof (induction rule: cte_closure.induct)
  case (base y)
  then show ?case by blast
next
  case (rec p y)
  then have "cte_closure step S p" by blast
  then show ?case using rec.hyps(2) by (rule cte_closure.rec)
qed

lemma cte_closure_unfold:
  "{x. cte_closure step (set (r # rest)) x} =
     insert r {x. cte_closure step (set (rest @ step r)) x}"
proof (intro equalityI subsetI)
  fix x
  assume "x \<in> {x. cte_closure step (set (r # rest)) x}"
  then have "cte_closure step (set (r # rest)) x" by simp
  then show "x \<in> insert r {x. cte_closure step (set (rest @ step r)) x}"
  proof (induction rule: cte_closure.induct)
    case (base y)
    then show ?case by (auto intro: cte_closure.base)
  next
    case (rec p y)
    show ?case
    proof (cases "p = r")
      case True
      with rec.hyps(2) have "y \<in> set (rest @ step r)" by simp
      then have "cte_closure step (set (rest @ step r)) y" by (rule cte_closure.base)
      then show ?thesis by simp
    next
      case False
      with rec.IH have "cte_closure step (set (rest @ step r)) p" by simp
      then have "cte_closure step (set (rest @ step r)) y" using rec.hyps(2) by (rule cte_closure.rec)
      then show ?thesis by simp
    qed
  qed
next
  fix x
  assume x: "x \<in> insert r {x. cte_closure step (set (rest @ step r)) x}"
  have r: "cte_closure step (set (r # rest)) r" by (simp add: cte_closure.base)
  have sub: "cte_closure step (set (r # rest)) y" if y: "y \<in> set (rest @ step r)" for y
  proof (cases "y \<in> set rest")
    case True
    then show ?thesis by (simp add: cte_closure.base)
  next
    case False
    with y have "y \<in> set (step r)" by simp
    with r show ?thesis by (rule cte_closure.rec)
  qed
  show "x \<in> {x. cte_closure step (set (r # rest)) x}"
  proof (cases "x = r")
    case True
    with r show ?thesis by simp
  next
    case False
    with x have "cte_closure step (set (rest @ step r)) x" by simp
    then have "cte_closure step (set (r # rest)) x" using sub by (rule cte_closure_trans)
    then show ?thesis by simp
  qed
qed

lemma cte_closure_mono:
  assumes "cte_closure s1 S r" and "S \<subseteq> T" and "\<And>p. set (s1 p) \<subseteq> set (s2 p)"
  shows "cte_closure s2 T r"
  using assms(1)
proof (induction rule: cte_closure.induct)
  case (base r)
  with assms(2) have "r \<in> T" by blast
  then show ?case by (rule cte_closure.base)
next
  case (rec p r)
  with assms(3) have "r \<in> set (s2 p)" by blast
  with rec.IH show ?case by (rule cte_closure.rec)
qed

text \<open>Removing the front row of rank \<open>h r\<close> and appending rows of smaller rank lowers
  the multiset of ranks of the queue.\<close>

lemma cte_rank_less:
  fixes h :: "'r \<Rightarrow> nat"
  assumes dec: "\<And>r'. r' \<in> set (step r) \<Longrightarrow> h r' < h r"
  shows "mset (map h (rest @ step r)) < mset (map h (r # rest))"
proof -
  have "multp (<) (mset (map h rest) + mset (map h (step r))) (mset (map h rest) + {#h r#})"
    by (rule one_step_implies_multp) (auto simp: dec)
  then show ?thesis by (simp add: less_multiset_def add.commute)
qed

theorem cte_queue_closure:
  fixes h :: "'r \<Rightarrow> nat"
  assumes dec: "\<And>r r'. r' \<in> set (step r) \<Longrightarrow> h r' < h r"
  shows "\<exists>out. cte_queue step q = Some out \<and> set out = {r. cte_closure step (set q) r}"
proof (induction "mset (map h q)" arbitrary: q rule: less_induct)
  case less
  show ?case
  proof (cases q)
    case Nil
    then show ?thesis by (auto dest: cte_closure_empty)
  next
    case (Cons r rest)
    have "mset (map h (rest @ step r)) < mset (map h q)"
      unfolding Cons by (rule cte_rank_less) (rule dec)
    then obtain out where out: "cte_queue step (rest @ step r) = Some out"
      and set_out: "set out = {x. cte_closure step (set (rest @ step r)) x}"
      using less by blast
    have "cte_queue step q = Some (r # out)"
      using out by (simp add: Cons cte_queue_Cons)
    moreover have "set (r # out) = {x. cte_closure step (set q) x}"
      using set_out cte_closure_unfold [of step r rest] by (simp only: Cons list.set(2))
    ultimately show ?thesis by blast
  qed
qed

section \<open>The rows of a CTE with their multiplicities\<close>

text \<open>\<open>UNION ALL\<close> keeps duplicates, so the set of rows is not the whole story.
  \<open>cte_tree step n r\<close> is the row \<open>r\<close> followed by the rows its recursive select
  produces, each unfolded in turn, \<open>n\<close> levels deep. Under a decreasing rank the
  queue returns exactly the unfoldings of its initial rows, counted with multiplicity.\<close>

fun cte_tree :: "('r \<Rightarrow> 'r list) \<Rightarrow> nat \<Rightarrow> 'r \<Rightarrow> 'r list" where
  "cte_tree step 0 r = [r]"
| "cte_tree step (Suc n) r = r # concat (map (cte_tree step n) (step r))"

lemma cte_tree_fuel:
  fixes h :: "'r \<Rightarrow> nat"
  assumes dec: "\<And>r r'. r' \<in> set (step r) \<Longrightarrow> h r' < h r"
  shows "h r \<le> n \<Longrightarrow> cte_tree step n r = r # concat (map (\<lambda>c. cte_tree step (h c) c) (step r))"
proof (induction "h r" arbitrary: r n rule: less_induct)
  case less
  show ?case
  proof (cases n)
    case 0
    with less.prems have "\<forall>c \<in> set (step r). False" using dec [of _ r] by fastforce
    then have "step r = []" by (cases "step r") auto
    then show ?thesis using 0 by simp
  next
    case (Suc k)
    have "cte_tree step k c = cte_tree step (h c) c" if c: "c \<in> set (step r)" for c
    proof -
      have lt: "h c < h r" by (rule dec [OF c])
      then have "h c \<le> k" using less.prems Suc by simp
      then have "cte_tree step k c = c # concat (map (\<lambda>d. cte_tree step (h d) d) (step c))"
        using less.hyps [OF lt] by simp
      moreover have "cte_tree step (h c) c = c # concat (map (\<lambda>d. cte_tree step (h d) d) (step c))"
        using less.hyps [OF lt] by simp
      ultimately show ?thesis by simp
    qed
    then have "map (cte_tree step k) (step r) = map (\<lambda>c. cte_tree step (h c) c) (step r)"
      by (rule map_cong [OF refl])
    then show ?thesis unfolding Suc cte_tree.simps by (simp only:)
  qed
qed

lemma cte_tree_unfold:
  fixes h :: "'r \<Rightarrow> nat"
  assumes dec: "\<And>r r'. r' \<in> set (step r) \<Longrightarrow> h r' < h r"
  shows "cte_tree step (h r) r = r # concat (map (\<lambda>c. cte_tree step (h c) c) (step r))"
  using cte_tree_fuel [where step = step and h = h, OF dec, of r "h r"] by simp

theorem cte_queue_mset:
  fixes h :: "'r \<Rightarrow> nat"
  assumes dec: "\<And>r r'. r' \<in> set (step r) \<Longrightarrow> h r' < h r"
  shows "\<exists>out. cte_queue step q = Some out \<and>
           mset out = mset (concat (map (\<lambda>r. cte_tree step (h r) r) q))"
proof (induction "mset (map h q)" arbitrary: q rule: less_induct)
  case less
  show ?case
  proof (cases q)
    case Nil
    then show ?thesis by simp
  next
    case (Cons r rest)
    have "mset (map h (rest @ step r)) < mset (map h q)"
      unfolding Cons by (rule cte_rank_less) (rule dec)
    then obtain out where out: "cte_queue step (rest @ step r) = Some out"
      and mset_out: "mset out = mset (concat (map (\<lambda>r. cte_tree step (h r) r) (rest @ step r)))"
      using less by blast
    have "cte_queue step q = Some (r # out)"
      using out by (simp add: Cons cte_queue_Cons)
    moreover have "mset (r # out) = mset (concat (map (\<lambda>r. cte_tree step (h r) r) q))"
    proof -
      have "cte_tree step (h r) r = r # concat (map (\<lambda>c. cte_tree step (h c) c) (step r))"
        by (rule cte_tree_unfold [where step = step and h = h, OF dec])
      then show ?thesis using mset_out unfolding Cons by (simp only: list.map concat.simps mset.simps
        mset_append map_append concat_append) simp
    qed
    ultimately show ?thesis by blast
  qed
qed

text \<open>The rows of the queue by level: \<open>cte_layer step d q\<close> are the rows \<open>d\<close>
  applications of the recursive select away from the initial rows \<open>q\<close>; the unfolding
  to depth \<open>n\<close> holds the levels \<open>0..n\<close>.\<close>

fun cte_layer :: "('r \<Rightarrow> 'r list) \<Rightarrow> nat \<Rightarrow> 'r list \<Rightarrow> 'r list" where
  "cte_layer step 0 q = q"
| "cte_layer step (Suc d) q = concat (map step (cte_layer step d q))"

lemma cte_layer_shift:
  "cte_layer step d (concat (map step q)) = cte_layer step (Suc d) q"
  by (induction d) simp_all

lemma mset_concat_map_cte_tree_Suc:
  "mset (concat (map (cte_tree step (Suc n)) q)) =
     mset q + mset (concat (map (cte_tree step n) (concat (map step q))))"
  by (induction q) (simp_all add: map_concat)

lemma cte_tree_layers:
  "mset (concat (map (cte_tree step n) q)) = (\<Sum>d\<le>n. mset (cte_layer step d q))"
proof (induction n arbitrary: q)
  case 0
  then show ?case by (induction q) simp_all
next
  case (Suc n)
  show ?case
    unfolding mset_concat_map_cte_tree_Suc Suc.IH sum.atMost_Suc_shift cte_layer_shift by simp
qed

lemma cte_queue_no_step:
  "(\<And>r. r \<in> set q \<Longrightarrow> step r = []) \<Longrightarrow> cte_queue step q = Some q"
proof (induction q)
  case Nil
  then show ?case by simp
next
  case (Cons r rest)
  have "step r = []" by (rule Cons.prems) simp
  moreover have "cte_queue step rest = Some rest"
    by (rule Cons.IH) (rule Cons.prems, simp)
  ultimately show ?case by (simp add: cte_queue_Cons)
qed

end
