(* ===== verification/Store.thy ===== *)
theory Store
  imports Sql
begin

text \<open>
  The tables of the CBDB relation store that \<open>src/main.py\<close> reads, as records of the
  columns its queries name, and the store as a record of tables (bags of rows, lists in
  scan order). The store is read-only: no operation of the program writes it.
  \<open>db_keys_unique\<close> states the primary keys the CBDB schema declares; the
  traversal theorems that need them say so.
\<close>

section \<open>Tables\<close>

text \<open>\<open>BIOG_MAIN\<close>: one row per person.\<close>

record biog_main =
  c_personid :: person_id
  c_name :: sql_text
  c_name_chn :: sql_text
  c_birthyear :: "int option"
  c_deathyear :: "int option"
  c_female :: int

text \<open>\<open>ASSOC_DATA\<close>: the association facts; \<open>c_personid\<close> has the association
  \<open>c_assoc_code\<close> with \<open>c_assoc_id\<close>.\<close>

record assoc_data =
  ad_personid :: person_id
  ad_assoc_id :: person_id
  ad_assoc_code :: rel_code

text \<open>\<open>ASSOC_CODES\<close>: the association code table with its two descriptions.\<close>

record assoc_codes =
  ac_assoc_code :: rel_code
  ac_assoc_desc :: sql_text
  ac_assoc_desc_chn :: sql_text

text \<open>\<open>KIN_DATA\<close> and \<open>KINSHIP_CODES\<close>: kinship facts and their code table.\<close>

record kin_data =
  kd_personid :: person_id
  kd_kin_id :: person_id
  kd_kin_code :: rel_code

record kinship_codes =
  kc_kincode :: rel_code
  kc_kinrel_chn :: sql_text

record cbdb =
  BIOG_MAIN :: "biog_main list"
  ASSOC_DATA :: "assoc_data list"
  ASSOC_CODES :: "assoc_codes list"
  KIN_DATA :: "kin_data list"
  KINSHIP_CODES :: "kinship_codes list"

section \<open>Keys\<close>

definition db_keys_unique :: "cbdb \<Rightarrow> bool" where
  "db_keys_unique db \<longleftrightarrow>
     distinct (map c_personid (BIOG_MAIN db)) \<and>
     distinct (map ac_assoc_code (ASSOC_CODES db)) \<and>
     distinct (map kc_kincode (KINSHIP_CODES db))"

text \<open>The persons of the store, by id.\<close>

definition person_ids :: "cbdb \<Rightarrow> person_id set" where
  "person_ids db = c_personid ` set (BIOG_MAIN db)"

section \<open>Fixtures\<close>

text \<open>Small stores on which the theorems are applied. \<open>demo_db\<close>: persons 1 to 5; person 1
  has association code 5 with 2 and 2 with 1 (a cycle), 3 with 2 (code 5), 4 with 3 (code 7);
  person 5 has no association. \<open>scenario_db\<close> is the scenario of the spec (section 8,
  item 7): person 100 has code 5 with 200, and 200 has code 7 with 300.\<close>

definition demo_person :: "person_id \<Rightarrow> string \<Rightarrow> biog_main" where
  "demo_person i nm =
     \<lparr>c_personid = i, c_name = Some nm, c_name_chn = Some nm,
      c_birthyear = None, c_deathyear = None, c_female = 0\<rparr>"

definition demo_code :: "rel_code \<Rightarrow> string \<Rightarrow> assoc_codes" where
  "demo_code c d = \<lparr>ac_assoc_code = c, ac_assoc_desc = Some d, ac_assoc_desc_chn = Some d\<rparr>"

definition demo_fact :: "person_id \<Rightarrow> person_id \<Rightarrow> rel_code \<Rightarrow> assoc_data" where
  "demo_fact i j c = \<lparr>ad_personid = i, ad_assoc_id = j, ad_assoc_code = c\<rparr>"

definition demo_db :: cbdb where
  "demo_db =
     \<lparr>BIOG_MAIN = [demo_person 1 ''A'', demo_person 2 ''B'', demo_person 3 ''C'',
                   demo_person 4 ''D'', demo_person 5 ''E''],
      ASSOC_DATA = [demo_fact 1 2 5, demo_fact 2 1 5, demo_fact 3 2 5, demo_fact 4 3 7],
      ASSOC_CODES = [demo_code 5 ''friend'', demo_code 7 ''teacher''],
      KIN_DATA = [], KINSHIP_CODES = []\<rparr>"

definition scenario_db :: cbdb where
  "scenario_db =
     \<lparr>BIOG_MAIN = [demo_person 100 ''P100'', demo_person 200 ''P200'', demo_person 300 ''P300''],
      ASSOC_DATA = [demo_fact 100 200 5, demo_fact 200 300 7],
      ASSOC_CODES = [demo_code 5 ''five'', demo_code 7 ''seven''],
      KIN_DATA = [], KINSHIP_CODES = []\<rparr>"

lemmas fixture_defs = demo_person_def demo_code_def demo_fact_def demo_db_def scenario_db_def

section \<open>Lemmas\<close>

lemma db_keys_unique_person:
  "db_keys_unique db \<Longrightarrow> p \<in> set (BIOG_MAIN db) \<Longrightarrow> q \<in> set (BIOG_MAIN db) \<Longrightarrow>
     c_personid q = c_personid p \<Longrightarrow> q = p"
  by (auto simp: db_keys_unique_def dest: inj_onD [OF distinct_map [THEN iffD1, THEN conjunct2]])

end
