(* ===== verification/Network.thy ===== *)
theory Network
  imports Store
begin

text \<open>
  The network traversal engine: \<open>get_social_network_personid\<close> of \<open>src/main.py\<close>
  (lines 171--234), the recursive query \<open>network\<close> over \<open>ASSOC_DATA\<close>. The initial
  select (lines 184--197) yields the root person itself, once per association fact in
  which the root is \<open>c_personid\<close> (a left join, so once with \<open>NULL\<close> descriptions when
  there is none); the recursive select (lines 202--216) takes a row \<open>p\<close> of the network
  and yields every person \<open>n\<close> that has an association fact whose \<open>c_assoc_id\<close> is
  \<open>p\<close>'s person, if \<open>n \<noteq> p\<close> and \<open>p\<close> is at distance below 5. The relation-type
  filter, when given, is \<open>a.c_assoc_code IN (...)\<close> in both selects. The result is
  \<open>SELECT DISTINCT ... ORDER BY distance\<close> (lines 218--229).
\<close>

section \<open>Rows and the filter\<close>

text \<open>A row of the \<open>network\<close> table, with the nine columns in the query's order.\<close>

record net_row =
  person_id :: person_id
  person_name :: sql_text
  person_name_chn :: sql_text
  via_id :: "person_id option"
  via_name :: sql_text
  via_name_chn :: sql_text
  assoc_desc :: sql_text
  assoc_desc_chn :: sql_text
  distance :: nat

text \<open>The relation-type filter of lines 173--179: \<open>None\<close> when \<open>types is None\<close>, else
  \<open>a.c_assoc_code IN (types)\<close>, which is false when \<open>a\<close> is \<open>NULL\<close> or the list is
  empty. The codes arrive as strings interpolated into the query; the model takes them
  as the integer codes they are meant to be.\<close>

definition type_condition :: "rel_code list option \<Rightarrow> assoc_codes option \<Rightarrow> bool" where
  "type_condition types a =
     (case types of None \<Rightarrow> True | Some ts \<Rightarrow> sql_in (map_option ac_assoc_code a) ts)"

section \<open>The initial select\<close>

definition seed_row :: "biog_main \<Rightarrow> assoc_codes option \<Rightarrow> net_row" where
  "seed_row p a =
     \<lparr>person_id = c_personid p, person_name = c_name p, person_name_chn = c_name_chn p,
      via_id = None, via_name = None, via_name_chn = None,
      assoc_desc = Option.bind a ac_assoc_desc, assoc_desc_chn = Option.bind a ac_assoc_desc_chn,
      distance = 0\<rparr>"

definition network_seed :: "cbdb \<Rightarrow> rel_code list option \<Rightarrow> person_id \<Rightarrow> net_row list" where
  "network_seed db types pid =
     [seed_row p a.
        ((p, ad), a) \<leftarrow> left_join
           (left_join (BIOG_MAIN db) (ASSOC_DATA db) (\<lambda>p ad. c_personid p = ad_personid ad))
           (ASSOC_CODES db) (\<lambda>(p, ad) a. sql_eq (map_option ad_assoc_code ad) (Some (ac_assoc_code a))),
        c_personid p = pid \<and> type_condition types a]"

section \<open>The recursive select\<close>

definition expand_row :: "net_row \<Rightarrow> biog_main \<Rightarrow> assoc_codes \<Rightarrow> net_row" where
  "expand_row p n a =
     \<lparr>person_id = c_personid n, person_name = c_name n, person_name_chn = c_name_chn n,
      via_id = Some (person_id p), via_name = person_name p, via_name_chn = person_name_chn p,
      assoc_desc = ac_assoc_desc a, assoc_desc_chn = ac_assoc_desc_chn a,
      distance = distance p + 1\<rparr>"

definition network_step :: "cbdb \<Rightarrow> rel_code list option \<Rightarrow> net_row \<Rightarrow> net_row list" where
  "network_step db types p =
     [expand_row p n a. ad \<leftarrow> ASSOC_DATA db, n \<leftarrow> BIOG_MAIN db, a \<leftarrow> ASSOC_CODES db,
        person_id p = ad_assoc_id ad \<and> ad_personid ad = c_personid n \<and> c_personid n \<noteq> person_id p \<and>
        ad_assoc_code ad = ac_assoc_code a \<and> type_condition types (Some a) \<and> distance p < 5]"

section \<open>The query\<close>

definition get_social_network_personid ::
  "cbdb \<Rightarrow> person_id \<Rightarrow> rel_code list option \<Rightarrow> net_row list option" where
  "get_social_network_personid db pid types =
     map_option (\<lambda>network. sort_key distance (sql_distinct network))
       (cte_queue (network_step db types) (network_seed db types pid))"

section \<open>The abstract specification: bounded reachability\<close>

text \<open>The relation graph the query walks: an edge \<open>u \<rightarrow> v\<close> for an association fact of
  \<open>v\<close> with \<open>u\<close> (\<open>c_personid = v\<close>, \<open>c_assoc_id = u\<close>), \<open>v \<noteq> u\<close>, \<open>v\<close> a person of the store,
  its code in the code table and passing the filter.\<close>

definition assoc_edge :: "cbdb \<Rightarrow> rel_code list option \<Rightarrow> person_id \<Rightarrow> person_id \<Rightarrow> bool" where
  "assoc_edge db types u v \<longleftrightarrow>
     v \<noteq> u \<and> v \<in> person_ids db \<and>
     (\<exists>ad \<in> set (ASSOC_DATA db). ad_assoc_id ad = u \<and> ad_personid ad = v \<and>
        (\<exists>a \<in> set (ASSOC_CODES db). ad_assoc_code ad = ac_assoc_code a \<and> type_condition types (Some a)))"

inductive assoc_walk :: "cbdb \<Rightarrow> rel_code list option \<Rightarrow> person_id \<Rightarrow> nat \<Rightarrow> person_id \<Rightarrow> bool"
  for db types root where
  zero: "assoc_walk db types root 0 root"
| step: "assoc_walk db types root d u \<Longrightarrow> assoc_edge db types u v \<Longrightarrow> assoc_walk db types root (Suc d) v"

text \<open>One filter allows at least what another allows: no filter allows everything.\<close>

definition filter_weaker :: "rel_code list option \<Rightarrow> rel_code list option \<Rightarrow> bool" where
  "filter_weaker A B \<longleftrightarrow>
     (case (A, B) of (_, None) \<Rightarrow> True | (None, Some _) \<Rightarrow> False | (Some a, Some b) \<Rightarrow> set a \<subseteq> set b)"

section \<open>Fixture: the network of person 1 in the demo store\<close>

definition demo_rows :: "net_row list" where
  "demo_rows =
     (let a = demo_person 1 ''A''; b = demo_person 2 ''B''; c = demo_person 3 ''C'';
          d = demo_person 4 ''D''; f = demo_code 5 ''friend''; t = demo_code 7 ''teacher'';
          r0 = seed_row a (Some f); r1 = expand_row r0 b f; r2 = expand_row r1 a f;
          r3 = expand_row r1 c f; r4 = expand_row r2 b f; r5 = expand_row r3 d t;
          r6 = expand_row r4 a f; r7 = expand_row r4 c f; r8 = expand_row r6 b f;
          r9 = expand_row r7 d t
      in [r0, r1, r2, r3, r4, r5, r6, r7, r8, r9])"

section \<open>The rows of the two selects\<close>

lemma network_seed_row:
  "r \<in> set (network_seed db types pid) \<Longrightarrow>
     \<exists>p a. p \<in> set (BIOG_MAIN db) \<and> c_personid p = pid \<and> type_condition types a \<and> r = seed_row p a \<and>
       (case a of None \<Rightarrow> True
        | Some c \<Rightarrow> \<exists>ad \<in> set (ASSOC_DATA db). ad_personid ad = pid \<and> ad_assoc_code ad = ac_assoc_code c)"
proof -
  assume "r \<in> set (network_seed db types pid)"
  then obtain p ad a where
    j: "((p, ad), a) \<in> set (left_join
           (left_join (BIOG_MAIN db) (ASSOC_DATA db) (\<lambda>p ad. c_personid p = ad_personid ad))
           (ASSOC_CODES db) (\<lambda>(p, ad) a. sql_eq (map_option ad_assoc_code ad) (Some (ac_assoc_code a))))"
    and w: "c_personid p = pid" "type_condition types a" "r = seed_row p a"
    unfolding network_seed_def by auto
  from j w show ?thesis
    by (intro exI [of _ p] exI [of _ a]) (auto simp: left_join_set split: option.splits)
qed

lemma network_step_set:
  "r \<in> set (network_step db types p) \<longleftrightarrow>
     (\<exists>ad n a. ad \<in> set (ASSOC_DATA db) \<and> n \<in> set (BIOG_MAIN db) \<and> a \<in> set (ASSOC_CODES db) \<and>
        person_id p = ad_assoc_id ad \<and> ad_personid ad = c_personid n \<and> c_personid n \<noteq> person_id p \<and>
        ad_assoc_code ad = ac_assoc_code a \<and> type_condition types (Some a) \<and> distance p < 5 \<and>
        r = expand_row p n a)"
  by (auto simp: network_step_def)

lemma network_step_distance:
  "r \<in> set (network_step db types p) \<Longrightarrow> distance r = Suc (distance p) \<and> distance p < 5"
  by (auto simp: network_step_set expand_row_def)

lemma seed_row_simps [simp]:
  "person_id (seed_row p a) = c_personid p" "via_id (seed_row p a) = None"
  "distance (seed_row p a) = 0"
  by (simp_all add: seed_row_def)

lemma expand_row_simps [simp]:
  "person_id (expand_row p n a) = c_personid n" "via_id (expand_row p n a) = Some (person_id p)"
  "via_name (expand_row p n a) = person_name p" "via_name_chn (expand_row p n a) = person_name_chn p"
  "distance (expand_row p n a) = Suc (distance p)"
  by (simp_all add: expand_row_def)

section \<open>The query returns the closure of its selects\<close>

lemma network_cte_closure:
  "\<exists>out. cte_queue (network_step db types) (network_seed db types pid) = Some out \<and>
     set out = {r. cte_closure (network_step db types) (set (network_seed db types pid)) r}"
proof (rule cte_queue_closure [where h = "\<lambda>r. 5 - distance r"])
  fix r r'
  assume "r' \<in> set (network_step db types r)"
  then show "5 - distance r' < 5 - distance r" by (auto dest: network_step_distance)
qed

lemma network_rows_set:
  assumes "get_social_network_personid db pid types = Some rows"
  shows "set rows = {r. cte_closure (network_step db types) (set (network_seed db types pid)) r}"
  using assms network_cte_closure [of db types pid]
  by (auto simp: get_social_network_personid_def)

lemma network_rows_sorted_distinct:
  assumes "get_social_network_personid db pid types = Some rows"
  shows "sorted (map distance rows) \<and> distinct rows"
  using assms by (auto simp: get_social_network_personid_def)

text \<open>What every row of the closure satisfies: the facts the per-row claims read off.\<close>

definition net_row_inv :: "cbdb \<Rightarrow> rel_code list option \<Rightarrow> person_id \<Rightarrow> net_row \<Rightarrow> bool" where
  "net_row_inv db types pid r \<longleftrightarrow>
     distance r \<le> 5 \<and> via_id r \<noteq> Some (person_id r) \<and>
     (via_id r = None \<longleftrightarrow> distance r = 0) \<and>
     assoc_walk db types pid (distance r) (person_id r) \<and>
     (distance r = 0 \<longleftrightarrow> person_id r = pid \<and> via_id r = None)"

lemma network_closure_inv:
  "cte_closure (network_step db types) (set (network_seed db types pid)) r \<Longrightarrow> net_row_inv db types pid r"
proof (induction rule: cte_closure.induct)
  case (base r)
  then show ?case
    by (auto simp: net_row_inv_def dest!: network_seed_row intro: assoc_walk.zero)
next
  case (rec p r)
  from rec.hyps(2) obtain ad n a where
    ad: "ad \<in> set (ASSOC_DATA db)" and n: "n \<in> set (BIOG_MAIN db)" and a: "a \<in> set (ASSOC_CODES db)"
    and link: "person_id p = ad_assoc_id ad" "ad_personid ad = c_personid n" "c_personid n \<noteq> person_id p"
    and code: "ad_assoc_code ad = ac_assoc_code a" "type_condition types (Some a)"
    and lt: "distance p < 5" and r: "r = expand_row p n a"
    by (auto simp: network_step_set)
  have "assoc_edge db types (person_id p) (c_personid n)"
    unfolding assoc_edge_def person_ids_def using ad n a link code by auto
  then have "assoc_walk db types pid (Suc (distance p)) (c_personid n)"
    using rec.IH by (auto simp: net_row_inv_def intro: assoc_walk.step)
  then show ?case using r lt link(3) by (simp add: net_row_inv_def)
qed

lemma network_closure_pred:
  assumes "cte_closure (network_step db types) (set (network_seed db types pid)) r"
    and "via_id r = Some v"
  shows "\<exists>p. cte_closure (network_step db types) (set (network_seed db types pid)) p \<and>
           person_id p = v \<and> distance r = Suc (distance p) \<and>
           via_name r = person_name p \<and> via_name_chn r = person_name_chn p"
  using assms(1)
proof cases
  case base
  then show ?thesis using assms(2) by (auto dest!: network_seed_row)
next
  case (rec p)
  then show ?thesis using assms(2) by (auto simp: network_step_set)
qed

lemma network_rows_pred:
  assumes "get_social_network_personid db pid types = Some rows" and "r \<in> set rows"
    and "via_id r = Some v"
  shows "\<exists>p \<in> set rows. person_id p = v \<and> distance r = Suc (distance p) \<and>
           via_name r = person_name p \<and> via_name_chn r = person_name_chn p"
  using network_closure_pred [of db types pid r v] assms network_rows_set [OF assms(1)] by auto

section \<open>Reachability from the root\<close>

lemma demo_network: "get_social_network_personid demo_db 1 None = Some demo_rows"
  by code_simp

lemma network_walk_row:
  assumes "assoc_walk db types pid d v" and "d \<le> 5" and "network_seed db types pid \<noteq> []"
  shows "\<exists>r. cte_closure (network_step db types) (set (network_seed db types pid)) r \<and>
           person_id r = v \<and> distance r = d"
  using assms(1,2)
proof (induction rule: assoc_walk.induct)
  case zero
  obtain s where s: "s \<in> set (network_seed db types pid)"
    using assms(3) by (cases "network_seed db types pid") auto
  then have "cte_closure (network_step db types) (set (network_seed db types pid)) s"
    by (rule cte_closure.base)
  with s show ?case by (auto dest!: network_seed_row)
next
  case (step d u v)
  then obtain p where p: "cte_closure (network_step db types) (set (network_seed db types pid)) p"
    and pu: "person_id p = u" and pd: "distance p = d"
    by auto
  from step.hyps(2) obtain ad n a where
    mem: "ad \<in> set (ASSOC_DATA db)" "n \<in> set (BIOG_MAIN db)" "a \<in> set (ASSOC_CODES db)"
    and e: "ad_assoc_id ad = u" "ad_personid ad = v" "c_personid n = v" "v \<noteq> u"
    and code: "ad_assoc_code ad = ac_assoc_code a" "type_condition types (Some a)"
    by (auto simp: assoc_edge_def person_ids_def)
  have link: "person_id p = ad_assoc_id ad" "ad_personid ad = c_personid n"
    "c_personid n \<noteq> person_id p" "distance p < 5"
    using e pu pd step.prems by auto
  have "expand_row p n a \<in> set (network_step db types p)"
    unfolding network_step_set using mem link code by blast
  with p have "cte_closure (network_step db types) (set (network_seed db types pid)) (expand_row p n a)"
    by (rule cte_closure.rec)
  then show ?case using pd \<open>c_personid n = v\<close> by auto
qed

section \<open>Filters, empty results and the shape of the result\<close>

lemma type_condition_mono:
  "filter_weaker A B \<Longrightarrow> type_condition A a \<Longrightarrow> type_condition B a"
  by (auto simp: filter_weaker_def type_condition_def split: option.splits)

lemma network_seed_mono:
  assumes "filter_weaker A B"
  shows "set (network_seed db A pid) \<subseteq> set (network_seed db B pid)"
  using type_condition_mono [OF assms] unfolding network_seed_def by fastforce

lemma network_step_mono:
  assumes "filter_weaker A B"
  shows "set (network_step db A p) \<subseteq> set (network_step db B p)"
proof
  fix r
  assume "r \<in> set (network_step db A p)"
  then show "r \<in> set (network_step db B p)"
    unfolding network_step_set using type_condition_mono [OF assms] by blast
qed

lemma network_get_Some:
  "\<exists>rows. get_social_network_personid db pid types = Some rows \<and>
     set rows = {r. cte_closure (network_step db types) (set (network_seed db types pid)) r}"
  using network_cte_closure [of db types pid] by (auto simp: get_social_network_personid_def)

lemma network_seed_empty_rows:
  "network_seed db types pid = [] \<Longrightarrow> get_social_network_personid db pid types = Some []"
  by (simp add: get_social_network_personid_def)

lemma network_seed_isolated:
  assumes p: "p \<in> set (BIOG_MAIN db)"
    and uniq: "\<forall>q \<in> set (BIOG_MAIN db). c_personid q = c_personid p \<longrightarrow> q = p"
    and nofact: "\<forall>ad \<in> set (ASSOC_DATA db). ad_personid ad \<noteq> c_personid p"
  shows "set (network_seed db None (c_personid p)) = {seed_row p None}"
proof
  show "set (network_seed db None (c_personid p)) \<subseteq> {seed_row p None}"
  proof
    fix r
    assume "r \<in> set (network_seed db None (c_personid p))"
    then obtain q a where q: "q \<in> set (BIOG_MAIN db)" "c_personid q = c_personid p" "r = seed_row q a"
      and a: "case a of None \<Rightarrow> True
        | Some c \<Rightarrow> \<exists>ad \<in> set (ASSOC_DATA db). ad_personid ad = c_personid p \<and> ad_assoc_code ad = ac_assoc_code c"
      by (blast dest: network_seed_row)
    from a nofact have "a = None" by (auto split: option.splits)
    with q uniq show "r \<in> {seed_row p None}" by auto
  qed
next
  have j1: "(p, None) \<in> set (left_join (BIOG_MAIN db) (ASSOC_DATA db) (\<lambda>p ad. c_personid p = ad_personid ad))"
    using p nofact by (auto simp: left_join_set)
  have "((p, None), None) \<in> set (left_join
           (left_join (BIOG_MAIN db) (ASSOC_DATA db) (\<lambda>p ad. c_personid p = ad_personid ad))
           (ASSOC_CODES db) (\<lambda>(p, ad) a. sql_eq (map_option ad_assoc_code ad) (Some (ac_assoc_code a))))"
    using j1 by (auto simp: left_join_set)
  then show "{seed_row p None} \<subseteq> set (network_seed db None (c_personid p))"
    unfolding network_seed_def by (force simp: type_condition_def)
qed

section \<open>Properties of the traversal\<close>

text \<open>C1: the recursive query returns on every store, root and filter: the queue of the
  CTE empties although the association graph may have cycles, because the guard
  \<open>p.distance < 5\<close> bounds the depth.\<close>

theorem get_social_network_personid_returns:
  "\<exists>rows. get_social_network_personid db pid types = Some rows"
  using network_cte_closure [of db types pid] by (auto simp: get_social_network_personid_def)

text \<open>C2: no row of the result is at a distance greater than 5.\<close>

theorem network_depth_bound:
  assumes "get_social_network_personid db pid types = Some rows" and "r \<in> set rows"
  shows "distance r \<le> 5"
proof -
  from assms have "cte_closure (network_step db types) (set (network_seed db types pid)) r"
    by (simp add: network_rows_set)
  then show ?thesis
  proof (induction rule: cte_closure.induct)
    case (base r)
    then show ?case by (auto dest!: network_seed_row)
  next
    case (rec p r)
    then show ?case by (auto simp: network_step_def)
  qed
qed

theorem network_depth_bound_witness:
  "get_social_network_personid demo_db 1 None = Some demo_rows \<and> demo_rows ! 9 \<in> set demo_rows \<and>
   distance (demo_rows ! 9) = 5 \<and> distance (demo_rows ! 9) \<le> 5"
proof -
  have mem: "demo_rows ! 9 \<in> set demo_rows" by (rule nth_mem) code_simp
  have "distance (demo_rows ! 9) = 5" by code_simp
  with demo_network mem network_depth_bound [OF demo_network mem] show ?thesis by simp
qed

text \<open>C3: no row names its own person as the person it was reached through.\<close>

theorem network_no_self_loop:
  assumes "get_social_network_personid db pid types = Some rows" and "r \<in> set rows"
  shows "via_id r \<noteq> Some (person_id r)"
proof -
  from assms have "cte_closure (network_step db types) (set (network_seed db types pid)) r"
    by (simp add: network_rows_set)
  then show ?thesis
  proof (induction rule: cte_closure.induct)
    case (base r)
    then show ?case by (auto dest!: network_seed_row)
  next
    case (rec p r)
    then show ?case by (auto simp: network_step_def)
  qed
qed

theorem network_no_self_loop_witness:
  "get_social_network_personid demo_db 1 None = Some demo_rows \<and> demo_rows ! 2 \<in> set demo_rows \<and>
   via_id (demo_rows ! 2) \<noteq> Some (person_id (demo_rows ! 2))"
proof -
  have mem: "demo_rows ! 2 \<in> set demo_rows" by (rule nth_mem) code_simp
  with demo_network network_no_self_loop [OF demo_network mem] show ?thesis by simp
qed

text \<open>C4: refinement of the bounded-reachability specification: a person appears at
  distance \<open>d\<close> in the result exactly when the initial select yields a row and there is
  a walk of length \<open>d \<le> 5\<close> from the root along association edges (fact of \<open>v\<close> with
  \<open>u\<close>, \<open>v \<noteq> u\<close>, code in the table and allowed by the filter).\<close>

theorem network_reach_iff_walk:
  assumes "get_social_network_personid db pid types = Some rows"
  shows "(\<exists>r \<in> set rows. person_id r = v \<and> distance r = d) \<longleftrightarrow>
           network_seed db types pid \<noteq> [] \<and> d \<le> 5 \<and> assoc_walk db types pid d v"
proof
  assume "\<exists>r \<in> set rows. person_id r = v \<and> distance r = d"
  then obtain r where r: "r \<in> set rows" "person_id r = v" "distance r = d" by blast
  then have cl: "cte_closure (network_step db types) (set (network_seed db types pid)) r"
    using assms by (simp add: network_rows_set)
  then have "net_row_inv db types pid r" by (rule network_closure_inv)
  moreover have "network_seed db types pid \<noteq> []"
    using cl by (auto dest: cte_closure_empty)
  ultimately show "network_seed db types pid \<noteq> [] \<and> d \<le> 5 \<and> assoc_walk db types pid d v"
    using r by (simp add: net_row_inv_def)
next
  assume "network_seed db types pid \<noteq> [] \<and> d \<le> 5 \<and> assoc_walk db types pid d v"
  then show "\<exists>r \<in> set rows. person_id r = v \<and> distance r = d"
    using network_walk_row [of db types pid d v] assms by (auto simp: network_rows_set)
qed

theorem network_reach_iff_walk_witness:
  "get_social_network_personid demo_db 1 None = Some demo_rows \<and> assoc_walk demo_db None 1 3 4"
proof -
  have "\<exists>r \<in> set demo_rows. person_id r = 4 \<and> distance r = 3" by code_simp
  with network_reach_iff_walk [OF demo_network] demo_network show ?thesis by blast
qed

text \<open>C11: a weaker relation-type filter never loses rows: if every code allowed by
  filter \<open>A\<close> is allowed by \<open>B\<close> (no filter allows all), every row of the traversal
  under \<open>A\<close> is a row of the traversal under \<open>B\<close> (spec section 8, item 4).\<close>
theorem network_filter_mono:
  assumes "filter_weaker A B"
    and "get_social_network_personid db pid A = Some ra"
    and "get_social_network_personid db pid B = Some rb"
  shows "set ra \<subseteq> set rb"
proof
  fix r
  assume "r \<in> set ra"
  then have "cte_closure (network_step db A) (set (network_seed db A pid)) r"
    using assms(2) by (simp add: network_rows_set)
  then have "cte_closure (network_step db B) (set (network_seed db B pid)) r"
    using network_seed_mono [OF assms(1)] network_step_mono [OF assms(1)] by (rule cte_closure_mono)
  then show "r \<in> set rb"
    using assms(3) by (simp add: network_rows_set)
qed

theorem network_filter_mono_witness:
  "\<exists>ra rb. filter_weaker (Some [5]) None \<and>
     get_social_network_personid demo_db 1 (Some [5]) = Some ra \<and>
     get_social_network_personid demo_db 1 None = Some rb \<and> set ra \<subseteq> set rb"
proof -
  obtain ra where ra: "get_social_network_personid demo_db 1 (Some [5]) = Some ra"
    using network_get_Some by blast
  obtain rb where rb: "get_social_network_personid demo_db 1 None = Some rb"
    using network_get_Some by blast
  have w: "filter_weaker (Some [5]) None" by (simp add: filter_weaker_def)
  from network_filter_mono [OF w ra rb] w ra rb show ?thesis by blast
qed

text \<open>C12: without a filter, a person of the store who appears in no association fact
  (neither as \<open>c_personid\<close> nor as \<open>c_assoc_id\<close>) yields exactly one row: the root
  itself, with no via, \<open>NULL\<close> descriptions and distance 0 (spec section 8, item 3).\<close>
theorem network_isolated_root:
  assumes p: "p \<in> set (BIOG_MAIN db)"
    and uniq: "\<forall>q \<in> set (BIOG_MAIN db). c_personid q = c_personid p \<longrightarrow> q = p"
    and nofact: "\<forall>ad \<in> set (ASSOC_DATA db). ad_personid ad \<noteq> c_personid p \<and> ad_assoc_id ad \<noteq> c_personid p"
  shows "get_social_network_personid db (c_personid p) None = Some [seed_row p None]"
proof -
  obtain rows where rows: "get_social_network_personid db (c_personid p) None = Some rows"
    using network_get_Some by blast
  have seed: "set (network_seed db None (c_personid p)) = {seed_row p None}"
    using network_seed_isolated [OF p uniq] nofact by blast
  have "r \<notin> set (network_step db None (seed_row p None))" for r
    using nofact by (auto simp: network_step_set)
  then have nostep: "set (network_step db None (seed_row p None)) = {}" by (metis equals0I)
  have "cte_closure (network_step db None) {seed_row p None} r \<Longrightarrow> r = seed_row p None" for r
  proof (induction rule: cte_closure.induct)
    case (base r)
    then show ?case by simp
  next
    case (rec q r)
    with nostep show ?case by simp
  qed
  then have "set rows = {seed_row p None}"
    using network_rows_set [OF rows] seed by (auto intro: cte_closure.base)
  moreover have "distinct rows" using network_rows_sorted_distinct [OF rows] by simp
  ultimately have "rows = [seed_row p None]" by (rule distinct_set_singleton [rotated])
  with rows show ?thesis by simp
qed

theorem network_isolated_root_witness:
  "get_social_network_personid demo_db 5 None = Some [seed_row (demo_person 5 ''E'') None]"
proof -
  have "demo_person 5 ''E'' \<in> set (BIOG_MAIN demo_db)"
    and "\<forall>q \<in> set (BIOG_MAIN demo_db). c_personid q = c_personid (demo_person 5 ''E'') \<longrightarrow> q = demo_person 5 ''E''"
    and "\<forall>ad \<in> set (ASSOC_DATA demo_db). ad_personid ad \<noteq> c_personid (demo_person 5 ''E'') \<and>
           ad_assoc_id ad \<noteq> c_personid (demo_person 5 ''E'')"
    by (simp_all add: fixture_defs)
  from network_isolated_root [OF this] show ?thesis by (simp add: demo_person_def)
qed

text \<open>C13: with a filter, a root that is \<open>c_personid\<close> of no association fact yields
  no row at all: the left-joined \<open>NULL\<close> code fails \<open>IN (...)\<close>. The spec expects the
  single isolated-root row.\<close>
theorem network_filtered_no_fact_empty:
  assumes "\<forall>ad \<in> set (ASSOC_DATA db). ad_personid ad \<noteq> pid"
  shows "get_social_network_personid db pid (Some ts) = Some []"
proof -
  have "r \<notin> set (network_seed db (Some ts) pid)" for r
  proof
    assume "r \<in> set (network_seed db (Some ts) pid)"
    then obtain q a where "type_condition (Some ts) a"
      and "case a of None \<Rightarrow> True
        | Some c \<Rightarrow> \<exists>ad \<in> set (ASSOC_DATA db). ad_personid ad = pid \<and> ad_assoc_code ad = ac_assoc_code c"
      by (blast dest: network_seed_row)
    then show False using assms by (auto simp: type_condition_def split: option.splits)
  qed
  then have "set (network_seed db (Some ts) pid) = {}" by (metis equals0I)
  then show ?thesis by (simp add: network_seed_empty_rows)
qed

theorem network_filtered_no_fact_empty_witness:
  "(5::person_id) \<notin> ad_personid ` set (ASSOC_DATA demo_db) \<and>
   get_social_network_personid demo_db 5 (Some [5]) = Some []"
proof -
  have h: "\<forall>ad \<in> set (ASSOC_DATA demo_db). ad_personid ad \<noteq> 5" by (simp add: fixture_defs)
  moreover have "(5::person_id) \<notin> ad_personid ` set (ASSOC_DATA demo_db)" by (simp add: fixture_defs)
  ultimately show ?thesis using network_filtered_no_fact_empty [OF h] by blast
qed

text \<open>C14: a root id that is not a person of the store yields no row.\<close>
theorem network_unknown_root_empty:
  assumes "pid \<notin> person_ids db"
  shows "get_social_network_personid db pid types = Some []"
proof -
  have "r \<notin> set (network_seed db types pid)" for r
  proof
    assume "r \<in> set (network_seed db types pid)"
    then obtain q where "q \<in> set (BIOG_MAIN db)" "c_personid q = pid"
      by (blast dest: network_seed_row)
    then show False using assms by (auto simp: person_ids_def)
  qed
  then have "set (network_seed db types pid) = {}" by (metis equals0I)
  then show ?thesis by (simp add: network_seed_empty_rows)
qed

theorem network_unknown_root_empty_witness:
  "9 \<notin> person_ids demo_db \<and> get_social_network_personid demo_db 9 None = Some []"
proof -
  have h: "9 \<notin> person_ids demo_db" by (simp add: person_ids_def fixture_defs)
  with network_unknown_root_empty [OF h] show ?thesis by blast
qed

text \<open>C15: an empty relation-type list makes the query \<open>IN ()\<close>, which matches
  nothing: the traversal returns no rows. The spec requires an empty filter to mean no
  restriction.\<close>
theorem network_empty_filter:
  "get_social_network_personid db pid (Some []) = Some []"
proof -
  have "r \<notin> set (network_seed db (Some []) pid)" for r
  proof
    assume "r \<in> set (network_seed db (Some []) pid)"
    then obtain a where "type_condition (Some []) a" by (blast dest: network_seed_row)
    then show False by (simp add: type_condition_def)
  qed
  then have "set (network_seed db (Some []) pid) = {}" by (metis equals0I)
  then show ?thesis by (simp add: network_seed_empty_rows)
qed

text \<open>The scenario of spec section 8, item 7, run on the code: the traversal of
  person 100 with filter \<open>{5}\<close> is the single row of person 100 itself (with the
  description of code 5) at distance 0. Person 200 is not reached, since the recursive
  select follows facts whose \<open>c_assoc_id\<close> is the current person; person 300 is
  not reached either.\<close>
theorem network_spec_scenario:
  "get_social_network_personid scenario_db 100 (Some [5]) =
     Some [seed_row (demo_person 100 ''P100'') (Some (demo_code 5 ''five''))]"
  by code_simp

text \<open>C16: the result is a distance-ordered, duplicate-free listing of a breadth-first
  tree: a row has no via exactly at distance 0, rows at distance 0 are the root's, and
  the via of every other row is the person of a row one step closer, whose names the
  row repeats.\<close>
theorem network_result_wf:
  assumes "get_social_network_personid db pid types = Some rows"
  shows "sorted (map distance rows) \<and> distinct rows \<and>
    (\<forall>r \<in> set rows. (via_id r = None \<longleftrightarrow> distance r = 0) \<and> (distance r = 0 \<longrightarrow> person_id r = pid) \<and>
       (\<forall>v. via_id r = Some v \<longrightarrow>
          (\<exists>p \<in> set rows. person_id p = v \<and> distance r = Suc (distance p) \<and>
             via_name r = person_name p \<and> via_name_chn r = person_name_chn p)))"
proof -
  have all: "\<forall>r \<in> set rows. (via_id r = None \<longleftrightarrow> distance r = 0) \<and> (distance r = 0 \<longrightarrow> person_id r = pid) \<and>
       (\<forall>v. via_id r = Some v \<longrightarrow>
          (\<exists>p \<in> set rows. person_id p = v \<and> distance r = Suc (distance p) \<and>
             via_name r = person_name p \<and> via_name_chn r = person_name_chn p))"
  proof
    fix r
    assume r: "r \<in> set rows"
    then have "cte_closure (network_step db types) (set (network_seed db types pid)) r"
      using network_rows_set [OF assms] by simp
    then have "net_row_inv db types pid r" by (rule network_closure_inv)
    then have i1: "via_id r = None \<longleftrightarrow> distance r = 0" and i2: "distance r = 0 \<longrightarrow> person_id r = pid"
      unfolding net_row_inv_def by blast+
    have i3: "\<forall>v. via_id r = Some v \<longrightarrow>
          (\<exists>p \<in> set rows. person_id p = v \<and> distance r = Suc (distance p) \<and>
             via_name r = person_name p \<and> via_name_chn r = person_name_chn p)"
    proof (intro allI impI)
      fix v
      assume "via_id r = Some v"
      then show "\<exists>p \<in> set rows. person_id p = v \<and> distance r = Suc (distance p) \<and>
             via_name r = person_name p \<and> via_name_chn r = person_name_chn p"
        by (rule network_rows_pred [OF assms r])
    qed
    show "(via_id r = None \<longleftrightarrow> distance r = 0) \<and> (distance r = 0 \<longrightarrow> person_id r = pid) \<and>
       (\<forall>v. via_id r = Some v \<longrightarrow>
          (\<exists>p \<in> set rows. person_id p = v \<and> distance r = Suc (distance p) \<and>
             via_name r = person_name p \<and> via_name_chn r = person_name_chn p))"
      by (rule conjI [OF i1 conjI [OF i2 i3]])
  qed
  have sd: "sorted (map distance rows) \<and> distinct rows"
    by (rule network_rows_sorted_distinct [OF assms])
  show ?thesis by (rule conjI [OF conjunct1 [OF sd] conjI [OF conjunct2 [OF sd] all]])
qed

theorem network_result_wf_witness:
  "get_social_network_personid demo_db 1 None = Some demo_rows \<and> sorted (map distance demo_rows) \<and>
   distinct demo_rows"
proof -
  have "sorted (map distance demo_rows) \<and> distinct demo_rows"
    using network_result_wf [OF demo_network] by (rule conjE) (erule conjE, rule conjI)
  with demo_network show ?thesis by (rule conjI)
qed

end
