(* ===== verification/Graph.thy ===== *)
theory Graph
  imports Network
begin

text \<open>
  Graph assembly: the loop of \<open>search_social_network\<close> in \<open>src/main.py\<close> (lines
  256--269) that builds a NetworkX \<open>DiGraph\<close> from the rows of the traversal. NetworkX
  is a library the code calls; its \<open>DiGraph\<close> is modelled as two insertion-ordered
  dictionaries, the node dictionary (\<open>G._node\<close>: id to attribute dictionary) and the
  edge dictionary (\<open>G._adj\<close>, keyed here by the ordered pair \<open>(u, v)\<close>), with
  \<open>add_node\<close> and \<open>add_edge\<close> as NetworkX defines them: \<open>add_node\<close> on a present node
  updates its attributes, \<open>add_edge\<close> adds missing end nodes with empty attributes and
  merges the new attributes into the edge's dictionary (\<open>datadict.update(attr)\<close>).
  Python's truth test \<open>if via_id\<close> is false for \<open>None\<close> and for \<open>0\<close>.
\<close>

section \<open>Python values and NetworkX graphs\<close>

datatype pyval = PyNone | PyStr string | PyInt int

type_synonym attrs = "(string, pyval) pydict"

definition py_text :: "sql_text \<Rightarrow> pyval" where
  "py_text t = (case t of None \<Rightarrow> PyNone | Some s \<Rightarrow> PyStr s)"

text \<open>\<open>if via_id\<close> for an integer: \<open>0\<close> is false.\<close>

definition py_truthy_int :: "int \<Rightarrow> bool" where
  "py_truthy_int i \<longleftrightarrow> i \<noteq> 0"

record nx_digraph =
  nx_node :: "(person_id, attrs) pydict"
  nx_adj :: "(person_id \<times> person_id, attrs) pydict"

definition nx_empty :: nx_digraph where
  "nx_empty = \<lparr>nx_node = [], nx_adj = []\<rparr>"

text \<open>\<open>n in G\<close>.\<close>

definition nx_contains :: "nx_digraph \<Rightarrow> person_id \<Rightarrow> bool" where
  "nx_contains G n \<longleftrightarrow> map_of (nx_node G) n \<noteq> None"

definition nx_add_node :: "person_id \<Rightarrow> attrs \<Rightarrow> nx_digraph \<Rightarrow> nx_digraph" where
  "nx_add_node n attr G =
     (case map_of (nx_node G) n of
        None \<Rightarrow> G\<lparr>nx_node := nx_node G @ [(n, dict_update [] attr)]\<rparr>
      | Some d \<Rightarrow> G\<lparr>nx_node := AList.update n (dict_update d attr) (nx_node G)\<rparr>)"

definition nx_ensure_node :: "person_id \<Rightarrow> nx_digraph \<Rightarrow> nx_digraph" where
  "nx_ensure_node n G =
     (if map_of (nx_node G) n = None then G\<lparr>nx_node := nx_node G @ [(n, [])]\<rparr> else G)"

definition nx_add_edge :: "person_id \<Rightarrow> person_id \<Rightarrow> attrs \<Rightarrow> nx_digraph \<Rightarrow> nx_digraph" where
  "nx_add_edge u v attr G =
     (let G2 = nx_ensure_node v (nx_ensure_node u G);
          datadict = (case map_of (nx_adj G2) (u, v) of None \<Rightarrow> [] | Some d \<Rightarrow> d)
      in G2\<lparr>nx_adj := AList.update (u, v) (dict_update datadict attr) (nx_adj G2)\<rparr>)"

section \<open>The assembly loop\<close>

definition person_attrs :: "net_row \<Rightarrow> attrs" where
  "person_attrs r = [(''name'', py_text (person_name r)), (''label'', py_text (person_name_chn r))]"

definition via_attrs :: "net_row \<Rightarrow> attrs" where
  "via_attrs r = [(''name'', py_text (via_name r)), (''name_chn'', py_text (via_name_chn r))]"

definition edge_attrs :: "net_row \<Rightarrow> attrs" where
  "edge_attrs r =
     [(''assoc_desc'', py_text (assoc_desc r)), (''assoc_desc_chn'', py_text (assoc_desc_chn r)),
      (''label'', py_text (assoc_desc_chn r)), (''distance'', PyInt (int (distance r)))]"

text \<open>One iteration of the loop (lines 261--269).\<close>

definition add_row_to_graph :: "nx_digraph \<Rightarrow> net_row \<Rightarrow> nx_digraph" where
  "add_row_to_graph G row =
     (let G1 = (if \<not> nx_contains G (person_id row)
                then nx_add_node (person_id row) (person_attrs row) G else G);
          G2 = (case via_id row of
                  None \<Rightarrow> G1
                | Some v \<Rightarrow> if py_truthy_int v \<and> \<not> nx_contains G1 v
                            then nx_add_node v (via_attrs row) G1 else G1)
      in case via_id row of
           None \<Rightarrow> G2
         | Some v \<Rightarrow> if py_truthy_int v then nx_add_edge v (person_id row) (edge_attrs row) G2 else G2)"

text \<open>The loop from \<open>G = nx.DiGraph()\<close> (lines 257--269).\<close>

definition build_social_graph :: "net_row list \<Rightarrow> nx_digraph" where
  "build_social_graph rows = fold (\<lambda>row G. add_row_to_graph G row) rows nx_empty"

section \<open>What the graph should hold\<close>

text \<open>The ids the rows name: every person, and every via that passes the truth test.\<close>

definition row_node_ids :: "net_row list \<Rightarrow> person_id set" where
  "row_node_ids rows =
     person_id ` set rows \<union> {v. \<exists>r \<in> set rows. via_id r = Some v \<and> py_truthy_int v}"

definition row_edge_keys :: "net_row list \<Rightarrow> (person_id \<times> person_id) set" where
  "row_edge_keys rows = {(v, person_id r) | v r. r \<in> set rows \<and> via_id r = Some v \<and> py_truthy_int v}"

text \<open>Well-formed graph: keys of both dictionaries distinct, edges between nodes.\<close>

definition nx_wf :: "nx_digraph \<Rightarrow> bool" where
  "nx_wf G \<longleftrightarrow>
     distinct (map fst (nx_node G)) \<and> distinct (map fst (nx_adj G)) \<and>
     (\<forall>e \<in> fst ` set (nx_adj G). fst e \<in> fst ` set (nx_node G) \<and> snd e \<in> fst ` set (nx_node G))"

text \<open>The attributes a node gets from the first row that names it: the row's person
  (added first in an iteration), else its via when that passes the truth test.\<close>

fun first_node_attrs :: "net_row list \<Rightarrow> person_id \<Rightarrow> attrs option" where
  "first_node_attrs [] n = None"
| "first_node_attrs (r # rs) n =
     (if person_id r = n then Some (person_attrs r)
      else if via_id r = Some n \<and> py_truthy_int n then Some (via_attrs r)
      else first_node_attrs rs n)"

definition row_makes_edge :: "net_row \<Rightarrow> person_id \<times> person_id \<Rightarrow> bool" where
  "row_makes_edge r e \<longleftrightarrow> via_id r = Some (fst e) \<and> py_truthy_int (fst e) \<and> person_id r = snd e"

text \<open>The last row that adds a given edge.\<close>

fun last_edge_row :: "net_row list \<Rightarrow> person_id \<times> person_id \<Rightarrow> net_row option" where
  "last_edge_row [] e = None"
| "last_edge_row (r # rs) e =
     (case last_edge_row rs e of
        Some r' \<Rightarrow> Some r'
      | None \<Rightarrow> if row_makes_edge r e then Some r else None)"

text \<open>Every via of the rows is the person of an earlier row (or in \<open>S\<close>).\<close>

fun vias_named_before :: "person_id set \<Rightarrow> net_row list \<Rightarrow> bool" where
  "vias_named_before S [] = True"
| "vias_named_before S (r # rs) =
     ((case via_id r of None \<Rightarrow> True | Some v \<Rightarrow> v \<in> S) \<and>
      vias_named_before (insert (person_id r) S) rs)"

text \<open>Every edge dictionary has only the keys the loop writes.\<close>

definition edge_attr_keys :: "string set" where
  "edge_attr_keys = {''assoc_desc'', ''assoc_desc_chn'', ''label'', ''distance''}"

definition nx_edge_keys_ok :: "nx_digraph \<Rightarrow> bool" where
  "nx_edge_keys_ok G \<longleftrightarrow> (\<forall>d \<in> snd ` set (nx_adj G). fst ` set d \<subseteq> edge_attr_keys)"

section \<open>NetworkX operations\<close>

lemma nx_contains_iff [nx_simps]: "nx_contains G n \<longleftrightarrow> n \<in> fst ` set (nx_node G)"
  by (simp add: nx_contains_def map_of_eq_None_iff)

lemma nx_add_node_keys [simp]:
  "fst ` set (nx_node (nx_add_node n a G)) = insert n (fst ` set (nx_node G))"
  "nx_adj (nx_add_node n a G) = nx_adj G"
  by (auto simp: nx_add_node_def split: option.splits)

lemma nx_ensure_node_keys [simp]:
  "fst ` set (nx_node (nx_ensure_node n G)) = insert n (fst ` set (nx_node G))"
  "nx_adj (nx_ensure_node n G) = nx_adj G"
  by (auto simp: nx_ensure_node_def map_of_eq_None_iff)

lemma nx_add_edge_keys [simp]:
  "fst ` set (nx_node (nx_add_edge u v a G)) = insert u (insert v (fst ` set (nx_node G)))"
  "fst ` set (nx_adj (nx_add_edge u v a G)) = insert (u, v) (fst ` set (nx_adj G))"
  by (auto simp: nx_add_edge_def Let_def)

lemma nx_add_node_wf: "nx_wf G \<Longrightarrow> nx_wf (nx_add_node n a G)"
  by (auto simp: nx_wf_def nx_add_node_def distinct_update map_of_eq_None_iff split: option.splits)

lemma nx_ensure_node_wf: "nx_wf G \<Longrightarrow> nx_wf (nx_ensure_node n G)"
  by (auto simp: nx_wf_def nx_ensure_node_def map_of_eq_None_iff)

lemma nx_add_edge_wf: "nx_wf G \<Longrightarrow> nx_wf (nx_add_edge u v a G)"
proof -
  assume "nx_wf G"
  then have "nx_wf (nx_ensure_node v (nx_ensure_node u G))"
    by (intro nx_ensure_node_wf)
  then show ?thesis
    by (auto simp: nx_wf_def nx_add_edge_def Let_def distinct_update)
qed

lemma add_row_to_graph_wf: "nx_wf G \<Longrightarrow> nx_wf (add_row_to_graph G r)"
  by (auto simp: add_row_to_graph_def Let_def nx_add_node_wf nx_add_edge_wf split: option.splits)

lemma add_row_to_graph_keys:
  "fst ` set (nx_node (add_row_to_graph G r)) =
     fst ` set (nx_node G) \<union> row_node_ids [r]"
  "fst ` set (nx_adj (add_row_to_graph G r)) = fst ` set (nx_adj G) \<union> row_edge_keys [r]"
  by (auto simp: add_row_to_graph_def Let_def row_node_ids_def row_edge_keys_def nx_simps
      split: option.splits if_splits)

lemma row_node_ids_Cons: "row_node_ids (r # rs) = row_node_ids [r] \<union> row_node_ids rs"
  by (auto simp: row_node_ids_def)

lemma row_edge_keys_Cons: "row_edge_keys (r # rs) = row_edge_keys [r] \<union> row_edge_keys rs"
  by (auto simp: row_edge_keys_def)

lemma fold_add_rows_keys:
  "fst ` set (nx_node (fold (\<lambda>row G. add_row_to_graph G row) rows G)) = fst ` set (nx_node G) \<union> row_node_ids rows"
  "fst ` set (nx_adj (fold (\<lambda>row G. add_row_to_graph G row) rows G)) = fst ` set (nx_adj G) \<union> row_edge_keys rows"
  by (induction rows arbitrary: G)
     (auto simp: add_row_to_graph_keys row_node_ids_def row_edge_keys_def)

lemma fold_add_rows_wf: "nx_wf G \<Longrightarrow> nx_wf (fold (\<lambda>row G. add_row_to_graph G row) rows G)"
  by (induction rows arbitrary: G) (auto simp: add_row_to_graph_wf)

lemma nx_wf_empty: "nx_wf nx_empty"
  by (simp add: nx_wf_def nx_empty_def)

section \<open>Node attributes: the first row wins\<close>

lemma nx_add_edge_present_nodes:
  assumes "nx_contains G u" and "nx_contains G v"
  shows "nx_node (nx_add_edge u v a G) = nx_node G"
proof -
  from assms have "nx_ensure_node u G = G" and "nx_ensure_node v G = G"
    by (simp_all add: nx_ensure_node_def nx_contains_def)
  then show ?thesis by (simp add: nx_add_edge_def Let_def)
qed

lemma nx_add_node_fresh:
  assumes "\<not> nx_contains G n"
  shows "map_of (nx_node (nx_add_node n a G)) = (map_of (nx_node G))(n \<mapsto> dict_update [] a)"
proof -
  from assms have none: "map_of (nx_node G) n = None" by (simp add: nx_contains_def)
  then have "n \<notin> fst ` set (nx_node G)" by (simp add: map_of_eq_None_iff)
  with none show ?thesis by (auto simp: nx_add_node_def map_add_def fun_eq_iff split: option.splits)
qed

lemma add_row_node_map:
  "map_of (nx_node (add_row_to_graph G r)) n =
     (case map_of (nx_node G) n of
        Some d \<Rightarrow> Some d
      | None \<Rightarrow> if n = person_id r then Some (dict_update [] (person_attrs r))
                else if via_id r = Some n \<and> py_truthy_int n then Some (dict_update [] (via_attrs r))
                else None)"
proof -
  define G1 where "G1 = (if \<not> nx_contains G (person_id r) then nx_add_node (person_id r) (person_attrs r) G else G)"
  have c1: "nx_contains G1 (person_id r)"
    by (simp add: G1_def nx_contains_iff)
  have m1: "map_of (nx_node G1) n =
      (case map_of (nx_node G) n of Some d \<Rightarrow> Some d
       | None \<Rightarrow> if n = person_id r then Some (dict_update [] (person_attrs r)) else None)"
    by (auto simp: G1_def nx_add_node_fresh nx_contains_def split: option.splits)
  show ?thesis
  proof (cases "via_id r")
    case None
    then show ?thesis by (simp add: add_row_to_graph_def Let_def G1_def [symmetric] m1 split: option.splits)
  next
    case (Some v)
    define G2 where "G2 = (if py_truthy_int v \<and> \<not> nx_contains G1 v then nx_add_node v (via_attrs r) G1 else G1)"
    have c2: "nx_contains G2 (person_id r)" "py_truthy_int v \<Longrightarrow> nx_contains G2 v"
      using c1 by (auto simp: G2_def nx_contains_iff)
    have m2: "map_of (nx_node G2) n =
        (case map_of (nx_node G1) n of Some d \<Rightarrow> Some d
         | None \<Rightarrow> if n = v \<and> py_truthy_int v then Some (dict_update [] (via_attrs r)) else None)"
      by (auto simp: G2_def nx_add_node_fresh nx_contains_def split: option.splits)
    have row: "add_row_to_graph G r =
        (if py_truthy_int v then nx_add_edge v (person_id r) (edge_attrs r) G2 else G2)"
      by (simp add: add_row_to_graph_def Let_def G1_def G2_def Some)
    have "map_of (nx_node (add_row_to_graph G r)) n = map_of (nx_node G2) n"
      unfolding row using c2 by (simp add: nx_add_edge_present_nodes)
    then show ?thesis
      using Some c1 by (auto simp: m2 m1 nx_contains_def split: option.splits)
  qed
qed

lemma map_of_person_attrs: "map_of (dict_update [] (person_attrs r)) = map_of (person_attrs r)"
  by (simp add: dict_update_map_of person_attrs_def fun_eq_iff)

lemma map_of_via_attrs: "map_of (dict_update [] (via_attrs r)) = map_of (via_attrs r)"
  by (simp add: dict_update_map_of via_attrs_def fun_eq_iff)

lemma fold_add_rows_node_map:
  "map_option map_of (map_of (nx_node (fold (\<lambda>row G. add_row_to_graph G row) rows G)) n) =
     (case map_of (nx_node G) n of
        Some d \<Rightarrow> Some (map_of d)
      | None \<Rightarrow> map_option map_of (first_node_attrs rows n))"
proof (induction rows arbitrary: G)
  case Nil
  then show ?case by (simp split: option.splits)
next
  case (Cons r rs)
  then show ?case
    by (auto simp: add_row_node_map map_of_person_attrs map_of_via_attrs split: option.splits)
qed

section \<open>Edge attributes: the last row wins\<close>

lemma nx_adj_add_row:
  "nx_adj (add_row_to_graph G r) =
     (case via_id r of
        Some v \<Rightarrow>
          if py_truthy_int v then
            AList.update (v, person_id r)
              (dict_update (case map_of (nx_adj G) (v, person_id r) of None \<Rightarrow> [] | Some d \<Rightarrow> d)
                 (edge_attrs r))
              (nx_adj G)
          else nx_adj G
      | None \<Rightarrow> nx_adj G)"
  by (auto simp: add_row_to_graph_def Let_def nx_add_edge_def split: option.splits)

lemma edge_attrs_keys [simp]: "fst ` set (edge_attrs r) = edge_attr_keys"
  by (auto simp: edge_attrs_def edge_attr_keys_def)

lemma map_of_edge_attrs_update:
  "fst ` set d \<subseteq> edge_attr_keys \<Longrightarrow> map_of (dict_update d (edge_attrs r)) = map_of (edge_attrs r)"
proof -
  assume d: "fst ` set d \<subseteq> edge_attr_keys"
  have "map_of (rev (edge_attrs r)) = map_of (edge_attrs r)"
    by (simp add: edge_attrs_def fun_eq_iff)
  moreover have "dom (map_of d) \<subseteq> dom (map_of (rev (edge_attrs r)))"
    using d by (simp add: dom_map_of_conv_image_fst)
  ultimately show ?thesis by (simp add: dict_update_map_of map_add_dom_subset)
qed

lemma nx_edge_keys_okD:
  assumes ok: "nx_edge_keys_ok G" and m: "map_of (nx_adj G) e = Some d"
  shows "fst ` set d \<subseteq> edge_attr_keys"
proof -
  from m have "(e, d) \<in> set (nx_adj G)" by (rule map_of_SomeD)
  then have "d \<in> snd ` set (nx_adj G)" by force
  with ok show ?thesis unfolding nx_edge_keys_ok_def by blast
qed

lemma add_row_edge_keys_ok:
  assumes ok: "nx_edge_keys_ok G"
  shows "nx_edge_keys_ok (add_row_to_graph G r)"
proof (cases "via_id r")
  case None
  then show ?thesis using ok by (simp add: nx_edge_keys_ok_def nx_adj_add_row)
next
  case (Some v)
  show ?thesis
  proof (cases "py_truthy_int v")
    case False
    then show ?thesis using ok Some by (simp add: nx_edge_keys_ok_def nx_adj_add_row)
  next
    case True
    define d where "d = dict_update (case map_of (nx_adj G) (v, person_id r) of None \<Rightarrow> [] | Some d \<Rightarrow> d)
        (edge_attrs r)"
    have dk: "fst ` set d \<subseteq> edge_attr_keys"
    proof (cases "map_of (nx_adj G) (v, person_id r)")
      case None
      then show ?thesis by (simp add: d_def)
    next
      case (Some d')
      then show ?thesis using nx_edge_keys_okD [OF ok Some] by (simp add: d_def)
    qed
    have "snd ` set (nx_adj (add_row_to_graph G r)) \<subseteq> insert d (snd ` set (nx_adj G))"
      using Some True update_snd_subset by (simp add: nx_adj_add_row d_def)
    then show ?thesis using ok dk unfolding nx_edge_keys_ok_def by blast
  qed
qed

lemma add_row_edge_map:
  assumes "nx_edge_keys_ok G"
  shows "map_option map_of (map_of (nx_adj (add_row_to_graph G r)) e) =
     (if row_makes_edge r e then Some (map_of (edge_attrs r)) else map_option map_of (map_of (nx_adj G) e))"
proof -
  have keys: "fst ` set d \<subseteq> edge_attr_keys" if "map_of (nx_adj G) e' = Some d" for e' d
    using assms that by (rule nx_edge_keys_okD)
  show ?thesis
    by (cases e)
       (auto simp: nx_adj_add_row row_makes_edge_def update_conv' map_of_edge_attrs_update keys
         split: option.splits)
qed

lemma fold_add_rows_edge_map:
  "nx_edge_keys_ok G \<Longrightarrow>
     map_option map_of (map_of (nx_adj (fold (\<lambda>row G. add_row_to_graph G row) rows G)) e) =
       (case last_edge_row rows e of
          Some r \<Rightarrow> Some (map_of (edge_attrs r))
        | None \<Rightarrow> map_option map_of (map_of (nx_adj G) e))"
proof (induction rows arbitrary: G)
  case Nil
  then show ?case by simp
next
  case (Cons r rs)
  from Cons.prems have "nx_edge_keys_ok (add_row_to_graph G r)" by (rule add_row_edge_keys_ok)
  with Cons.IH have "map_option map_of (map_of (nx_adj (fold (\<lambda>row G. add_row_to_graph G row) rs
      (add_row_to_graph G r))) e) =
      (case last_edge_row rs e of
          Some r \<Rightarrow> Some (map_of (edge_attrs r))
        | None \<Rightarrow> map_option map_of (map_of (nx_adj (add_row_to_graph G r)) e))"
    by blast
  then show ?case using add_row_edge_map [OF Cons.prems, of r e] by (simp split: option.splits)
qed

lemma first_node_attrs_person:
  "vias_named_before S rows \<Longrightarrow> n \<notin> S \<Longrightarrow> first_node_attrs rows n = Some a \<Longrightarrow>
     \<exists>r \<in> set rows. person_id r = n \<and> a = person_attrs r"
proof (induction rows arbitrary: S)
  case Nil
  then show ?case by simp
next
  case (Cons r rs)
  show ?case
  proof (cases "person_id r = n")
    case True
    with Cons.prems(3) show ?thesis by auto
  next
    case False
    have "\<not> (via_id r = Some n \<and> py_truthy_int n)"
      using Cons.prems(1,2) by auto
    with False Cons.prems(3) have "first_node_attrs rs n = Some a" by simp
    moreover have "vias_named_before (insert (person_id r) S) rs" using Cons.prems(1) by simp
    moreover have "n \<notin> insert (person_id r) S" using False Cons.prems(2) by simp
    ultimately show ?thesis using Cons.IH by fastforce
  qed
qed

section \<open>Properties of the assembled graph\<close>

text \<open>C5: the nodes of the graph are exactly the persons of the rows and the vias that
  pass Python's truth test; its edges are exactly the pairs (via, person) of those rows.\<close>

theorem build_social_graph_keys:
  "fst ` set (nx_node (build_social_graph rows)) = row_node_ids rows \<and>
   fst ` set (nx_adj (build_social_graph rows)) = row_edge_keys rows"
  by (simp add: build_social_graph_def fold_add_rows_keys nx_empty_def)

text \<open>Deduplication (spec section 8, item 5, for vias other than 0): the graph has
  one node per distinct id and one edge per distinct ordered pair.\<close>

theorem build_social_graph_counts:
  "length (nx_node (build_social_graph rows)) = card (row_node_ids rows) \<and>
   length (nx_adj (build_social_graph rows)) = card (row_edge_keys rows)"
proof -
  let ?G = "build_social_graph rows"
  have wf: "nx_wf ?G"
    unfolding build_social_graph_def by (rule fold_add_rows_wf [OF nx_wf_empty])
  have "length (nx_node ?G) = card (fst ` set (nx_node ?G))"
    using wf distinct_card [of "map fst (nx_node ?G)"] by (simp add: nx_wf_def)
  moreover have "length (nx_adj ?G) = card (fst ` set (nx_adj ?G))"
    using wf distinct_card [of "map fst (nx_adj ?G)"] by (simp add: nx_wf_def)
  ultimately show ?thesis
    using fold_add_rows_keys [of rows nx_empty] by (simp add: build_social_graph_def nx_empty_def)
qed

text \<open>C6: a node keeps the attributes of the first row that names it: later rows do
  not overwrite them (attribute dictionaries compared as Python compares dictionaries,
  by their key-value maps).\<close>

theorem build_social_graph_node_first:
  "map_option map_of (map_of (nx_node (build_social_graph rows)) n) =
     map_option map_of (first_node_attrs rows n)"
  using fold_add_rows_node_map [of rows nx_empty n]
  by (simp add: build_social_graph_def nx_empty_def)

text \<open>C7: an edge carries the attributes of the last row that adds it, since
  \<open>add_edge\<close> on a present edge updates its dictionary. The spec says the first
  occurrence wins.\<close>

theorem build_social_graph_edge_last:
  "map_option map_of (map_of (nx_adj (build_social_graph rows)) e) =
     map_option (\<lambda>r. map_of (edge_attrs r)) (last_edge_row rows e)"
proof -
  have "nx_edge_keys_ok nx_empty" by (simp add: nx_edge_keys_ok_def nx_empty_def)
  from fold_add_rows_edge_map [OF this, of rows e] show ?thesis
    by (simp add: build_social_graph_def nx_empty_def split: option.splits)
qed

text \<open>A row reached through person 0 adds no edge and no node for its via, because
  \<open>if via_id\<close> is false for 0: one row with a non-null via, and no edge.\<close>

theorem build_social_graph_via_zero:
  "(let r = expand_row (seed_row (demo_person 0 ''U'') None) (demo_person 7 ''G'') (demo_code 5 ''f'')
    in via_id r = Some 0 \<and> nx_adj (build_social_graph [r]) = [] \<and>
       fst ` set (nx_node (build_social_graph [r])) = {7})"
  by (simp add: build_social_graph_def add_row_to_graph_def nx_add_node_def nx_contains_def
      nx_empty_def py_truthy_int_def Let_def dict_update_def demo_person_def)

end
