(* ===== verification/Csv.thy ===== *)
theory Csv
  imports Prelude
begin

text \<open>
  Python's \<open>csv\<close> module in its default \<open>excel\<close> dialect, which Export A uses
  (\<open>csv.writer(f)\<close>, lines 247--251 of \<open>src/main.py\<close>): the writer joins the fields of
  a row with \<open>,\<close>, quotes a field (\<open>QUOTE_MINIMAL\<close>) when it contains the delimiter, the
  quote character or a line-break character, doubles a quote inside a quoted field,
  writes a row holding one empty field as \<open>""\<close>, and ends every row with \<open>\r\n\<close>. The
  reader is the character state machine of CPython's \<open>_csv.c\<close> (\<open>START_RECORD\<close>,
  \<open>START_FIELD\<close>, \<open>IN_FIELD\<close>, \<open>IN_QUOTED_FIELD\<close>, \<open>QUOTE_IN_QUOTED_FIELD\<close>, and the
  line end \<open>\r\n\<close>), without the options the dialect leaves off.
\<close>

section \<open>The writer\<close>

definition csv_special :: "char \<Rightarrow> bool" where
  "csv_special c \<longleftrightarrow> c = CHR 0x2C \<or> c = CHR 0x22 \<or> c = CHR 0x0D \<or> c = CHR 0x0A"

definition csv_quote_body :: "string \<Rightarrow> string" where
  "csv_quote_body f = concat (map (\<lambda>c. if c = CHR 0x22 then [c, c] else [c]) f)"

definition csv_field :: "string \<Rightarrow> string" where
  "csv_field f = (if \<exists>c \<in> set f. csv_special c then CHR 0x22 # csv_quote_body f @ [CHR 0x22] else f)"

fun csv_join :: "string list \<Rightarrow> string" where
  "csv_join [] = []"
| "csv_join [f] = csv_field f"
| "csv_join (f # g # fs) = csv_field f @ CHR 0x2C # csv_join (g # fs)"

definition csv_writerow :: "string list \<Rightarrow> string" where
  "csv_writerow fs = (if fs = [[]] then [CHR 0x22, CHR 0x22] else csv_join fs) @ [CHR 0x0D, CHR 0x0A]"

definition csv_write :: "string list list \<Rightarrow> string" where
  "csv_write rows = concat (map csv_writerow rows)"

section \<open>The reader\<close>

datatype csv_state = StartRecord | AfterCR | StartField | InField | InQuoted | QuoteInQuoted

text \<open>One character in \<open>START_FIELD\<close>: the state, the field being read, the fields of the
  record so far, and the record completed by this character, if any.\<close>

definition csv_start_field :: "string list \<Rightarrow> char \<Rightarrow> csv_state \<times> string \<times> string list \<times> string list option" where
  "csv_start_field fs c =
     (if c = CHR 0x22 then (InQuoted, [], fs, None)
      else if c = CHR 0x2C then (StartField, [], fs @ [[]], None)
      else if c = CHR 0x0D then (AfterCR, [], [], Some (fs @ [[]]))
      else if c = CHR 0x0A then (StartRecord, [], [], Some (fs @ [[]]))
      else (InField, [c], fs, None))"

definition csv_start_record :: "string list \<Rightarrow> char \<Rightarrow> csv_state \<times> string \<times> string list \<times> string list option" where
  "csv_start_record fs c =
     (if c = CHR 0x0D then (AfterCR, [], [], Some [])
      else if c = CHR 0x0A then (StartRecord, [], [], Some [])
      else csv_start_field fs c)"

definition csv_end_field :: "string \<Rightarrow> string list \<Rightarrow> char \<Rightarrow> csv_state \<times> string \<times> string list \<times> string list option" where
  "csv_end_field fld fs c =
     (if c = CHR 0x2C then (StartField, [], fs @ [fld], None)
      else if c = CHR 0x0D then (AfterCR, [], [], Some (fs @ [fld]))
      else (StartRecord, [], [], Some (fs @ [fld])))"

fun csv_step :: "csv_state \<Rightarrow> string \<Rightarrow> string list \<Rightarrow> char \<Rightarrow> csv_state \<times> string \<times> string list \<times> string list option" where
  "csv_step StartRecord fld fs c = csv_start_record fs c"
| "csv_step AfterCR fld fs c = (if c = CHR 0x0A then (StartRecord, [], [], None) else csv_start_record fs c)"
| "csv_step StartField fld fs c = csv_start_field fs c"
| "csv_step InField fld fs c =
     (if c = CHR 0x2C \<or> c = CHR 0x0D \<or> c = CHR 0x0A then csv_end_field fld fs c else (InField, fld @ [c], fs, None))"
| "csv_step InQuoted fld fs c =
     (if c = CHR 0x22 then (QuoteInQuoted, fld, fs, None) else (InQuoted, fld @ [c], fs, None))"
| "csv_step QuoteInQuoted fld fs c =
     (if c = CHR 0x22 then (InQuoted, fld @ [c], fs, None)
      else if c = CHR 0x2C \<or> c = CHR 0x0D \<or> c = CHR 0x0A then csv_end_field fld fs c
      else (InField, fld @ [c], fs, None))"

text \<open>End of input: a record in progress is completed.\<close>

definition csv_eof :: "csv_state \<Rightarrow> string \<Rightarrow> string list \<Rightarrow> string list list" where
  "csv_eof st fld fs = (if st = StartRecord \<or> st = AfterCR then [] else [fs @ [fld]])"

fun csv_scan :: "csv_state \<Rightarrow> string \<Rightarrow> string list \<Rightarrow> string \<Rightarrow> string list list" where
  "csv_scan st fld fs [] = csv_eof st fld fs"
| "csv_scan st fld fs (c # cs) =
     (case csv_step st fld fs c of
        (st', fld', fs', out) \<Rightarrow> (case out of None \<Rightarrow> [] | Some r \<Rightarrow> [r]) @ csv_scan st' fld' fs' cs)"

definition csv_read :: "string \<Rightarrow> string list list" where
  "csv_read s = csv_scan StartRecord [] [] s"

section \<open>Reading back what the writer wrote\<close>

lemma csv_scan_quoted:
  "csv_scan InQuoted acc fs (csv_quote_body f @ CHR 0x22 # r) = csv_scan QuoteInQuoted (acc @ f) fs r"
proof (induction f arbitrary: acc)
  case Nil
  then show ?case by (simp add: csv_quote_body_def)
next
  case (Cons c f)
  then show ?case by (simp add: csv_quote_body_def)
qed

lemma csv_scan_plain:
  "\<forall>c \<in> set f. \<not> csv_special c \<Longrightarrow> csv_scan InField acc fs (f @ r) = csv_scan InField (acc @ f) fs r"
  by (induction f arbitrary: acc) (auto simp: csv_special_def)

lemma csv_scan_field:
  assumes "c = CHR 0x2C \<or> c = CHR 0x0D"
  shows "csv_scan StartField [] fs (csv_field f @ c # r) =
           (case csv_end_field f fs c of
              (st', fld', fs', out) \<Rightarrow> (case out of None \<Rightarrow> [] | Some x \<Rightarrow> [x]) @ csv_scan st' fld' fs' r)"
proof (cases "\<exists>c \<in> set f. csv_special c")
  case True
  then have "csv_scan StartField [] fs (csv_field f @ c # r) = csv_scan InQuoted [] fs (csv_quote_body f @ CHR 0x22 # c # r)"
    by (simp add: csv_field_def csv_start_field_def)
  also have "\<dots> = csv_scan QuoteInQuoted f fs (c # r)"
    by (simp add: csv_scan_quoted)
  finally show ?thesis using assms by auto
next
  case False
  show ?thesis
  proof (cases f)
    case Nil
    then show ?thesis using assms by (auto simp: csv_field_def csv_start_field_def csv_end_field_def)
  next
    case (Cons x f')
    with False have x: "\<not> csv_special x" and f': "\<forall>c \<in> set f'. \<not> csv_special c" by auto
    from False Cons have "csv_scan StartField [] fs (csv_field f @ c # r) = csv_scan InField [x] fs (f' @ c # r)"
      using x by (simp add: csv_field_def csv_start_field_def csv_special_def)
    also have "\<dots> = csv_scan InField f fs (c # r)"
      using csv_scan_plain [OF f'] Cons by simp
    finally show ?thesis using assms by auto
  qed
qed


lemma csv_scan_join:
  "fs \<noteq> [] \<Longrightarrow>
     csv_scan StartField [] acc (csv_join fs @ CHR 0x0D # CHR 0x0A # r) = (acc @ fs) # csv_scan StartRecord [] [] r"
proof (induction fs arbitrary: acc rule: csv_join.induct)
  case 1
  then show ?case by simp
next
  case (2 f)
  have "csv_scan StartField [] acc (csv_field f @ CHR 0x0D # CHR 0x0A # r) =
        [acc @ [f]] @ csv_scan AfterCR [] [] (CHR 0x0A # r)"
    using csv_scan_field [of "CHR 0x0D" acc f "CHR 0x0A # r"] by (simp add: csv_end_field_def)
  then show ?case by simp
next
  case (3 f g fs)
  have "csv_scan StartField [] acc (csv_join (f # g # fs) @ CHR 0x0D # CHR 0x0A # r) =
        csv_scan StartField [] (acc @ [f]) (csv_join (g # fs) @ CHR 0x0D # CHR 0x0A # r)"
    using csv_scan_field [of "CHR 0x2C" acc f "csv_join (g # fs) @ CHR 0x0D # CHR 0x0A # r"]
    by (simp add: csv_end_field_def)
  then show ?case using "3.IH" [of "acc @ [f]"] by simp
qed

lemma csv_join_first:
  assumes "fs \<noteq> []" and "fs \<noteq> [[]]"
  shows "\<exists>c s. csv_join fs = c # s \<and> c \<noteq> CHR 0x0D \<and> c \<noteq> CHR 0x0A"
proof -
  obtain f gs where fs: "fs = f # gs" using assms(1) by (cases fs) auto
  show ?thesis
  proof (cases "\<exists>c \<in> set f. csv_special c")
    case True
    then have "csv_field f = CHR 0x22 # csv_quote_body f @ [CHR 0x22]" by (simp add: csv_field_def)
    then show ?thesis using fs by (cases gs) auto
  next
    case False
    show ?thesis
    proof (cases f)
      case Nil
      with fs assms(2) obtain g hs where "gs = g # hs" by (cases gs) auto
      then show ?thesis using fs Nil by (simp add: csv_field_def)
    next
      case (Cons x f')
      with False have "csv_field f = x # f'" "\<not> csv_special x" by (auto simp: csv_field_def)
      then show ?thesis using fs by (cases gs) (auto simp: csv_special_def)
    qed
  qed
qed

lemma csv_scan_start_record:
  "c \<noteq> CHR 0x0D \<Longrightarrow> c \<noteq> CHR 0x0A \<Longrightarrow> csv_scan StartRecord fld fs (c # s) = csv_scan StartField fld fs (c # s)"
  by (simp add: csv_start_record_def)

lemma csv_scan_writerow:
  "csv_scan StartRecord [] [] (csv_writerow fs @ r) = fs # csv_scan StartRecord [] [] r"
proof -
  consider "fs = []" | "fs = [[]]" | "fs \<noteq> []" "fs \<noteq> [[]]" by blast
  then show ?thesis
  proof cases
    case 1
    then show ?thesis by (simp add: csv_writerow_def csv_start_record_def)
  next
    case 2
    then show ?thesis
      by (simp add: csv_writerow_def csv_start_record_def csv_start_field_def csv_end_field_def)
  next
    case 3
    then obtain c s where j: "csv_join fs = c # s" and c: "c \<noteq> CHR 0x0D" "c \<noteq> CHR 0x0A"
      using csv_join_first by blast
    have "csv_scan StartRecord [] [] (csv_writerow fs @ r) =
          csv_scan StartField [] [] (csv_join fs @ CHR 0x0D # CHR 0x0A # r)"
      using 3 j csv_scan_start_record [OF c, of "[]" "[]" "s @ CHR 0x0D # CHR 0x0A # r"]
      by (simp add: csv_writerow_def)
    then show ?thesis using csv_scan_join [OF 3(1), of "[]" r] by simp
  qed
qed

theorem csv_read_write: "csv_read (csv_write rows) = rows"
proof -
  have "csv_scan StartRecord [] [] (csv_write rows) = rows"
  proof (induction rows)
    case Nil
    then show ?case by (simp add: csv_write_def csv_eof_def)
  next
    case (Cons fs rows)
    then show ?case using csv_scan_writerow [of fs "csv_write rows"] by (simp add: csv_write_def)
  qed
  then show ?thesis by (simp add: csv_read_def)
qed

end
