(* ===== verification/Export.thy ===== *)
theory Export
  imports Graph Csv
begin

text \<open>
  Export A: \<open>search_social_network\<close> writes the traversal rows to
  \<open>static/social_network.csv\<close> (lines 246--251 of \<open>src/main.py\<close>): a header row, then one
  record per row of the result, \<open>[via_name_chn, person_name_chn, assoc_desc_chn]\<close>, in the
  order of the result and without deduplication. The records are the lists handed to
  \<open>csv.writer.writerow\<close> (Python's \<open>csv\<close> module writes \<open>None\<close> as the empty string), and
  the file is their encoding by the writer of \<open>Csv\<close>.
\<close>

section \<open>The CSV records\<close>

definition csv_cell :: "sql_text \<Rightarrow> string" where
  "csv_cell t = (case t of None \<Rightarrow> [] | Some s \<Rightarrow> s)"

definition csv_header :: "string list" where
  "csv_header = [''source'', ''target'', ''assoc_desc_chn'']"

definition csv_record :: "net_row \<Rightarrow> string list" where
  "csv_record row = [csv_cell (via_name_chn row), csv_cell (person_name_chn row), csv_cell (assoc_desc_chn row)]"

definition social_network_csv :: "net_row list \<Rightarrow> string list list" where
  "social_network_csv rows = csv_header # map csv_record rows"

text \<open>The text of \<open>static/social_network.csv\<close>: the records through \<open>csv.writer\<close>.\<close>

definition social_network_csv_file :: "net_row list \<Rightarrow> string" where
  "social_network_csv_file rows = csv_write (social_network_csv rows)"

section \<open>Properties of the export\<close>

text \<open>Export A has exactly one record per input row after its header, in input
  order, duplicates included (spec section 8, item 6), and every record has three fields.\<close>

theorem social_network_csv_rows:
  "length (social_network_csv rows) = Suc (length rows) \<and>
   (\<forall>i < length rows. social_network_csv rows ! Suc i =
      [csv_cell (via_name_chn (rows ! i)), csv_cell (person_name_chn (rows ! i)),
       csv_cell (assoc_desc_chn (rows ! i))]) \<and>
   (\<forall>rec \<in> set (social_network_csv rows). length rec = 3)"
  by (auto simp: social_network_csv_def csv_record_def csv_header_def)

theorem social_network_csv_rows_witness:
  "length (social_network_csv demo_rows) = 11 \<and>
   social_network_csv demo_rows ! 1 = [[], ''A'', ''friend'']"
proof -
  have "length demo_rows = 10" by code_simp
  moreover have "[csv_cell (via_name_chn (demo_rows ! 0)), csv_cell (person_name_chn (demo_rows ! 0)),
      csv_cell (assoc_desc_chn (demo_rows ! 0))] = [[], ''A'', ''friend'']"
    by code_simp
  ultimately show ?thesis using social_network_csv_rows [of demo_rows] by auto
qed

text \<open>The file Export A writes reads back, with Python's \<open>csv\<close> reader, as the
  header and then exactly the record of each row, whatever characters (commas, quotes,
  line breaks) the names and descriptions contain: the export loses nothing.\<close>

theorem social_network_csv_roundtrip:
  "csv_read (social_network_csv_file rows) = csv_header # map csv_record rows"
  by (simp add: social_network_csv_file_def social_network_csv_def csv_read_write)

end
