(* ===== verification/Pyvis.thy ===== *)
theory Pyvis
  imports Graph
begin

text \<open>
  Export B: \<open>search_social_network\<close> hands the assembled \<open>DiGraph\<close> to pyvis (lines
  271--284 of \<open>src/main.py\<close>): \<open>nt = Network('600px', '1300px', notebook=True)\<close>, then
  \<open>nt.from_nx(G)\<close>, then \<open>nt.save_graph(...)\<close>, which renders \<open>nt.nodes\<close> and \<open>nt.edges\<close>
  into \<open>static/network.html\<close>. pyvis is a library the code calls; its \<open>Network\<close> is
  modelled as the two lists it keeps (node option dictionaries and edge option
  dictionaries, in insertion order) and its \<open>directed\<close> flag, with \<open>add_node\<close>,
  \<open>add_edge\<close> and \<open>from_nx\<close> as pyvis 0.3 defines them. The code does not pass
  \<open>directed\<close>, so the network is undirected: \<open>add_edge\<close> then skips an edge whose
  reverse (or itself) is already present. The assertions of \<open>add_edge\<close> (both ends
  must be nodes) and the lookups \<open>nodes[u]\<close> of \<open>from_nx\<close> are the error paths
  (\<open>None\<close>); the rendering to HTML and the display options (\<open>show_buttons\<close>, colours,
  shapes, \<open>font_color\<close>) are not modelled.
\<close>

section \<open>pyvis networks\<close>

record pv_node =
  pvn_id :: person_id
  pvn_label :: pyval
  pvn_options :: attrs

record pv_edge =
  pve_from :: person_id
  pve_to :: person_id
  pve_options :: attrs

record pv_network =
  pv_directed :: bool
  pv_nodes :: "pv_node list"
  pv_edges :: "pv_edge list"

text \<open>\<open>Network(height, width, directed=directed, notebook=...)\<close>: no node, no edge.\<close>

definition pv_network_init :: "bool \<Rightarrow> pv_network" where
  "pv_network_init directed = \<lparr>pv_directed = directed, pv_nodes = [], pv_edges = []\<rparr>"

text \<open>Python's truth test on an attribute value.\<close>

definition py_truthy :: "pyval \<Rightarrow> bool" where
  "py_truthy v = (case v of PyNone \<Rightarrow> False | PyStr s \<Rightarrow> s \<noteq> [] | PyInt i \<Rightarrow> i \<noteq> 0)"

text \<open>\<open>self.node_ids\<close>.\<close>

definition pv_node_ids :: "pv_network \<Rightarrow> person_id list" where
  "pv_node_ids N = map pvn_id (pv_nodes N)"

text \<open>\<open>if label: node_label = label else: node_label = n_id\<close> in \<open>add_node\<close>: the
  \<open>label\<close> argument when it is given and truthy, the id otherwise.\<close>

definition pv_node_label :: "person_id \<Rightarrow> attrs \<Rightarrow> pyval" where
  "pv_node_label n attr =
     (case map_of attr ''label'' of
        None \<Rightarrow> PyInt n
      | Some l \<Rightarrow> if py_truthy l then l else PyInt n)"

text \<open>\<open>add_node(n_id, label=None, **options)\<close>: the node gets the label above and the
  other attributes as its options; a node whose id is present is left as it is.\<close>

definition pv_add_node :: "person_id \<Rightarrow> attrs \<Rightarrow> pv_network \<Rightarrow> pv_network" where
  "pv_add_node n attr N =
     (let label = pv_node_label n attr;
          options = filter (\<lambda>(k, v). k \<noteq> ''label'') attr
      in if n \<in> set (pv_node_ids N) then N
         else N\<lparr>pv_nodes := pv_nodes N @ [\<lparr>pvn_id = n, pvn_label = label, pvn_options = options\<rparr>]\<rparr>)"

text \<open>The loop of \<open>add_edge\<close> over \<open>self.edges\<close> that looks for the edge or its
  reverse.\<close>

definition pv_edge_exists :: "pv_network \<Rightarrow> person_id \<Rightarrow> person_id \<Rightarrow> bool" where
  "pv_edge_exists N source to =
     list_ex (\<lambda>e. (source = pve_to e \<and> to = pve_from e) \<or> (source = pve_from e \<and> to = pve_to e))
       (pv_edges N)"

text \<open>\<open>add_edge(source, to, **options)\<close>: the two assertions that both ends are nodes
  (an \<open>AssertionError\<close> is \<open>None\<close>), then, in an undirected network, nothing when the
  edge or its reverse exists.\<close>

definition pv_add_edge :: "person_id \<Rightarrow> person_id \<Rightarrow> attrs \<Rightarrow> pv_network \<Rightarrow> pv_network option" where
  "pv_add_edge source to options N =
     (if source \<in> set (pv_node_ids N) \<and> to \<in> set (pv_node_ids N)
      then (if \<not> pv_directed N \<and> pv_edge_exists N source to then Some N
            else Some (N\<lparr>pv_edges := pv_edges N @ [\<lparr>pve_from = source, pve_to = to, pve_options = options\<rparr>]\<rparr>))
      else None)"

section \<open>from_nx\<close>

text \<open>The edges of a \<open>DiGraph\<close> as \<open>G.edges(data=True)\<close> yields them: source by source
  in node order, and the edges of one source in the order they were added.\<close>

definition nx_edges :: "nx_digraph \<Rightarrow> ((person_id \<times> person_id) \<times> attrs) list" where
  "nx_edges G = concat (map (\<lambda>n. filter (\<lambda>((u, v), d). u = n) (nx_adj G)) (map fst (nx_node G)))"

text \<open>\<open>nx.isolates(G)\<close>: the nodes of degree 0, in node order, with their data.\<close>

definition nx_isolated :: "nx_digraph \<Rightarrow> person_id \<Rightarrow> bool" where
  "nx_isolated G n = list_all (\<lambda>((u, v), d). u \<noteq> n \<and> v \<noteq> n) (nx_adj G)"

text \<open>The default node size that \<open>from_nx\<close> writes into a node's data before adding it
  (\<open>default_node_size = 10\<close>, \<open>node_size_transf\<close> the identity).\<close>

definition pv_sized :: "attrs \<Rightarrow> attrs" where
  "pv_sized d = AList.update ''size'' (case map_of d ''size'' of None \<Rightarrow> PyInt 10 | Some s \<Rightarrow> s) d"

text \<open>The edge options \<open>from_nx\<close> passes: unless both \<open>value\<close> and \<open>width\<close> are given,
  the \<open>weight\<close> (default 1) is moved to \<open>width\<close>.\<close>

definition pv_edge_options :: "attrs \<Rightarrow> attrs" where
  "pv_edge_options d =
     (if ''value'' \<in> fst ` set d \<and> ''width'' \<in> fst ` set d then d
      else AList.delete ''weight''
             (AList.update ''width'' (case map_of d ''weight'' of None \<Rightarrow> PyInt 1 | Some w \<Rightarrow> w) d))"

text \<open>One iteration of the edge loop of \<open>from_nx\<close>: both ends added (with their data
  looked up by \<open>nodes[e[0]]\<close>, a \<open>KeyError\<close> when missing), then the edge.\<close>

definition pv_from_nx_edge ::
  "nx_digraph \<Rightarrow> pv_network \<Rightarrow> (person_id \<times> person_id) \<times> attrs \<Rightarrow> pv_network option" where
  "pv_from_nx_edge G N ed =
     (case ed of ((u, v), d) \<Rightarrow>
        (case (map_of (nx_node G) u, map_of (nx_node G) v) of
           (Some du, Some dv) \<Rightarrow>
             pv_add_edge u v (pv_edge_options d) (pv_add_node v (pv_sized dv) (pv_add_node u (pv_sized du) N))
         | _ \<Rightarrow> None))"

fun pv_add_nx_edges ::
  "nx_digraph \<Rightarrow> ((person_id \<times> person_id) \<times> attrs) list \<Rightarrow> pv_network \<Rightarrow> pv_network option" where
  "pv_add_nx_edges G [] N = Some N"
| "pv_add_nx_edges G (ed # eds) N =
     (case pv_from_nx_edge G N ed of None \<Rightarrow> None | Some N' \<Rightarrow> pv_add_nx_edges G eds N')"

text \<open>\<open>nt.from_nx(G)\<close>: the edges, then the isolated nodes.\<close>

definition pv_from_nx :: "nx_digraph \<Rightarrow> pv_network \<Rightarrow> pv_network option" where
  "pv_from_nx G N =
     (case pv_add_nx_edges G (nx_edges G) N of
        None \<Rightarrow> None
      | Some N1 \<Rightarrow> Some (fold (\<lambda>(n, d) N. pv_add_node n (pv_sized d) N)
                              (filter (\<lambda>(n, d). nx_isolated G n) (nx_node G)) N1))"

text \<open>Lines 275 and 279: the network of the graph of the rows, as \<open>save_graph\<close> writes it.\<close>

definition network_html :: "net_row list \<Rightarrow> pv_network option" where
  "network_html rows = pv_from_nx (build_social_graph rows) (pv_network_init False)"

section \<open>What the network should hold\<close>

text \<open>An edge of an undirected network joins an unordered pair of nodes.\<close>

definition pv_pair :: "pv_edge \<Rightarrow> person_id set" where
  "pv_pair e = {pve_from e, pve_to e}"

definition pv_inv :: "pv_network \<Rightarrow> bool" where
  "pv_inv N \<longleftrightarrow> \<not> pv_directed N \<and> distinct (pv_node_ids N) \<and> distinct (map pv_pair (pv_edges N))"

text \<open>The label a node of the rows should show: the Chinese name of the first row
  whose person it is, when no earlier row reaches it as the via and the name is
  non-empty; its id otherwise (a via gets no \<open>label\<close> attribute).\<close>

fun row_label :: "net_row list \<Rightarrow> person_id \<Rightarrow> pyval" where
  "row_label [] n = PyInt n"
| "row_label (r # rs) n =
     (if person_id r = n
      then (case person_name_chn r of Some s \<Rightarrow> if s = [] then PyInt n else PyStr s | None \<Rightarrow> PyInt n)
      else if via_id r = Some n \<and> n \<noteq> 0 then PyInt n
      else row_label rs n)"

text \<open>Every node of the network carries the label that \<open>add_node\<close> computes from
  the data of the node of the same id in the graph.\<close>

definition pv_labels_from :: "nx_digraph \<Rightarrow> pv_network \<Rightarrow> bool" where
  "pv_labels_from G N \<longleftrightarrow>
     list_all (\<lambda>nd. map_option (pv_node_label (pvn_id nd)) (map_of (nx_node G) (pvn_id nd)) = Some (pvn_label nd))
       (pv_nodes N)"

section \<open>Lemmas on the pyvis operations\<close>

lemma pv_add_node_simps [simp]:
  "set (pv_node_ids (pv_add_node n a N)) = insert n (set (pv_node_ids N))"
  "pv_edges (pv_add_node n a N) = pv_edges N"
  "pv_directed (pv_add_node n a N) = pv_directed N"
  by (auto simp: pv_add_node_def pv_node_ids_def Let_def)

lemma pv_add_node_inv: "pv_inv N \<Longrightarrow> pv_inv (pv_add_node n a N)"
  by (auto simp: pv_inv_def pv_add_node_def pv_node_ids_def Let_def)

lemma pv_edge_exists_iff: "pv_edge_exists N u v \<longleftrightarrow> {u, v} \<in> pv_pair ` set (pv_edges N)"
  by (auto simp: pv_edge_exists_def list_ex_iff pv_pair_def doubleton_eq_iff)

lemma pv_add_edge_undirected:
  assumes "pv_inv N" and "u \<in> set (pv_node_ids N)" and "v \<in> set (pv_node_ids N)"
  shows "\<exists>N'. pv_add_edge u v a N = Some N' \<and> pv_inv N' \<and> pv_node_ids N' = pv_node_ids N \<and>
           pv_pair ` set (pv_edges N') = insert {u, v} (pv_pair ` set (pv_edges N))"
  using assms by (auto simp: pv_add_edge_def pv_inv_def pv_edge_exists_iff pv_node_ids_def pv_pair_def)

lemma pv_from_nx_edge_Some:
  assumes "pv_inv N" and "u \<in> fst ` set (nx_node G)" and "v \<in> fst ` set (nx_node G)"
  shows "\<exists>N'. pv_from_nx_edge G N ((u, v), d) = Some N' \<and> pv_inv N' \<and>
           set (pv_node_ids N') = insert u (insert v (set (pv_node_ids N))) \<and>
           pv_pair ` set (pv_edges N') = insert {u, v} (pv_pair ` set (pv_edges N))"
proof -
  have "map_of (nx_node G) u \<noteq> None" "map_of (nx_node G) v \<noteq> None"
    using assms(2,3) by (simp_all add: map_of_eq_None_iff)
  then obtain du dv where du: "map_of (nx_node G) u = Some du" and dv: "map_of (nx_node G) v = Some dv"
    by blast
  let ?N2 = "pv_add_node v (pv_sized dv) (pv_add_node u (pv_sized du) N)"
  have inv: "pv_inv ?N2" using assms(1) by (simp add: pv_add_node_inv)
  have u: "u \<in> set (pv_node_ids ?N2)" and v: "v \<in> set (pv_node_ids ?N2)" by simp_all
  obtain N' where N': "pv_add_edge u v (pv_edge_options d) ?N2 = Some N'" "pv_inv N'"
    "pv_node_ids N' = pv_node_ids ?N2"
    "pv_pair ` set (pv_edges N') = insert {u, v} (pv_pair ` set (pv_edges ?N2))"
    using pv_add_edge_undirected [OF inv u v, of "pv_edge_options d"] by blast
  have "pv_from_nx_edge G N ((u, v), d) = Some N'"
    using du dv N'(1) by (simp add: pv_from_nx_edge_def)
  moreover have "set (pv_node_ids N') = insert u (insert v (set (pv_node_ids N)))"
    using N'(3) by auto
  moreover have "pv_pair ` set (pv_edges N') = insert {u, v} (pv_pair ` set (pv_edges N))"
    using N'(4) by simp
  ultimately show ?thesis using N'(2) by blast
qed
lemma pv_add_nx_edges_Some:
  assumes "pv_inv N" and "fst ` fst ` set eds \<union> snd ` fst ` set eds \<subseteq> fst ` set (nx_node G)"
  shows "\<exists>N'. pv_add_nx_edges G eds N = Some N' \<and> pv_inv N' \<and>
           set (pv_node_ids N') = set (pv_node_ids N) \<union> fst ` fst ` set eds \<union> snd ` fst ` set eds \<and>
           pv_pair ` set (pv_edges N') = pv_pair ` set (pv_edges N) \<union> (\<lambda>(u, v). {u, v}) ` fst ` set eds"
  using assms
proof (induction eds arbitrary: N)
  case Nil
  then show ?case by simp
next
  case (Cons ed eds)
  obtain u v d where ed: "ed = ((u, v), d)" by (metis prod.collapse)
  have uv: "u \<in> fst ` set (nx_node G)" "v \<in> fst ` set (nx_node G)"
    using Cons.prems(2) unfolding ed by simp_all
  obtain N1 where N1: "pv_from_nx_edge G N ((u, v), d) = Some N1" "pv_inv N1"
    "set (pv_node_ids N1) = insert u (insert v (set (pv_node_ids N)))"
    "pv_pair ` set (pv_edges N1) = insert {u, v} (pv_pair ` set (pv_edges N))"
    using pv_from_nx_edge_Some [OF Cons.prems(1) uv, of d] by (elim exE conjE) (rule that; assumption)
  have sub: "fst ` fst ` set eds \<union> snd ` fst ` set eds \<subseteq> fst ` set (nx_node G)"
    using Cons.prems(2) by simp
  obtain N' where N': "pv_add_nx_edges G eds N1 = Some N'" "pv_inv N'"
    "set (pv_node_ids N') = set (pv_node_ids N1) \<union> fst ` fst ` set eds \<union> snd ` fst ` set eds"
    "pv_pair ` set (pv_edges N') = pv_pair ` set (pv_edges N1) \<union> (\<lambda>(u, v). {u, v}) ` fst ` set eds"
    using Cons.IH [OF N1(2) sub] by (elim exE conjE) (rule that; assumption)
  have "pv_add_nx_edges G (ed # eds) N = Some N'" using N1(1) N'(1) unfolding ed by simp
  moreover have "set (pv_node_ids N') =
      set (pv_node_ids N) \<union> fst ` fst ` set (ed # eds) \<union> snd ` fst ` set (ed # eds)"
    using N'(3) N1(3) unfolding ed by (simp add: insert_commute)
  moreover have "pv_pair ` set (pv_edges N') =
      pv_pair ` set (pv_edges N) \<union> (\<lambda>(u, v). {u, v}) ` fst ` set (ed # eds)"
    using N'(4) N1(4) unfolding ed by simp
  ultimately show ?case using N'(2) by blast
qed

lemma pv_add_isolates:
  assumes "pv_inv N"
  shows "pv_inv (fold (\<lambda>(n, d) N. pv_add_node n (pv_sized d) N) xs N) \<and>
    set (pv_node_ids (fold (\<lambda>(n, d) N. pv_add_node n (pv_sized d) N) xs N)) = set (pv_node_ids N) \<union> fst ` set xs \<and>
    pv_edges (fold (\<lambda>(n, d) N. pv_add_node n (pv_sized d) N) xs N) = pv_edges N"
  using assms
proof (induction xs arbitrary: N)
  case Nil
  then show ?case by simp
next
  case (Cons x xs)
  obtain n d where x: "x = (n, d)" by fastforce
  have "pv_inv (pv_add_node n (pv_sized d) N)" using Cons.prems by (rule pv_add_node_inv)
  from Cons.IH [OF this] show ?case unfolding x by (simp add: insert_commute)
qed

section \<open>from_nx on a well-formed graph\<close>

lemma nx_edges_keys:
  assumes "nx_wf G"
  shows "fst ` set (nx_edges G) = fst ` set (nx_adj G)"
proof -
  have "set (nx_edges G) = {x \<in> set (nx_adj G). fst (fst x) \<in> fst ` set (nx_node G)}"
    by (auto simp: nx_edges_def split_def)
  also have "\<dots> = set (nx_adj G)"
    using assms by (auto simp: nx_wf_def)
  finally show ?thesis by simp
qed

lemma nx_isolates_cover:
  assumes "nx_wf G"
  shows "fst ` fst ` set (nx_adj G) \<union> snd ` fst ` set (nx_adj G) \<union>
           fst ` set (filter (\<lambda>(n, d). nx_isolated G n) (nx_node G)) = fst ` set (nx_node G)"
    (is "?A \<union> ?B \<union> ?I = ?N")
proof (rule subset_antisym)
  have "\<forall>e \<in> set (nx_adj G). fst (fst e) \<in> ?N \<and> snd (fst e) \<in> ?N"
    using assms by (simp add: nx_wf_def)
  then have "?A \<union> ?B \<subseteq> ?N"
    unfolding Un_subset_iff image_subset_iff image_image by blast
  moreover have "?I \<subseteq> ?N" by (rule image_mono) auto
  ultimately show "?A \<union> ?B \<union> ?I \<subseteq> ?N" by (rule Un_least)
next
  show "?N \<subseteq> ?A \<union> ?B \<union> ?I"
  proof
    fix n assume "n \<in> ?N"
    then obtain d where nd: "(n, d) \<in> set (nx_node G)" by force
    show "n \<in> ?A \<union> ?B \<union> ?I"
    proof (cases "nx_isolated G n")
      case True
      with nd have "(n, d) \<in> set (filter (\<lambda>(n, d). nx_isolated G n) (nx_node G))" by simp
      then show ?thesis by (metis UnI2 fst_conv image_eqI)
    next
      case False
      then obtain u v d' where e: "((u, v), d') \<in> set (nx_adj G)" and "u = n \<or> v = n"
        by (auto simp: nx_isolated_def list_all_iff)
      then show ?thesis by (metis UnI1 UnI2 fst_conv snd_conv image_eqI)
    qed
  qed
qed

lemma pv_network_init_inv: "pv_inv (pv_network_init False)"
  by (simp add: pv_inv_def pv_network_init_def pv_node_ids_def)

lemma pv_from_nx_wf:
  assumes "nx_wf G"
  shows "\<exists>nt. pv_from_nx G (pv_network_init False) = Some nt \<and> pv_inv nt \<and>
           set (pv_node_ids nt) = fst ` set (nx_node G) \<and>
           pv_pair ` set (pv_edges nt) = (\<lambda>(u, v). {u, v}) ` fst ` set (nx_adj G)"
proof -
  let ?N0 = "pv_network_init False"
  let ?iso = "filter (\<lambda>(n, d). nx_isolated G n) (nx_node G)"
  have keys: "fst ` set (nx_edges G) = fst ` set (nx_adj G)" using assms by (rule nx_edges_keys)
  have sub: "fst ` fst ` set (nx_edges G) \<union> snd ` fst ` set (nx_edges G) \<subseteq> fst ` set (nx_node G)"
    using nx_isolates_cover [OF assms] unfolding keys by blast
  obtain N1 where N1: "pv_add_nx_edges G (nx_edges G) ?N0 = Some N1" "pv_inv N1"
    "set (pv_node_ids N1) = set (pv_node_ids ?N0) \<union> fst ` fst ` set (nx_edges G) \<union> snd ` fst ` set (nx_edges G)"
    "pv_pair ` set (pv_edges N1) = pv_pair ` set (pv_edges ?N0) \<union> (\<lambda>(u, v). {u, v}) ` fst ` set (nx_edges G)"
    using pv_add_nx_edges_Some [OF pv_network_init_inv sub] by (elim exE conjE) (rule that; assumption)
  let ?nt = "fold (\<lambda>(n, d) N. pv_add_node n (pv_sized d) N) ?iso N1"
  have nt: "pv_inv ?nt" "set (pv_node_ids ?nt) = set (pv_node_ids N1) \<union> fst ` set ?iso"
    "pv_edges ?nt = pv_edges N1"
    using pv_add_isolates [OF N1(2), of ?iso] by simp_all
  have "pv_from_nx G ?N0 = Some ?nt" using N1(1) by (simp add: pv_from_nx_def)
  moreover have "set (pv_node_ids ?nt) = fst ` set (nx_node G)"
    using nt(2) N1(3) nx_isolates_cover [OF assms] unfolding keys
    by (simp add: pv_network_init_def pv_node_ids_def)
  moreover have "pv_pair ` set (pv_edges ?nt) = (\<lambda>(u, v). {u, v}) ` fst ` set (nx_adj G)"
    using nt(3) N1(4) unfolding keys by (simp add: pv_network_init_def)
  ultimately show ?thesis using nt(1) by blast
qed


lemma network_html_graph_wf: "nx_wf (build_social_graph rows)"
  unfolding build_social_graph_def by (rule fold_add_rows_wf [OF nx_wf_empty])

lemma network_html_Some: "\<exists>nt. network_html rows = Some nt"
proof -
  obtain nt where "pv_from_nx (build_social_graph rows) (pv_network_init False) = Some nt"
    using pv_from_nx_wf [OF network_html_graph_wf [of rows]] by (elim exE conjE) (rule that)
  then show ?thesis by (simp add: network_html_def)
qed

section \<open>Labels\<close>

lemma pv_node_label_map_of: "map_of a = map_of b \<Longrightarrow> pv_node_label n a = pv_node_label n b"
  by (simp add: pv_node_label_def)

lemma pv_node_label_sized [simp]: "pv_node_label n (pv_sized d) = pv_node_label n d"
  by (simp add: pv_node_label_def pv_sized_def update_conv')

lemma pv_add_node_labels:
  "pv_labels_from G N \<Longrightarrow> map_of (nx_node G) n = Some d \<Longrightarrow> pv_labels_from G (pv_add_node n (pv_sized d) N)"
  by (auto simp: pv_labels_from_def pv_add_node_def Let_def)

lemma pv_add_edge_nodes: "pv_add_edge u v a N = Some N' \<Longrightarrow> pv_nodes N' = pv_nodes N"
  by (auto simp: pv_add_edge_def split: if_splits)

lemma pv_from_nx_edge_labels:
  assumes "pv_from_nx_edge G N ed = Some N'" and "pv_labels_from G N"
  shows "pv_labels_from G N'"
proof -
  obtain u v d where ed: "ed = ((u, v), d)" by (metis prod.collapse)
  obtain du dv where du: "map_of (nx_node G) u = Some du" and dv: "map_of (nx_node G) v = Some dv"
    and e: "pv_add_edge u v (pv_edge_options d) (pv_add_node v (pv_sized dv) (pv_add_node u (pv_sized du) N)) = Some N'"
    using assms(1) unfolding ed by (auto simp: pv_from_nx_edge_def split: option.splits)
  have "pv_labels_from G (pv_add_node v (pv_sized dv) (pv_add_node u (pv_sized du) N))"
    using assms(2) du dv by (simp add: pv_add_node_labels)
  then show ?thesis using pv_add_edge_nodes [OF e] by (simp add: pv_labels_from_def)
qed

lemma pv_add_nx_edges_labels:
  "pv_add_nx_edges G eds N = Some N' \<Longrightarrow> pv_labels_from G N \<Longrightarrow> pv_labels_from G N'"
proof (induction eds arbitrary: N)
  case Nil
  then show ?case by simp
next
  case (Cons ed eds)
  then obtain N1 where "pv_from_nx_edge G N ed = Some N1" and "pv_add_nx_edges G eds N1 = Some N'"
    by (auto split: option.splits)
  with Cons.prems(2) show ?case using Cons.IH pv_from_nx_edge_labels by blast
qed

lemma pv_add_isolates_labels:
  assumes "set xs \<subseteq> set (nx_node G)" and "distinct (map fst (nx_node G))" and "pv_labels_from G N"
  shows "pv_labels_from G (fold (\<lambda>(n, d) N. pv_add_node n (pv_sized d) N) xs N)"
  using assms(1,3)
proof (induction xs arbitrary: N)
  case Nil
  then show ?case by simp
next
  case (Cons x xs)
  obtain n d where x: "x = (n, d)" by fastforce
  have "map_of (nx_node G) n = Some d"
    using Cons.prems(1) assms(2) unfolding x by (simp add: map_of_is_SomeI)
  then have "pv_labels_from G (pv_add_node n (pv_sized d) N)"
    using Cons.prems(2) by (rule pv_add_node_labels [rotated])
  with Cons.IH Cons.prems(1) show ?case unfolding x by simp
qed

lemma pv_from_nx_labels:
  assumes "nx_wf G" and "pv_from_nx G N = Some nt" and "pv_labels_from G N"
  shows "pv_labels_from G nt"
proof -
  obtain N1 where N1: "pv_add_nx_edges G (nx_edges G) N = Some N1"
    and nt: "nt = fold (\<lambda>(n, d) N. pv_add_node n (pv_sized d) N) (filter (\<lambda>(n, d). nx_isolated G n) (nx_node G)) N1"
    using assms(2) by (auto simp: pv_from_nx_def split: option.splits)
  have "pv_labels_from G N1" using pv_add_nx_edges_labels [OF N1 assms(3)] .
  moreover have "distinct (map fst (nx_node G))" using assms(1) by (simp add: nx_wf_def)
  ultimately show ?thesis unfolding nt by (intro pv_add_isolates_labels) auto
qed

lemma row_label_first: "first_node_attrs rows n = Some a \<Longrightarrow> pv_node_label n a = row_label rows n"
  by (induction rows)
    (auto simp: pv_node_label_def person_attrs_def via_attrs_def py_text_def py_truthy_def py_truthy_int_def
      split: if_splits option.splits)

lemma build_social_graph_label:
  assumes "map_of (nx_node (build_social_graph rows)) n = Some d"
  shows "pv_node_label n d = row_label rows n"
proof -
  have "map_option map_of (map_of (nx_node (build_social_graph rows)) n) = map_option map_of (first_node_attrs rows n)"
    using fold_add_rows_node_map [of rows nx_empty n] by (simp add: build_social_graph_def nx_empty_def)
  with assms obtain a where a: "first_node_attrs rows n = Some a" "map_of a = map_of d"
    by (cases "first_node_attrs rows n") auto
  then show ?thesis using row_label_first [OF a(1)] pv_node_label_map_of [OF a(2)] by simp
qed

text \<open>On the traversal of the demo store from person 1, the graph has the two edges
  1 to 2 and 2 to 1; the network keeps only the first (with its distance 5), so Export B
  shows three edges where the graph has four.\<close>

lemma network_html_demo:
  "length (nx_adj (build_social_graph demo_rows)) = 4 \<and>
   map (\<lambda>e. (pve_from e, pve_to e)) (pv_edges (the (network_html demo_rows))) = [(1, 2), (2, 3), (3, 4)] \<and>
   map_of (pve_options (hd (pv_edges (the (network_html demo_rows))))) ''distance'' = Some (PyInt 5)"
  by code_simp

section \<open>Properties of Export B\<close>

text \<open>C10: the network Export B renders is built without error from the graph of any
  rows; it is undirected; its nodes are the graph's nodes, each once; and its edges are
  the graph's edges taken as unordered pairs, each pair once: of two opposite edges of
  the graph (a cycle of two persons), only the first is drawn.\<close>

theorem network_html_content:
  "\<exists>nt. network_html rows = Some nt \<and> \<not> pv_directed nt \<and>
     set (pv_node_ids nt) = row_node_ids rows \<and> distinct (pv_node_ids nt) \<and>
     pv_pair ` set (pv_edges nt) = (\<lambda>(u, v). {u, v}) ` row_edge_keys rows \<and>
     distinct (map pv_pair (pv_edges nt))"
proof -
  obtain nt where nt: "pv_from_nx (build_social_graph rows) (pv_network_init False) = Some nt"
    "pv_inv nt" "set (pv_node_ids nt) = fst ` set (nx_node (build_social_graph rows))"
    "pv_pair ` set (pv_edges nt) = (\<lambda>(u, v). {u, v}) ` fst ` set (nx_adj (build_social_graph rows))"
    using pv_from_nx_wf [OF network_html_graph_wf [of rows]] by (elim exE conjE) (rule that; assumption)
  have "fst ` set (nx_node (build_social_graph rows)) = row_node_ids rows"
    "fst ` set (nx_adj (build_social_graph rows)) = row_edge_keys rows"
    using fold_add_rows_keys [of rows nx_empty] by (simp_all add: build_social_graph_def nx_empty_def)
  then show ?thesis using nt by (simp add: network_html_def pv_inv_def)
qed


text \<open>C8: every node of the network Export B renders shows the label the rows give
  it: the non-empty Chinese name of the first row whose person it is, when no earlier
  row reaches it as the via, and otherwise its id (\<open>add_node\<close> falls back to the
  id for a missing, \<open>None\<close> or empty label).\<close>

theorem network_html_labels:
  "\<exists>nt. network_html rows = Some nt \<and> map pvn_label (pv_nodes nt) = map (row_label rows) (pv_node_ids nt)"
proof -
  obtain nt where nt: "network_html rows = Some nt" using network_html_Some by blast
  have "pv_labels_from (build_social_graph rows) nt"
    using pv_from_nx_labels [OF network_html_graph_wf nt [unfolded network_html_def]]
    by (simp add: pv_labels_from_def pv_network_init_def)
  then have "pvn_label nd = row_label rows (pvn_id nd)" if "nd \<in> set (pv_nodes nt)" for nd
    using that build_social_graph_label [of rows "pvn_id nd"]
    by (auto simp: pv_labels_from_def list_all_iff split: option.splits)
  then show ?thesis using nt by (simp add: pv_node_ids_def map_eq_conv)
qed

end
