(* ===== verification/Handler.thy ===== *)
theory Handler
  imports Export Pyvis
begin

text \<open>
  The request handler \<open>search_social_network\<close> (lines 236--290 of \<open>src/main.py\<close>): it
  runs the traversal with the submitted relation types (always a list: the form field is
  declared \<open>list\<close>), writes the two export files \<open>static/social_network.csv\<close> (line 247)
  and \<open>static/network.html\<close> (line 284), and returns the rows to the template. The
  files are a map from paths, relative to the working directory of the server, to
  contents; the HTML file is represented by the pyvis network that \<open>save_graph\<close>
  renders (\<open>Pyvis\<close>). The CSV file is written before the network is built, so an
  exception of \<open>from_nx\<close> would leave the new CSV file and no response (\<open>None\<close> in
  the second component). The check \<open>if social_network is None\<close> (line 286) never
  fires, since \<open>fetchall\<close> returns a list. The handler is \<open>async\<close> and never awaits,
  so within one server process it runs from start to end without another request
  in between.
\<close>

section \<open>The files and the handler\<close>

text \<open>The content of a file: a text, or the network that \<open>save_graph\<close> renders.\<close>

datatype file_content = TextFile string | NetworkFile pv_network

type_synonym file_store = "string \<Rightarrow> file_content option"

definition csv_export_path :: string where
  "csv_export_path = ''static/social_network.csv''"

definition html_export_path :: string where
  "html_export_path = ''static/network.html''"

definition search_social_network ::
  "cbdb \<Rightarrow> file_store \<Rightarrow> rel_code list \<Rightarrow> person_id \<Rightarrow> (file_store \<times> net_row list option) option" where
  "search_social_network db fs social_types pid =
     (case get_social_network_personid db pid (Some social_types) of
        None \<Rightarrow> None
      | Some social_network \<Rightarrow>
          (let fs1 = fs(csv_export_path \<mapsto> TextFile (social_network_csv_file social_network))
           in case network_html social_network of
                None \<Rightarrow> Some (fs1, None)
              | Some nt \<Rightarrow> Some (fs1(html_export_path \<mapsto> NetworkFile nt), Some social_network)))"

section \<open>Lemmas\<close>

text \<open>The handler answers every request with the rows of the traversal, and leaves
  both export files written from them: the CSV text of Export A and the network of
  Export B.\<close>

lemma search_social_network_Some:
  "\<exists>rows nt. get_social_network_personid db pid (Some types) = Some rows \<and> network_html rows = Some nt \<and>
     search_social_network db fs types pid =
       Some (fs(csv_export_path \<mapsto> TextFile (social_network_csv_file rows), html_export_path \<mapsto> NetworkFile nt),
             Some rows)"
proof -
  obtain rows where r: "get_social_network_personid db pid (Some types) = Some rows"
    using network_get_Some by blast
  obtain nt where nt: "network_html rows = Some nt" using network_html_Some by blast
  show ?thesis using r nt by (simp add: search_social_network_def Let_def)
qed

end
