(* ===== verification/Like.thy ===== *)
theory Like
  imports Sql "HOL-Library.Sublist"
begin

text \<open>
  SQLite's \<open>LIKE\<close> operator, which the substring searches of \<open>src/main.py\<close> use as
  \<open>c_... like '%term%'\<close> with the term interpolated into the pattern (lines 109, 117,
  131, 163). A pattern character \<open>%\<close> matches any sequence of characters, \<open>_\<close> any one
  character, and any other character matches itself, ASCII letters without regard to
  case (SQLite folds \<open>A\<close>--\<open>Z\<close> only). A \<open>NULL\<close> operand makes the comparison \<open>NULL\<close>,
  which a \<open>WHERE\<close> clause treats as false. The matcher is the recursive comparison
  SQLite's \<open>patternCompare\<close> performs; the reference meaning is substring containment
  after case folding (\<open>sublist\<close> of \<open>HOL-Library.Sublist\<close>).
\<close>

section \<open>The matcher\<close>

definition ascii_lower :: "char \<Rightarrow> char" where
  "ascii_lower c = (if (65::nat) \<le> of_char c \<and> of_char c \<le> (90::nat) then char_of (of_char c + (32::nat)) else c)"

fun like_match :: "string \<Rightarrow> string \<Rightarrow> bool" where
  "like_match [] s = (s = [])"
| "like_match (c # p) s =
     (if c = CHR ''%'' then like_match p s \<or> (case s of [] \<Rightarrow> False | _ # s' \<Rightarrow> like_match (c # p) s')
      else (case s of [] \<Rightarrow> False
            | x # s' \<Rightarrow> (c = CHR ''_'' \<or> ascii_lower c = ascii_lower x) \<and> like_match p s'))"

definition sql_like :: "sql_text \<Rightarrow> string \<Rightarrow> bool" where
  "sql_like x pat = (case x of None \<Rightarrow> False | Some s \<Rightarrow> like_match pat s)"

text \<open>The pattern \<open>'%term%'\<close> the searches build.\<close>

definition contains_pattern :: "string \<Rightarrow> string" where
  "contains_pattern t = CHR ''%'' # t @ [CHR ''%'']"

definition wildcard_free :: "string \<Rightarrow> bool" where
  "wildcard_free t \<longleftrightarrow> CHR ''%'' \<notin> set t \<and> CHR ''_'' \<notin> set t"

section \<open>Lemmas\<close>

lemma like_match_percent:
  "like_match (CHR ''%'' # p) s \<longleftrightarrow> (\<exists>u v. s = u @ v \<and> like_match p v)"
proof (induction s)
  case Nil
  then show ?case by simp
next
  case (Cons x s)
  have "like_match (CHR ''%'' # p) (x # s) \<longleftrightarrow> like_match p (x # s) \<or> like_match (CHR ''%'' # p) s"
    by simp
  also have "\<dots> \<longleftrightarrow> (\<exists>u v. x # s = u @ v \<and> like_match p v)"
    unfolding Cons.IH by (auto simp: Cons_eq_append_conv)
  finally show ?case .
qed

lemma like_match_percent_Nil [simp]: "like_match [CHR ''%''] s"
  using like_match_percent [of "[]" s] by simp

lemma like_match_literal:
  assumes "wildcard_free t"
  shows "like_match (t @ p) s \<longleftrightarrow>
           (\<exists>v w. s = v @ w \<and> map ascii_lower v = map ascii_lower t \<and> like_match p w)"
  using assms
proof (induction t arbitrary: s)
  case Nil
  then show ?case by simp
next
  case (Cons c t)
  then have c: "c \<noteq> CHR ''%''" "c \<noteq> CHR ''_''" and wt: "wildcard_free t"
    by (auto simp: wildcard_free_def)
  show ?case
  proof (cases s)
    case Nil
    then show ?thesis using c by simp
  next
    case (Cons x s')
    have "like_match ((c # t) @ p) s \<longleftrightarrow> ascii_lower c = ascii_lower x \<and> like_match (t @ p) s'"
      using c Cons by simp
    also have "\<dots> \<longleftrightarrow> (\<exists>v w. s = v @ w \<and> map ascii_lower v = map ascii_lower (c # t) \<and> like_match p w)"
      (is "?L \<longleftrightarrow> ?R")
    proof
      assume ?L
      then obtain v w where "s' = v @ w" "map ascii_lower v = map ascii_lower t" "like_match p w"
        and "ascii_lower c = ascii_lower x"
        using Cons.IH [OF wt, of s'] by blast
      then show ?R using Cons by (intro exI [of _ "x # v"] exI [of _ w]) simp
    next
      assume ?R
      then obtain v w where h: "s = v @ w" "map ascii_lower v = map ascii_lower (c # t)" "like_match p w"
        by blast
      then obtain zs where v: "v = x # zs" using Cons by (cases v) auto
      with h Cons have "s' = zs @ w" "map ascii_lower zs = map ascii_lower t" "ascii_lower c = ascii_lower x"
        by auto
      with h(3) show ?L using Cons.IH [OF wt, of s'] by blast
    qed
    finally show ?thesis .
  qed
qed

lemma sublist_map_iff:
  "sublist (map f t) (map f s) \<longleftrightarrow> (\<exists>u v w. s = u @ v @ w \<and> map f v = map f t)"
proof
  assume "sublist (map f t) (map f s)"
  then obtain ps ss where "map f s = ps @ map f t @ ss" unfolding sublist_def by blast
  from map_eq_append_conv [THEN iffD1, OF this] obtain u r where
    u: "s = u @ r" and r: "map f t @ ss = map f r" by blast
  from map_eq_append_conv [THEN iffD1, OF r [symmetric]] obtain v w where
    "r = v @ w" "map f t = map f v" by blast
  with u show "\<exists>u v w. s = u @ v @ w \<and> map f v = map f t"
    by (intro exI [of _ u] exI [of _ v] exI [of _ w]) simp
next
  assume "\<exists>u v w. s = u @ v @ w \<and> map f v = map f t"
  then obtain u v w where "s = u @ v @ w" "map f v = map f t" by blast
  then have "map f s = map f u @ map f t @ map f w" by simp
  then show "sublist (map f t) (map f s)"
    unfolding sublist_def by (intro exI [of _ "map f u"] exI [of _ "map f w"])
qed

lemma like_underscore_term:
  "sql_like (Some s) (contains_pattern ''_'') \<longleftrightarrow> s \<noteq> []"
proof -
  have "like_match (CHR ''_'' # [CHR ''%'']) r \<longleftrightarrow> r \<noteq> []" for r
    by (cases r) (simp_all del: like_match.simps add: like_match.simps(2) [of "CHR ''_''"])
  then show ?thesis
    by (auto simp: sql_like_def contains_pattern_def like_match_percent)
qed

section \<open>Properties of LIKE\<close>

text \<open>The same equivalence for a nullable column: a \<open>NULL\<close> never matches.\<close>

lemma like_contains_column:
  assumes "wildcard_free t"
  shows "sql_like x (contains_pattern t) \<longleftrightarrow> (\<exists>s. x = Some s \<and> sublist (map ascii_lower t) (map ascii_lower s))"
proof (cases x)
  case None
  then show ?thesis by (simp add: sql_like_def)
next
  case (Some s)
  have lit: "like_match (t @ [CHR ''%'']) r \<longleftrightarrow> (\<exists>v w. r = v @ w \<and> map ascii_lower v = map ascii_lower t)"
    for r by (simp only: like_match_literal [OF assms] like_match_percent_Nil simp_thms)
  have "sql_like (Some s) (contains_pattern t) \<longleftrightarrow> (\<exists>u v w. s = u @ v @ w \<and> map ascii_lower v = map ascii_lower t)"
    by (simp only: sql_like_def contains_pattern_def option.case like_match_percent lit) auto
  then show ?thesis using Some by (simp add: sublist_map_iff)
qed

text \<open>C24: for a search term without wildcard characters, the pattern \<open>'%term%'\<close>
  matches a text exactly when the term occurs in the text, ASCII letters compared
  without regard to case: the recursive matcher is equivalent to substring
  containment.\<close>

theorem like_contains_iff:
  assumes "wildcard_free t"
  shows "sql_like (Some s) (contains_pattern t) \<longleftrightarrow> sublist (map ascii_lower t) (map ascii_lower s)"
proof -
  have lit: "like_match (t @ [CHR ''%'']) r \<longleftrightarrow> (\<exists>v w. r = v @ w \<and> map ascii_lower v = map ascii_lower t)"
    for r by (simp only: like_match_literal [OF assms] like_match_percent_Nil simp_thms)
  have "sql_like (Some s) (contains_pattern t) \<longleftrightarrow>
        (\<exists>u r. s = u @ r \<and> (\<exists>v w. r = v @ w \<and> map ascii_lower v = map ascii_lower t))"
    by (simp only: sql_like_def contains_pattern_def option.case like_match_percent lit)
  also have "\<dots> \<longleftrightarrow> (\<exists>u v w. s = u @ v @ w \<and> map ascii_lower v = map ascii_lower t)"
    by auto
  also have "\<dots> \<longleftrightarrow> sublist (map ascii_lower t) (map ascii_lower s)"
    by (rule sublist_map_iff [symmetric])
  finally show ?thesis .
qed

theorem like_contains_iff_witness:
  "wildcard_free ''ab'' \<and> sql_like (Some ''xAbz'') (contains_pattern ''ab'') \<and>
   sublist (map ascii_lower ''ab'') (map ascii_lower ''xAbz'')"
proof -
  have w: "wildcard_free ''ab''" by (simp add: wildcard_free_def)
  have l: "sql_like (Some ''xAbz'') (contains_pattern ''ab'')" by code_simp
  show ?thesis using w l like_contains_iff [OF w, of "''xAbz''"] by simp
qed

text \<open>C25: the term is interpolated into the pattern unescaped, so a term that is a
  wildcard matches whatever the column holds: the term \<open>_\<close> matches every non-empty
  text and \<open>%\<close> every text; only \<open>NULL\<close> is never matched.\<close>

theorem like_wildcard_terms:
  "(sql_like (Some s) (contains_pattern ''_'') \<longleftrightarrow> s \<noteq> []) \<and>
   sql_like (Some s) (contains_pattern ''%'') \<and> \<not> sql_like None (contains_pattern t)"
proof -
  have under: "sql_like (Some s) (contains_pattern ''_'') \<longleftrightarrow> s \<noteq> []"
    by (rule like_underscore_term)
  have "\<exists>u v. s = u @ v \<and> like_match ''%%'' v"
    by (rule exI [of _ s], rule exI [of _ "[]"]) simp
  then have "like_match (CHR ''%'' # ''%%'') s"
    using like_match_percent [of "''%%''" s] by blast
  then have perc: "sql_like (Some s) (contains_pattern ''%'')"
    by (simp add: sql_like_def contains_pattern_def)
  have "\<not> sql_like None (contains_pattern t)"
    by (simp add: sql_like_def)
  with under perc show ?thesis by blast
qed

end
