(* ===== verification/App.thy ===== *)
theory App
  imports Handler Like "HOL-Library.Char_ord" "HOL-Library.List_Lexorder"
begin

text \<open>
  The application object of \<open>src/main.py\<close> (lines 10--29 and the route decorators):
  FastAPI's router with the routes the decorators register, the \<open>/static\<close> mount, the
  pages that only render a template, and the CORS middleware. FastAPI and Starlette are
  libraries the code calls; they are modelled as Starlette defines them. The router
  tries its entries in order (FastAPI's own documentation routes, registered when the
  application is created, then the mount of line 13, then the decorated handlers in
  the order of the file): the first entry whose path and method match handles the
  request; an entry whose path matches but not its method gives 405; otherwise the
  path with its trailing slash removed or added is tried, and a match there gives a
  redirect; otherwise 404. A decorated route answers its one method only (FastAPI's
  \<open>APIRoute\<close> keeps the methods it is given), so a \<open>HEAD\<close> request to a page gets 405;
  the documentation routes are Starlette \<open>Route\<close>s, which add \<open>HEAD\<close> to \<open>GET\<close>. The pages
  \<open>root\<close>, \<open>show_map\<close>, \<open>about\<close> and \<open>test_form\<close> are modelled here; the other
  handlers are modelled in their own theories and appear as \<open>Handled\<close>. The whole
  application is \<open>app_call\<close>: the CORS middleware around the router.
\<close>

section \<open>Requests and routes\<close>

datatype http_method = GET | HEAD | POST | PUT | DELETE | PATCH | OPTIONS

text \<open>The handlers of the application, and the four pages FastAPI adds itself
  (\<open>openapi_url\<close>, \<open>docs_url\<close>, its OAuth2 redirect and \<open>redoc_url\<close>).\<close>

datatype endpoint =
    EpOpenapi | EpDocs | EpDocsRedirect | EpRedoc
  | EpRoot | EpSearchForm | EpSearchLifespan | EpSearchPersonId | EpSearchPersonName
  | EpReadPerson | EpSearchOffice | EpSearchExam | EpSources | EpShowMap | EpSearchPlacename
  | EpSearchSocialNetwork | EpSearchKinship | EpAbout | EpTestForm | EpTestFormPost

record app_route =
  rt_path :: string
  rt_methods :: "http_method list"
  rt_endpoint :: endpoint

text \<open>\<open>@app.get(path)\<close> and \<open>@app.post(path)\<close>: an \<open>APIRoute\<close> for that one method
  (\<open>APIRoute\<close> upper-cases the methods it is given and adds none).\<close>

definition app_get :: "string \<Rightarrow> endpoint \<Rightarrow> app_route" where
  "app_get p ep = \<lparr>rt_path = p, rt_methods = [GET], rt_endpoint = ep\<rparr>"

definition app_post :: "string \<Rightarrow> endpoint \<Rightarrow> app_route" where
  "app_post p ep = \<lparr>rt_path = p, rt_methods = [POST], rt_endpoint = ep\<rparr>"

text \<open>\<open>FastAPI.add_route(path, endpoint)\<close>: a Starlette \<open>Route\<close> with no methods given,
  which answers \<open>GET\<close> and adds \<open>HEAD\<close>.\<close>

definition starlette_get :: "string \<Rightarrow> endpoint \<Rightarrow> app_route" where
  "starlette_get p ep = \<lparr>rt_path = p, rt_methods = [GET, HEAD], rt_endpoint = ep\<rparr>"

datatype router_entry = Mount string | Route app_route

text \<open>\<open>app = FastAPI()\<close> (line 10): the documentation routes come first.\<close>

definition fastapi_docs_routes :: "router_entry list" where
  "fastapi_docs_routes =
     [Route (starlette_get ''/openapi.json'' EpOpenapi), Route (starlette_get ''/docs'' EpDocs),
      Route (starlette_get ''/docs/oauth2-redirect'' EpDocsRedirect), Route (starlette_get ''/redoc'' EpRedoc)]"

text \<open>The decorators, in the order of the file.\<close>

definition route_root :: app_route where "route_root = app_get ''/'' EpRoot"
definition route_search_form :: app_route where "route_search_form = app_get ''/search_form/'' EpSearchForm"
definition route_search_lifespan :: app_route where
  "route_search_lifespan = app_get ''/search_lifespan/'' EpSearchLifespan"
definition route_search_person_id :: app_route where
  "route_search_person_id = app_get ''/search_person_id/'' EpSearchPersonId"
definition route_search_person_name :: app_route where
  "route_search_person_name = app_get ''/search_person_name/'' EpSearchPersonName"
definition route_read_person :: app_route where
  "route_read_person = app_get ''/persons/{c_personid}'' EpReadPerson"
definition route_search_office :: app_route where "route_search_office = app_get ''/search_office'' EpSearchOffice"
definition route_search_exam :: app_route where "route_search_exam = app_get ''/search_exam'' EpSearchExam"
definition route_sources :: app_route where "route_sources = app_get ''/sources/'' EpSources"
definition route_show_map :: app_route where "route_show_map = app_get ''/show-map/'' EpShowMap"
definition route_search_placename :: app_route where
  "route_search_placename = app_get ''/search_placename/'' EpSearchPlacename"
definition route_search_social_network :: app_route where
  "route_search_social_network = app_post ''/search_social_network/'' EpSearchSocialNetwork"
definition route_search_kinship :: app_route where
  "route_search_kinship = app_post ''/search_kinship/'' EpSearchKinship"
definition route_about :: app_route where "route_about = app_get ''/about/'' EpAbout"
definition route_test_form :: app_route where "route_test_form = app_get ''/test-form/'' EpTestForm"
definition route_test_form_post :: app_route where
  "route_test_form_post = app_post ''/test-form/'' EpTestFormPost"

definition app_routes :: "app_route list" where
  "app_routes =
     [route_root, route_search_form, route_search_lifespan, route_search_person_id,
      route_search_person_name, route_read_person, route_search_office, route_search_exam,
      route_sources, route_show_map, route_search_placename, route_search_social_network,
      route_search_kinship, route_about, route_test_form, route_test_form_post]"

text \<open>The router of the application: documentation routes, the mount of line 13, the
  decorated routes.\<close>

definition app_router :: "router_entry list" where
  "app_router = fastapi_docs_routes @ [Mount ''/static''] @ map Route app_routes"

section \<open>Path matching\<close>

text \<open>A path is matched segment by segment: the text between slashes after the leading
  one. A template segment \<open>{name}\<close> is a parameter (Starlette's default \<open>str\<close>
  convertor, \<open>[^/]+\<close>: any non-empty segment); any other segment matches itself.\<close>

text \<open>\<open>s.split(c)\<close>.\<close>

fun split_on :: "char \<Rightarrow> string \<Rightarrow> string list" where
  "split_on d [] = [[]]"
| "split_on d (c # cs) =
     (let r = split_on d cs in if c = d then [] # r else (c # hd r) # tl r)"

definition path_segs :: "string \<Rightarrow> string list" where
  "path_segs p = split_on CHR ''/'' (drop 1 p)"

datatype pseg = PLit string | PParam string

definition compile_seg :: "string \<Rightarrow> pseg" where
  "compile_seg s =
     (if 2 \<le> length s \<and> hd s = CHR ''{'' \<and> last s = CHR ''}'' then PParam (butlast (tl s)) else PLit s)"

definition compile_path :: "string \<Rightarrow> pseg list" where
  "compile_path t = map compile_seg (path_segs t)"

fun path_match :: "pseg list \<Rightarrow> string list \<Rightarrow> (string \<times> string) list option" where
  "path_match [] [] = Some []"
| "path_match (PLit l # ts) (s # ss) = (if s = l then path_match ts ss else None)"
| "path_match (PParam n # ts) (s # ss) =
     (if s = [] then None else map_option (\<lambda>ps. (n, s) # ps) (path_match ts ss))"
| "path_match _ _ = None"

fun join_slash :: "string list \<Rightarrow> string" where
  "join_slash [] = []"
| "join_slash [s] = s"
| "join_slash (s # ss) = s @ CHR ''/'' # join_slash ss"

datatype route_match = MatchNone | MatchPartial | MatchFull "(string \<times> string) list"

text \<open>\<open>Route.matches\<close>: full when path and method match, partial when only the path
  does. \<open>Mount.matches\<close> (\<open>^/static/(?P<path>.*)$\<close>): full for every method on a path
  below the prefix, with the rest of the path as \<open>path\<close>.\<close>

fun entry_match :: "http_method \<Rightarrow> string list \<Rightarrow> router_entry \<Rightarrow> route_match" where
  "entry_match m segs (Route r) =
     (case path_match (compile_path (rt_path r)) segs of
        None \<Rightarrow> MatchNone
      | Some ps \<Rightarrow> if m \<in> set (rt_methods r) then MatchFull ps else MatchPartial)"
| "entry_match m segs (Mount pre) =
     (let ps = path_segs pre
      in if length ps < length segs \<and> take (length ps) segs = ps
         then MatchFull [(''path'', join_slash (drop (length ps) segs))] else MatchNone)"

fun find_full :: "http_method \<Rightarrow> string list \<Rightarrow> router_entry list \<Rightarrow> (router_entry \<times> (string \<times> string) list) option" where
  "find_full m segs [] = None"
| "find_full m segs (e # es) =
     (case entry_match m segs e of MatchFull ps \<Rightarrow> Some (e, ps) | _ \<Rightarrow> find_full m segs es)"

datatype route_result =
    Dispatch router_entry "(string \<times> string) list"
  | NotAllowed
  | Redirect string
  | NotFound

text \<open>\<open>path.rstrip("/")\<close>.\<close>

definition rstrip_slash :: "string \<Rightarrow> string" where
  "rstrip_slash p = rev (dropWhile (\<lambda>c. c = CHR ''/'') (rev p))"

text \<open>\<open>Router.__call__\<close> with \<open>redirect_slashes=True\<close>.\<close>

definition router_dispatch :: "router_entry list \<Rightarrow> http_method \<Rightarrow> string \<Rightarrow> route_result" where
  "router_dispatch routes m p =
     (let segs = path_segs p
      in case find_full m segs routes of
           Some (e, ps) \<Rightarrow> Dispatch e ps
         | None \<Rightarrow>
             if list_ex (\<lambda>e. entry_match m segs e = MatchPartial) routes then NotAllowed
             else if p = ''/'' then NotFound
             else
               (let p' = (if p \<noteq> [] \<and> last p = CHR ''/'' then rstrip_slash p else p @ ''/'')
                in if list_ex (\<lambda>e. entry_match m (path_segs p') e \<noteq> MatchNone) routes
                   then Redirect p' else NotFound))"


section \<open>Responses\<close>

datatype body =
    TemplateBody string "(string \<times> string) list"
  | FileText string
  | NetworkHtml pv_network
  | JsonDetail string
  | PlainBody string
  | EmptyBody

text \<open>A response: status, headers (lower-case names, in order, as Starlette's
  \<open>MutableHeaders\<close> keeps them) and body.\<close>

record response =
  rs_status :: nat
  rs_headers :: "(string \<times> string) list"
  rs_body :: body

record request =
  rq_method :: http_method
  rq_path :: string
  rq_query :: "(string \<times> string) list"
  rq_headers :: "(string \<times> string) list"

text \<open>FastAPI's handler of \<open>HTTPException\<close>: a JSON body \<open>{"detail": ...}\<close>.\<close>

definition http_error :: "nat \<Rightarrow> string \<Rightarrow> response" where
  "http_error code detail =
     \<lparr>rs_status = code, rs_headers = [(''content-type'', ''application/json'')], rs_body = JsonDetail detail\<rparr>"

text \<open>A request that fails FastAPI's parameter validation (the detail list is not
  modelled).\<close>

definition validation_error :: response where
  "validation_error = http_error 422 ''field required''"

text \<open>\<open>RedirectResponse\<close> of the router (307, to the path with the slash changed).\<close>

definition redirect_response :: "string \<Rightarrow> response" where
  "redirect_response p = \<lparr>rs_status = 307, rs_headers = [(''location'', p)], rs_body = EmptyBody\<rparr>"

text \<open>\<open>templates.TemplateResponse(name, context)\<close> (line 15: the \<open>templates\<close>
  directory); the context's \<open>request\<close> entry is left implicit.\<close>

definition template_response :: "string \<Rightarrow> (string \<times> string) list \<Rightarrow> response" where
  "template_response name ctx =
     \<lparr>rs_status = 200, rs_headers = [(''content-type'', ''text/html; charset=utf-8'')],
      rs_body = TemplateBody name ctx\<rparr>"

text \<open>A query parameter: the last value given for the name (Starlette's
  \<open>QueryParams\<close> keeps the last one).\<close>

definition query_get :: "(string \<times> string) list \<Rightarrow> string \<Rightarrow> string option" where
  "query_get q k = map_of (rev q) k"

section \<open>The pages that render a template\<close>

definition root_page :: response where
  "root_page = template_response ''index.html'' []"

definition show_map_page :: "request \<Rightarrow> response" where
  "show_map_page rq =
     (case (query_get (rq_query rq) ''x_coord'', query_get (rq_query rq) ''y_coord'',
            query_get (rq_query rq) ''person_name'') of
        (Some x, Some y, Some n) \<Rightarrow>
          template_response ''show_map.html'' [(''x_coord'', x), (''y_coord'', y), (''person_name'', n)]
      | _ \<Rightarrow> validation_error)"

definition about_page :: response where
  "about_page = template_response ''about.html'' []"

definition test_form_page :: response where
  "test_form_page = template_response ''test_form.html'' []"

section \<open>The static mount\<close>

text \<open>\<open>StaticFiles(directory="static")\<close> (line 13) over the files of the working
  directory: \<open>GET\<close> and \<open>HEAD\<close> only (405 otherwise); the requested path is looked up
  below the directory (\<open>os.path.join(directory, path)\<close>), 404 when no file is there;
  a file is answered with the media type that \<open>mimetypes.guess_type\<close> gives its name
  (\<open>text/plain\<close> when it gives none, \<open>charset=utf-8\<close> added to a text type), and no
  body for \<open>HEAD\<close>. The table of media types is reduced to the two extensions of the
  exports, and the headers taken from the file's metadata (\<open>content-length\<close>,
  \<open>last-modified\<close>, \<open>etag\<close>), with the \<open>304\<close> answer to a conditional request, are
  not modelled: the store holds contents only.\<close>

definition static_directory :: string where
  "static_directory = ''static''"

definition guess_media_type :: "string \<Rightarrow> string" where
  "guess_media_type path =
     (if suffix ''.csv'' path then ''text/csv''
      else if suffix ''.html'' path then ''text/html''
      else ''text/plain'')"

definition content_type :: "string \<Rightarrow> string" where
  "content_type path =
     (let mt = guess_media_type path in if prefix ''text/'' mt then mt @ ''; charset=utf-8'' else mt)"

definition file_body :: "file_content \<Rightarrow> body" where
  "file_body c = (case c of TextFile s \<Rightarrow> FileText s | NetworkFile nt \<Rightarrow> NetworkHtml nt)"

definition static_files_app :: "file_store \<Rightarrow> http_method \<Rightarrow> string \<Rightarrow> response" where
  "static_files_app fs m path =
     (if m = GET \<or> m = HEAD
      then (case fs (static_directory @ ''/'' @ path) of
              None \<Rightarrow> http_error 404 ''Not Found''
            | Some c \<Rightarrow>
                \<lparr>rs_status = 200, rs_headers = [(''content-type'', content_type path)],
                 rs_body = (if m = HEAD then EmptyBody else file_body c)\<rparr>)
      else http_error 405 ''Method Not Allowed'')"

section \<open>The application without its middleware\<close>

text \<open>What a request comes to: a response of the parts modelled here, or the call of
  a handler modelled in its own theory, with the path parameters and the origin the
  CORS middleware will answer (\<open>None\<close>: no CORS headers).\<close>

datatype outcome = Respond response | Handled endpoint "(string \<times> string) list" "string option"

definition app_inner :: "file_store \<Rightarrow> request \<Rightarrow> outcome" where
  "app_inner fs rq =
     (case router_dispatch app_router (rq_method rq) (rq_path rq) of
        Dispatch (Mount pre) ps \<Rightarrow>
          Respond (case map_of ps ''path'' of
                     None \<Rightarrow> http_error 404 ''Not Found''
                   | Some f \<Rightarrow> static_files_app fs (rq_method rq) f)
      | Dispatch (Route r) ps \<Rightarrow>
          (case rt_endpoint r of
             EpRoot \<Rightarrow> Respond root_page
           | EpShowMap \<Rightarrow> Respond (show_map_page rq)
           | EpAbout \<Rightarrow> Respond about_page
           | EpTestForm \<Rightarrow> Respond test_form_page
           | ep \<Rightarrow> Handled ep ps None)
      | NotAllowed \<Rightarrow> Respond (http_error 405 ''Method Not Allowed'')
      | Redirect p \<Rightarrow> Respond (redirect_response p)
      | NotFound \<Rightarrow> Respond (http_error 404 ''Not Found''))"


section \<open>The CORS middleware\<close>

text \<open>\<open>app.add_middleware(CORSMiddleware, ...)\<close> (lines 18--24), with Starlette's
  \<open>CORSMiddleware\<close>: what its constructor derives from the options, the headers it
  adds to every response of a cross-origin request (\<open>send\<close>), and its answer to a
  preflight request (\<open>preflight_response\<close>). Header names are lower case.\<close>

record cors_config =
  co_allow_origins :: "string list"
  co_allow_methods :: "string list"
  co_allow_headers :: "string list"
  co_allow_credentials :: bool

definition app_cors :: cors_config where
  "app_cors = \<lparr>co_allow_origins = [''*''], co_allow_methods = [''*''], co_allow_headers = [''*''],
               co_allow_credentials = True\<rparr>"

definition cors_all_methods :: "string list" where
  "cors_all_methods = [''DELETE'', ''GET'', ''HEAD'', ''OPTIONS'', ''PATCH'', ''POST'', ''PUT'']"

definition cors_safelisted_headers :: "string list" where
  "cors_safelisted_headers = [''Accept'', ''Accept-Language'', ''Content-Language'', ''Content-Type'']"

definition cors_methods :: "cors_config \<Rightarrow> string list" where
  "cors_methods cfg = (if ''*'' \<in> set (co_allow_methods cfg) then cors_all_methods else co_allow_methods cfg)"

definition cors_allow_all_origins :: "cors_config \<Rightarrow> bool" where
  "cors_allow_all_origins cfg \<longleftrightarrow> ''*'' \<in> set (co_allow_origins cfg)"

definition cors_allow_all_headers :: "cors_config \<Rightarrow> bool" where
  "cors_allow_all_headers cfg \<longleftrightarrow> ''*'' \<in> set (co_allow_headers cfg)"

text \<open>\<open>sorted(SAFELISTED_HEADERS | set(allow_headers))\<close>.\<close>

definition cors_sorted_headers :: "cors_config \<Rightarrow> string list" where
  "cors_sorted_headers cfg = sort (remdups (cors_safelisted_headers @ co_allow_headers cfg))"

text \<open>\<open>preflight_explicit_allow_origin = not allow_all_origins or allow_credentials\<close>.\<close>

definition cors_explicit_origin :: "cors_config \<Rightarrow> bool" where
  "cors_explicit_origin cfg = (if cors_allow_all_origins cfg then co_allow_credentials cfg else True)"

definition cors_is_allowed_origin :: "cors_config \<Rightarrow> string \<Rightarrow> bool" where
  "cors_is_allowed_origin cfg origin \<longleftrightarrow> cors_allow_all_origins cfg \<or> origin \<in> set (co_allow_origins cfg)"

definition cors_simple_headers :: "cors_config \<Rightarrow> (string \<times> string) list" where
  "cors_simple_headers cfg =
     (if cors_allow_all_origins cfg then [(''access-control-allow-origin'', ''*'')] else []) @
     (if co_allow_credentials cfg then [(''access-control-allow-credentials'', ''true'')] else [])"

fun join_with :: "string \<Rightarrow> string list \<Rightarrow> string" where
  "join_with sep [] = []"
| "join_with sep [s] = s"
| "join_with sep (s # ss) = s @ sep @ join_with sep ss"

definition cors_preflight_headers :: "cors_config \<Rightarrow> (string \<times> string) list" where
  "cors_preflight_headers cfg =
     (if cors_explicit_origin cfg then [(''vary'', ''Origin'')] else [(''access-control-allow-origin'', ''*'')]) @
     [(''access-control-allow-methods'', join_with '', '' (cors_methods cfg)), (''access-control-max-age'', ''600'')] @
     (if cors_allow_all_headers cfg then []
      else [(''access-control-allow-headers'', join_with '', '' (cors_sorted_headers cfg))]) @
     (if co_allow_credentials cfg then [(''access-control-allow-credentials'', ''true'')] else [])"

text \<open>\<open>MutableHeaders.add_vary_header\<close> and \<open>allow_explicit_origin\<close>.\<close>

definition add_vary_header :: "(string \<times> string) list \<Rightarrow> string \<Rightarrow> (string \<times> string) list" where
  "add_vary_header hs v =
     AList.update ''vary'' (case map_of hs ''vary'' of None \<Rightarrow> v | Some e \<Rightarrow> e @ '', '' @ v) hs"

definition allow_explicit_origin :: "(string \<times> string) list \<Rightarrow> string \<Rightarrow> (string \<times> string) list" where
  "allow_explicit_origin hs origin = add_vary_header (AList.update ''access-control-allow-origin'' origin hs) ''Origin''"

text \<open>\<open>CORSMiddleware.send\<close>: the headers of the inner application's response for a
  request with header \<open>Origin: origin\<close>. With all origins allowed, a request that
  carries a cookie gets its own origin back instead of \<open>*\<close>.\<close>

definition cors_send ::
  "cors_config \<Rightarrow> (string \<times> string) list \<Rightarrow> string \<Rightarrow> (string \<times> string) list \<Rightarrow> (string \<times> string) list" where
  "cors_send cfg rqh origin hs =
     (let hs1 = dict_update hs (cors_simple_headers cfg);
          has_cookie = (map_of rqh ''cookie'' \<noteq> None)
      in if cors_allow_all_origins cfg \<and> has_cookie then allow_explicit_origin hs1 origin
         else if \<not> cors_allow_all_origins cfg \<and> cors_is_allowed_origin cfg origin
         then allow_explicit_origin hs1 origin
         else hs1)"

text \<open>\<open>str.strip()\<close> on ASCII white space.\<close>

definition py_space :: "char \<Rightarrow> bool" where
  "py_space c \<longleftrightarrow> c \<in> set [CHR '' '', CHR 0x09, CHR 0x0A, CHR 0x0B, CHR 0x0C, CHR 0x0D]"

definition py_strip :: "string \<Rightarrow> string" where
  "py_strip s = rev (dropWhile py_space (rev (dropWhile py_space s)))"

text \<open>\<open>CORSMiddleware.preflight_response\<close> for \<open>OPTIONS\<close> with
  \<open>Access-Control-Request-Method: req_method\<close>.\<close>

definition cors_preflight ::
  "cors_config \<Rightarrow> (string \<times> string) list \<Rightarrow> string \<Rightarrow> string \<Rightarrow> response" where
  "cors_preflight cfg rqh origin req_method =
     (let h0 = cors_preflight_headers cfg;
          ok_origin = cors_is_allowed_origin cfg origin;
          h1 = (if ok_origin \<and> cors_explicit_origin cfg
                then AList.update ''access-control-allow-origin'' origin h0 else h0);
          req_hdrs = map_of rqh ''access-control-request-headers'';
          h2 = (case req_hdrs of
                  None \<Rightarrow> h1
                | Some rh \<Rightarrow> if cors_allow_all_headers cfg
                            then AList.update ''access-control-allow-headers'' rh h1 else h1);
          hdr_fail = (case req_hdrs of
                        None \<Rightarrow> False
                      | Some rh \<Rightarrow> \<not> cors_allow_all_headers cfg \<and>
                          list_ex (\<lambda>h. py_strip h \<notin> set (map (map ascii_lower) (cors_sorted_headers cfg)))
                            (split_on CHR '','' (map ascii_lower rh)));
          failures = (if ok_origin then [] else [''origin'']) @
                     (if req_method \<in> set (cors_methods cfg) then [] else [''method'']) @
                     (if hdr_fail then [''headers''] else []);
          h3 = h2 @ [(''content-type'', ''text/plain; charset=utf-8'')]
      in if failures = [] then \<lparr>rs_status = 200, rs_headers = h3, rs_body = PlainBody ''OK''\<rparr>
         else \<lparr>rs_status = 400, rs_headers = h3, rs_body = PlainBody (''Disallowed CORS '' @ join_with '', '' failures)\<rparr>)"

section \<open>The application\<close>

text \<open>A request through the middleware (\<open>CORSMiddleware.__call__\<close>): no \<open>Origin\<close>
  header, the inner application alone; a preflight, the middleware's own answer;
  otherwise the inner application, its response headers through \<open>send\<close>.\<close>

definition app_call :: "file_store \<Rightarrow> request \<Rightarrow> outcome" where
  "app_call fs rq =
     (case map_of (rq_headers rq) ''origin'' of
        None \<Rightarrow> app_inner fs rq
      | Some origin \<Rightarrow>
          (case (rq_method rq, map_of (rq_headers rq) ''access-control-request-method'') of
             (OPTIONS, Some rm) \<Rightarrow> Respond (cors_preflight app_cors (rq_headers rq) origin rm)
           | _ \<Rightarrow> (case app_inner fs rq of
                    Respond r \<Rightarrow> Respond (r\<lparr>rs_headers := cors_send app_cors (rq_headers rq) origin (rs_headers r)\<rparr>)
                  | Handled ep ps _ \<Rightarrow> Handled ep ps (Some origin))))"

section \<open>What the application promises\<close>

text \<open>A response lets the page of \<open>origin\<close> read it with credentials.\<close>

definition cors_grants :: "string \<Rightarrow> (string \<times> string) list \<Rightarrow> bool" where
  "cors_grants origin hs \<longleftrightarrow>
     map_of hs ''access-control-allow-origin'' = Some origin \<and> map_of hs ''access-control-allow-credentials'' = Some ''true''"

section \<open>Lemmas\<close>


lemma path_match_lit_Cons:
  "path_match (PLit l # ts) segs = Some ps \<longleftrightarrow> (\<exists>ss. segs = l # ss \<and> path_match ts ss = Some ps)"
  by (cases segs) auto

lemma path_match_param_Cons:
  "path_match (PParam n # ts) segs = Some ps \<longleftrightarrow>
     (\<exists>s ss qs. segs = s # ss \<and> s \<noteq> [] \<and> path_match ts ss = Some qs \<and> ps = (n, s) # qs)"
  by (cases segs) auto

lemma path_match_Nil: "path_match [] segs = Some ps \<longleftrightarrow> segs = [] \<and> ps = []"
  by (cases segs) auto

lemmas path_match_iffs = path_match_lit_Cons path_match_param_Cons path_match_Nil

lemmas app_route_defs = route_root_def route_search_form_def route_search_lifespan_def
  route_search_person_id_def route_search_person_name_def route_read_person_def route_search_office_def
  route_search_exam_def route_sources_def route_show_map_def route_search_placename_def
  route_search_social_network_def route_search_kinship_def route_about_def route_test_form_def
  route_test_form_post_def

lemma find_full_app_router:
  assumes "r \<in> set app_routes" and "m \<in> set (rt_methods r)"
    and "path_match (compile_path (rt_path r)) segs = Some ps"
  shows "find_full m segs app_router = Some (Route r, ps)"
  using assms unfolding app_routes_def
  by (simp only: list.set insert_iff empty_iff, elim disjE)
    (auto simp: app_router_def fastapi_docs_routes_def starlette_get_def app_routes_def app_route_defs app_get_def app_post_def
      compile_path_def path_segs_def compile_seg_def path_match_iffs)

lemma cors_send_grants:
  assumes "map_of h ''cookie'' \<noteq> None"
  shows "cors_grants origin (cors_send app_cors h origin hs)"
  using assms
  by (simp add: cors_grants_def cors_send_def Let_def app_cors_def cors_allow_all_origins_def
      cors_simple_headers_def allow_explicit_origin_def add_vary_header_def dict_update_lookup update_conv')

lemma cors_preflight_grants: "cors_grants origin (rs_headers (cors_preflight app_cors h origin rm))"
  by (simp add: cors_grants_def cors_preflight_def Let_def app_cors_def cors_allow_all_origins_def
      cors_is_allowed_origin_def cors_explicit_origin_def cors_preflight_headers_def
      cors_allow_all_headers_def map_of_append split: option.split)

lemma static_csv_dispatch:
  "router_dispatch app_router m ''/static/social_network.csv'' = Dispatch (Mount ''/static'') [(''path'', ''social_network.csv'')]"
  by (simp add: router_dispatch_def app_router_def fastapi_docs_routes_def starlette_get_def compile_path_def
      path_segs_def compile_seg_def)

lemma static_html_dispatch:
  "router_dispatch app_router m ''/static/network.html'' = Dispatch (Mount ''/static'') [(''path'', ''network.html'')]"
  by (simp add: router_dispatch_def app_router_def fastapi_docs_routes_def starlette_get_def compile_path_def
      path_segs_def compile_seg_def)

section \<open>Properties of the application\<close>

text \<open>C22: the CORS configuration (every origin, with credentials) lets any web site
  read responses of the application with the user's cookies: for a request that carries
  an \<open>Origin\<close> and a cookie, every response the application gives, and the response of
  every handler as the middleware passes it on, names that origin in
  \<open>Access-Control-Allow-Origin\<close> with \<open>Access-Control-Allow-Credentials: true\<close>.\<close>

theorem cors_credentials_any_origin:
  assumes "map_of (rq_headers rq) ''origin'' = Some origin" and "map_of (rq_headers rq) ''cookie'' \<noteq> None"
  shows "case app_call fs rq of
           Respond r \<Rightarrow> cors_grants origin (rs_headers r)
         | Handled ep ps org \<Rightarrow> org = Some origin \<and> cors_grants origin (cors_send app_cors (rq_headers rq) origin hs)"
  using assms cors_send_grants [OF assms(2)] cors_preflight_grants
  by (auto simp: app_call_def split: outcome.split http_method.split option.split)

theorem cors_credentials_any_origin_witness:
  "case app_call Map.empty
         \<lparr>rq_method = GET, rq_path = ''/about/'', rq_query = [],
          rq_headers = [(''origin'', ''https://site.example''), (''cookie'', ''s=1'')]\<rparr> of
     Respond r \<Rightarrow> cors_grants ''https://site.example'' (rs_headers r)
   | Handled ep ps org \<Rightarrow> org = Some ''https://site.example'' \<and>
       cors_grants ''https://site.example'' (cors_send app_cors [(''origin'', ''https://site.example''), (''cookie'', ''s=1'')] ''https://site.example'' [])"
  using cors_credentials_any_origin [where hs = "[]" and fs = "Map.empty"
      and rq = "\<lparr>rq_method = GET, rq_path = ''/about/'', rq_query = [],
          rq_headers = [(''origin'', ''https://site.example''), (''cookie'', ''s=1'')]\<rparr>"
      and origin = "''https://site.example''"]
  by (simp cong: outcome.case_cong)

text \<open>C23: no route of the application is shadowed: for every decorated route and
  every path its template matches, a request with one of the route's methods is
  dispatched to that route's handler with the template's parameters, past FastAPI's
  documentation routes, the static mount and the routes declared before it.\<close>

theorem app_routes_reachable:
  assumes "r \<in> set app_routes" and "m \<in> set (rt_methods r)"
    and "path_match (compile_path (rt_path r)) (path_segs p) = Some ps"
  shows "router_dispatch app_router m p = Dispatch (Route r) ps"
  using find_full_app_router [OF assms] by (simp add: router_dispatch_def)

theorem app_routes_reachable_witness:
  "router_dispatch app_router GET ''/persons/42'' = Dispatch (Route route_read_person) [(''c_personid'', ''42'')]"
proof -
  have "route_read_person \<in> set app_routes" "GET \<in> set (rt_methods route_read_person)"
    "path_match (compile_path (rt_path route_read_person)) (path_segs ''/persons/42'') = Some [(''c_personid'', ''42'')]"
    by (simp_all add: app_routes_def route_read_person_def app_get_def compile_path_def path_segs_def compile_seg_def)
  then show ?thesis by (rule app_routes_reachable)
qed

text \<open>C28: the search handler and the static mount compose through the files: after
  a search, a \<open>GET\<close> of \<open>/static/social_network.csv\<close> is answered (200, as CSV) with
  the text the handler wrote, which Python's \<open>csv\<close> reader reads back as the header and
  the record of each row of this search, and a \<open>GET\<close> of \<open>/static/network.html\<close>
  with the network built from the same rows.\<close>

theorem search_then_static_csv:
  "\<exists>rows fs' r t nt r'. search_social_network db fs types pid = Some (fs', Some rows) \<and>
     app_call fs' \<lparr>rq_method = GET, rq_path = ''/static/social_network.csv'', rq_query = q, rq_headers = []\<rparr> = Respond r \<and>
     rs_status r = 200 \<and> map_of (rs_headers r) ''content-type'' = Some ''text/csv; charset=utf-8'' \<and>
     rs_body r = FileText t \<and> csv_read t = csv_header # map csv_record rows \<and>
     network_html rows = Some nt \<and>
     app_call fs' \<lparr>rq_method = GET, rq_path = ''/static/network.html'', rq_query = q, rq_headers = []\<rparr> = Respond r' \<and>
     rs_status r' = 200 \<and> rs_body r' = NetworkHtml nt"
proof -
  obtain rows nt where r: "get_social_network_personid db pid (Some types) = Some rows"
    and nt: "network_html rows = Some nt"
    and s: "search_social_network db fs types pid =
       Some (fs(csv_export_path \<mapsto> TextFile (social_network_csv_file rows), html_export_path \<mapsto> NetworkFile nt),
             Some rows)"
    using search_social_network_Some by blast
  have "csv_read (social_network_csv_file rows) = csv_header # map csv_record rows"
    by (rule social_network_csv_roundtrip)
  then show ?thesis using s nt
    by (simp add: app_call_def app_inner_def static_csv_dispatch static_html_dispatch static_files_app_def
        static_directory_def csv_export_path_def html_export_path_def content_type_def guess_media_type_def
        file_body_def suffix_to_prefix)
qed

end
