(* ===== verification/Kinship.thy ===== *)
theory Kinship
  imports Store "HOL-Library.Option_ord" "HOL-Library.Product_Lexorder"
begin

text \<open>
  The kinship search: \<open>search_kinship\<close> of \<open>src/main.py\<close> (lines 293--353). The
  recursive query \<open>kinship_tree\<close> (lines 299--330) starts from the root person at
  depth 0 and follows \<open>KIN_DATA\<close> facts from \<open>c_personid\<close> to \<open>c_kin_id\<close> while the
  depth is below 5 and the kinship code is in the requested list; it has no
  \<open>DISTINCT\<close> and no cycle check, so it holds one node per chain of facts. The final
  select (lines 332--348) left-joins every node with all its kinship facts, of any
  code, and orders by depth and the kin's birth year.
\<close>

section \<open>Rows\<close>

text \<open>A row of the CTE \<open>kinship_tree\<close>, with its six columns.\<close>

record kin_node =
  kt_personid :: person_id
  kt_name :: sql_text
  kt_birth_year :: "int option"
  kt_death_year :: "int option"
  kt_path :: sql_text
  kt_depth :: nat

text \<open>A row of the result, with the eight columns of the final select.\<close>

record kin_row =
  kr_person_name :: sql_text
  kr_person_birth_year :: "int option"
  kr_person_death_year :: "int option"
  kr_kin_id :: "person_id option"
  kr_kin_name :: sql_text
  kr_kin_birth_year :: "int option"
  kr_kin_death_year :: "int option"
  kr_relationship :: sql_text

section \<open>The recursive query\<close>

text \<open>The anchor member (lines 302--310): the root person at depth 0, its path the
  root's name (\<open>CAST(... AS TEXT)\<close> leaves a \<open>NULL\<close> a \<open>NULL\<close>).\<close>

definition kin_seed_node :: "biog_main \<Rightarrow> kin_node" where
  "kin_seed_node bm =
     \<lparr>kt_personid = c_personid bm, kt_name = c_name_chn bm, kt_birth_year = c_birthyear bm,
      kt_death_year = c_deathyear bm, kt_path = c_name_chn bm, kt_depth = 0\<rparr>"

definition kinship_seed :: "cbdb \<Rightarrow> person_id \<Rightarrow> kin_node list" where
  "kinship_seed db pid = [kin_seed_node bm. bm \<leftarrow> BIOG_MAIN db, c_personid bm = pid]"

text \<open>The recursive member (lines 315--329), run on one node \<open>kt\<close>: its kin \<open>k.c_kin_id\<close>
  for every fact of \<open>kt\<close>'s person, inner-joined with the kin's \<open>BIOG_MAIN\<close> row and
  the code's \<open>KINSHIP_CODES\<close> row, while \<open>kt.depth < 5\<close> and the code is in the list.\<close>

definition kin_expand :: "kin_node \<Rightarrow> kin_data \<Rightarrow> biog_main \<Rightarrow> kinship_codes \<Rightarrow> kin_node" where
  "kin_expand kt k bm kc =
     \<lparr>kt_personid = kd_kin_id k, kt_name = c_name_chn bm, kt_birth_year = c_birthyear bm,
      kt_death_year = c_deathyear bm,
      kt_path = sql_concat (sql_concat (kt_path kt) (Some '' -> '')) (kc_kinrel_chn kc),
      kt_depth = kt_depth kt + 1\<rparr>"

definition kinship_step :: "cbdb \<Rightarrow> rel_code list \<Rightarrow> kin_node \<Rightarrow> kin_node list" where
  "kinship_step db types kt =
     [kin_expand kt k bm kc. k \<leftarrow> KIN_DATA db, bm \<leftarrow> BIOG_MAIN db, kc \<leftarrow> KINSHIP_CODES db,
        kt_personid kt = kd_personid k \<and> kd_kin_id k = c_personid bm \<and> kd_kin_code k = kc_kincode kc \<and>
        kt_depth kt < 5 \<and> sql_in (Some (kd_kin_code k)) types]"

definition kinship_tree :: "cbdb \<Rightarrow> rel_code list \<Rightarrow> person_id \<Rightarrow> kin_node list option" where
  "kinship_tree db types pid = cte_queue (kinship_step db types) (kinship_seed db pid)"

section \<open>The final select\<close>

type_synonym kin_join = "((kin_node \<times> kin_data option) \<times> biog_main option) \<times> kinship_codes option"

text \<open>Lines 341--347: the three left joins, none of them filtered by the code list.\<close>

definition kinship_final :: "cbdb \<Rightarrow> kin_node list \<Rightarrow> kin_join list" where
  "kinship_final db tree =
     left_join
       (left_join
          (left_join tree (KIN_DATA db) (\<lambda>kt k. kt_personid kt = kd_personid k))
          (BIOG_MAIN db) (\<lambda>(kt, k) bm. sql_eq (map_option kd_kin_id k) (Some (c_personid bm))))
       (KINSHIP_CODES db) (\<lambda>((kt, k), bm) kc. sql_eq (map_option kd_kin_code k) (Some (kc_kincode kc)))"

text \<open>\<open>ORDER BY kt.depth, bm.c_birthyear\<close> (line 348): SQLite sorts \<open>NULL\<close> first, as
  \<open>Option_ord\<close> orders \<open>None\<close> below every \<open>Some\<close>.\<close>

definition kin_order_key :: "kin_join \<Rightarrow> nat \<times> int option" where
  "kin_order_key j = (case j of (((kt, k), bm), kc) \<Rightarrow> (kt_depth kt, Option.bind bm c_birthyear))"

definition kin_project :: "kin_join \<Rightarrow> kin_row" where
  "kin_project j = (case j of (((kt, k), bm), kc) \<Rightarrow>
     \<lparr>kr_person_name = kt_name kt, kr_person_birth_year = kt_birth_year kt,
      kr_person_death_year = kt_death_year kt, kr_kin_id = map_option kd_kin_id k,
      kr_kin_name = Option.bind bm c_name_chn, kr_kin_birth_year = Option.bind bm c_birthyear,
      kr_kin_death_year = Option.bind bm c_deathyear, kr_relationship = Option.bind kc kc_kinrel_chn\<rparr>)"

definition search_kinship :: "cbdb \<Rightarrow> person_id \<Rightarrow> rel_code list \<Rightarrow> kin_row list option" where
  "search_kinship db pid types =
     map_option (\<lambda>tree. map kin_project (sort_key kin_order_key (kinship_final db tree)))
       (kinship_tree db types pid)"

section \<open>The abstract specification: chains of kinship facts\<close>

text \<open>A fact the recursive member may follow from person \<open>u\<close>: its kin is a person of the
  store and its code is in the list and in the code table.\<close>

definition kin_fact_ok :: "cbdb \<Rightarrow> rel_code list \<Rightarrow> person_id \<Rightarrow> kin_data \<Rightarrow> bool" where
  "kin_fact_ok db types u k \<longleftrightarrow>
     kd_personid k = u \<and> kd_kin_id k \<in> set (map c_personid (BIOG_MAIN db)) \<and>
     kd_kin_code k \<in> set types \<and> kd_kin_code k \<in> set (map kc_kincode (KINSHIP_CODES db))"

definition kin_walk_end :: "person_id \<Rightarrow> kin_data list \<Rightarrow> person_id" where
  "kin_walk_end pid w = (if w = [] then pid else kd_kin_id (last w))"

text \<open>The chains of \<open>d\<close> facts from the root, each fact taken from the \<open>KIN_DATA\<close> list
  (a fact listed twice gives two chains).\<close>

fun kin_walks :: "cbdb \<Rightarrow> rel_code list \<Rightarrow> person_id \<Rightarrow> nat \<Rightarrow> kin_data list list" where
  "kin_walks db types pid 0 = [[]]"
| "kin_walks db types pid (Suc d) =
     [w @ [k]. w \<leftarrow> kin_walks db types pid d, k \<leftarrow> KIN_DATA db, kin_fact_ok db types (kin_walk_end pid w) k]"

text \<open>What the specification counts of a node of the CTE: its person and its depth.\<close>

definition kin_node_key :: "kin_node \<Rightarrow> person_id \<times> nat" where
  "kin_node_key kt = (kt_personid kt, kt_depth kt)"

section \<open>Fixture\<close>

text \<open>\<open>kin_db\<close>: person 1 is the father (code 75) of 2 and 2 of 3; each fact is recorded
  in both directions (code 180, son), as CBDB records kinship.\<close>

definition kin_person :: "person_id \<Rightarrow> string \<Rightarrow> int \<Rightarrow> biog_main" where
  "kin_person i nm y =
     \<lparr>c_personid = i, c_name = Some nm, c_name_chn = Some nm,
      c_birthyear = Some y, c_deathyear = None, c_female = 0\<rparr>"

definition kin_db :: cbdb where
  "kin_db =
     \<lparr>BIOG_MAIN = [kin_person 1 ''A'' 1000, kin_person 2 ''B'' 1030, kin_person 3 ''C'' 1060],
      ASSOC_DATA = [], ASSOC_CODES = [],
      KIN_DATA = [\<lparr>kd_personid = 2, kd_kin_id = 1, kd_kin_code = 75\<rparr>,
                  \<lparr>kd_personid = 1, kd_kin_id = 2, kd_kin_code = 180\<rparr>,
                  \<lparr>kd_personid = 3, kd_kin_id = 2, kd_kin_code = 75\<rparr>,
                  \<lparr>kd_personid = 2, kd_kin_id = 3, kd_kin_code = 180\<rparr>],
      KINSHIP_CODES = [\<lparr>kc_kincode = 75, kc_kinrel_chn = Some ''F''\<rparr>,
                       \<lparr>kc_kincode = 180, kc_kinrel_chn = Some ''S''\<rparr>]\<rparr>"

section \<open>Lemmas on the recursive query\<close>

lemma kin_expand_simps [simp]:
  "kt_personid (kin_expand kt k bm kc) = kd_kin_id k" "kt_depth (kin_expand kt k bm kc) = Suc (kt_depth kt)"
  "kt_name (kin_expand kt k bm kc) = c_name_chn bm"
  by (simp_all add: kin_expand_def)

lemma kin_seed_node_simps [simp]:
  "kt_personid (kin_seed_node bm) = c_personid bm" "kt_depth (kin_seed_node bm) = 0"
  "kt_name (kin_seed_node bm) = c_name_chn bm"
  by (simp_all add: kin_seed_node_def)

lemma kinship_step_set:
  "r \<in> set (kinship_step db types kt) \<longleftrightarrow>
     (\<exists>k bm kc. k \<in> set (KIN_DATA db) \<and> bm \<in> set (BIOG_MAIN db) \<and> kc \<in> set (KINSHIP_CODES db) \<and>
        kt_personid kt = kd_personid k \<and> kd_kin_id k = c_personid bm \<and> kd_kin_code k = kc_kincode kc \<and>
        kt_depth kt < 5 \<and> kd_kin_code k \<in> set types \<and> r = kin_expand kt k bm kc)"
  by (auto simp: kinship_step_def)

lemma kinship_step_depth:
  "r \<in> set (kinship_step db types kt) \<Longrightarrow> kt_depth r = Suc (kt_depth kt) \<and> kt_depth kt < 5"
  by (auto simp: kinship_step_set)

lemma kinship_seed_set:
  "kt \<in> set (kinship_seed db pid) \<longleftrightarrow> (\<exists>bm \<in> set (BIOG_MAIN db). c_personid bm = pid \<and> kt = kin_seed_node bm)"
  by (auto simp: kinship_seed_def)

lemma kinship_tree_mset:
  "\<exists>tree. kinship_tree db types pid = Some tree \<and>
     mset tree = mset (concat (map (cte_tree (kinship_step db types) 5) (kinship_seed db pid)))"
proof -
  have dec: "\<And>r r'. r' \<in> set (kinship_step db types r) \<Longrightarrow> 5 - kt_depth r' < 5 - kt_depth r"
    by (auto dest: kinship_step_depth)
  obtain out where out: "cte_queue (kinship_step db types) (kinship_seed db pid) = Some out"
    and m: "mset out = mset (concat (map (\<lambda>r. cte_tree (kinship_step db types) (5 - kt_depth r) r)
                                   (kinship_seed db pid)))"
    using cte_queue_mset [where step = "kinship_step db types" and h = "\<lambda>r. 5 - kt_depth r", OF dec] by blast
  have "map (\<lambda>r. cte_tree (kinship_step db types) (5 - kt_depth r) r) (kinship_seed db pid) =
        map (cte_tree (kinship_step db types) 5) (kinship_seed db pid)"
    by (rule map_cong [OF refl]) (auto simp: kinship_seed_set)
  with m have "mset out = mset (concat (map (cte_tree (kinship_step db types) 5) (kinship_seed db pid)))"
    by (simp only:)
  with out show ?thesis unfolding kinship_tree_def by blast
qed

lemma kinship_step_fact_keys:
  assumes "db_keys_unique db"
  shows "concat (map (\<lambda>bm. concat (map (\<lambda>kc. map kin_node_key
            (if kt_personid kt = kd_personid k \<and> kd_kin_id k = c_personid bm \<and>
                kd_kin_code k = kc_kincode kc \<and> kd_kin_code k \<in> set types
             then [kin_expand kt k bm kc] else [])) (KINSHIP_CODES db))) (BIOG_MAIN db)) =
         (if kin_fact_ok db types (kt_personid kt) k then [(kd_kin_id k, Suc (kt_depth kt))] else [])"
    (is "?lhs = ?rhs")
proof -
  let ?x = "(kd_kin_id k, Suc (kt_depth kt))"
  let ?A = "kt_personid kt = kd_personid k \<and> kd_kin_code k \<in> set types"
  let ?C = "kd_kin_code k \<in> set (map kc_kincode (KINSHIP_CODES db))"
  have uc: "distinct (map kc_kincode (KINSHIP_CODES db))" and ub: "distinct (map c_personid (BIOG_MAIN db))"
    using assms by (simp_all add: db_keys_unique_def)
  have inner: "concat (map (\<lambda>kc. map kin_node_key
            (if kt_personid kt = kd_personid k \<and> kd_kin_id k = c_personid bm \<and>
                kd_kin_code k = kc_kincode kc \<and> kd_kin_code k \<in> set types
             then [kin_expand kt k bm kc] else [])) (KINSHIP_CODES db)) =
        replicate (if ?A \<and> kd_kin_id k = c_personid bm \<and> ?C then 1 else 0) ?x" for bm
  proof -
    have "concat (map (\<lambda>kc. map kin_node_key
            (if kt_personid kt = kd_personid k \<and> kd_kin_id k = c_personid bm \<and>
                kd_kin_code k = kc_kincode kc \<and> kd_kin_code k \<in> set types
             then [kin_expand kt k bm kc] else [])) (KINSHIP_CODES db)) =
          concat (map (\<lambda>kc. if ?A \<and> kd_kin_id k = c_personid bm \<and> kc_kincode kc = kd_kin_code k
             then [?x] else []) (KINSHIP_CODES db))"
      by (rule arg_cong [where f = concat], rule map_cong) (auto simp: kin_node_key_def)
    also have "\<dots> = replicate (if ?A \<and> kd_kin_id k = c_personid bm
        then length (filter (\<lambda>kc. kc_kincode kc = kd_kin_code k) (KINSHIP_CODES db)) else 0) ?x"
      unfolding concat_map_if_single by (auto simp: filter_empty_conv)
    finally show ?thesis using distinct_filter_key_length [OF uc, of "kd_kin_code k"] by simp
  qed
  have "?lhs = replicate (\<Sum>bm\<leftarrow>BIOG_MAIN db. if ?A \<and> kd_kin_id k = c_personid bm \<and> ?C then 1 else 0) ?x"
    unfolding inner concat_map_replicate ..
  also have "\<dots> = replicate (if ?A \<and> ?C then length (filter (\<lambda>bm. c_personid bm = kd_kin_id k) (BIOG_MAIN db)) else 0) ?x"
    unfolding sum_list_map_indicator by (auto simp: eq_commute [of "kd_kin_id k"])
  also have "\<dots> = ?rhs"
    using distinct_filter_key_length [OF ub, of "kd_kin_id k"] by (auto simp: kin_fact_ok_def)
  finally show ?thesis .
qed

lemma kinship_step_keys:
  assumes "db_keys_unique db" and "kt_depth kt < 5"
  shows "map kin_node_key (kinship_step db types kt) =
           [(kd_kin_id k, Suc (kt_depth kt)). k \<leftarrow> KIN_DATA db, kin_fact_ok db types (kt_personid kt) k]"
  using assms(2)
  apply (simp add: kinship_step_def map_concat comp_def)
  by (rule arg_cong [where f = concat], rule map_cong [OF refl]) (rule kinship_step_fact_keys [OF assms(1)])

lemma kinship_seed_filter: "kinship_seed db pid = map kin_seed_node (filter (\<lambda>bm. c_personid bm = pid) (BIOG_MAIN db))"
  by (simp add: kinship_seed_def concat_map_if_filter)

lemma kinship_seed_keys:
  "map kin_node_key (kinship_seed db pid) = replicate (length (kinship_seed db pid)) (pid, 0)"
  unfolding kinship_seed_filter map_map length_map by (rule map_filter_const) (simp add: kin_node_key_def)

lemma length_kinship_seed:
  "db_keys_unique db \<Longrightarrow> length (kinship_seed db pid) = (if pid \<in> person_ids db then 1 else 0)"
  using distinct_filter_key_length [of c_personid "BIOG_MAIN db" pid]
  by (simp add: kinship_seed_filter db_keys_unique_def person_ids_def)

lemma kinship_layer_depth:
  "kt \<in> set (cte_layer (kinship_step db types) d (kinship_seed db pid)) \<Longrightarrow> kt_depth kt = d"
  by (induction d arbitrary: kt) (auto simp: kinship_seed_set dest: kinship_step_depth)

lemma kin_walk_end_snoc [simp]: "kin_walk_end pid (w @ [k]) = kd_kin_id k"
  by (simp add: kin_walk_end_def)

lemma kinship_layer_keys:
  assumes uniq: "db_keys_unique db" and "d \<le> 5"
  shows "map kin_node_key (cte_layer (kinship_step db types) d (kinship_seed db pid)) =
           concat (replicate (length (kinship_seed db pid))
             (map (\<lambda>w. (kin_walk_end pid w, d)) (kin_walks db types pid d)))"
  using assms(2)
proof (induction d)
  case 0
  show ?case by (simp add: kinship_seed_keys kin_walk_end_def concat_replicate_single)
next
  case (Suc d)
  let ?L = "cte_layer (kinship_step db types) d (kinship_seed db pid)"
  let ?n = "length (kinship_seed db pid)"
  let ?g = "\<lambda>(u, e). [(kd_kin_id k, Suc e). k \<leftarrow> KIN_DATA db, kin_fact_ok db types u k]"
  have "map kin_node_key (cte_layer (kinship_step db types) (Suc d) (kinship_seed db pid)) =
        concat (map (\<lambda>kt. map kin_node_key (kinship_step db types kt)) ?L)"
    by (simp add: map_concat comp_def)
  also have "\<dots> = concat (map (\<lambda>kt. ?g (kin_node_key kt)) ?L)"
  proof (rule arg_cong [where f = concat], rule map_cong [OF refl])
    fix kt
    assume "kt \<in> set ?L"
    then have "kt_depth kt = d" by (rule kinship_layer_depth)
    with Suc.prems have "kt_depth kt < 5" by simp
    show "map kin_node_key (kinship_step db types kt) = ?g (kin_node_key kt)"
      unfolding kinship_step_keys [OF uniq \<open>kt_depth kt < 5\<close>] by (simp add: kin_node_key_def)
  qed
  also have "\<dots> = concat (map ?g (map kin_node_key ?L))"
    by (simp only: map_map comp_def)
  also have "\<dots> = concat (map ?g (concat (replicate ?n (map (\<lambda>w. (kin_walk_end pid w, d)) (kin_walks db types pid d)))))"
  proof -
    have "d \<le> 5" using Suc.prems by simp
    show ?thesis unfolding Suc.IH [OF \<open>d \<le> 5\<close>] ..
  qed
  also have "\<dots> = concat (replicate ?n (map (\<lambda>w. (kin_walk_end pid w, Suc d)) (kin_walks db types pid (Suc d))))"
    unfolding concat_map_concat_replicate by (simp add: map_concat comp_def map_if_single cong: if_cong)
  finally show ?case .
qed

lemma kinship_layer_count:
  assumes "db_keys_unique db" and "e \<le> 5"
  shows "count (mset (map kin_node_key (cte_layer (kinship_step db types) e (kinship_seed db pid)))) (x, d) =
           (if e = d \<and> pid \<in> person_ids db
            then length (filter (\<lambda>w. kin_walk_end pid w = x) (kin_walks db types pid d)) else 0)"
  unfolding kinship_layer_keys [OF assms] count_mset_concat_replicate count_mset_map_pair
    length_kinship_seed [OF assms(1)]
  by simp

lemma kinship_search_Some:
  "\<exists>tree. kinship_tree db types pid = Some tree \<and>
     search_kinship db pid types = Some (map kin_project (sort_key kin_order_key (kinship_final db tree)))"
  using kinship_tree_mset [of db types pid] by (auto simp: search_kinship_def)

lemma kin_order_key_columns:
  "(\<lambda>j. (kt_depth (fst (fst (fst j))), kr_kin_birth_year (kin_project j))) = kin_order_key"
  by (auto simp: fun_eq_iff kin_order_key_def kin_project_def split: prod.splits)

lemma kinship_final_length:
  assumes "db_keys_unique db"
  shows "length (kinship_final db tree) =
           sum_list (map (\<lambda>kt. max 1 (length (filter (\<lambda>k. kt_personid kt = kd_personid k) (KIN_DATA db)))) tree)"
proof -
  have uc: "distinct (map kc_kincode (KINSHIP_CODES db))" and ub: "distinct (map c_personid (BIOG_MAIN db))"
    using assms by (simp_all add: db_keys_unique_def)
  let ?L1 = "left_join tree (KIN_DATA db) (\<lambda>kt k. kt_personid kt = kd_personid k)"
  let ?L2 = "left_join ?L1 (BIOG_MAIN db) (\<lambda>(kt, k) bm. sql_eq (map_option kd_kin_id k) (Some (c_personid bm)))"
  have "length ?L2 = length ?L1"
    by (rule left_join_length_functional) (use distinct_filter_sql_eq [OF ub] in \<open>auto simp del: sql_eq_iff\<close>)
  moreover have "length (kinship_final db tree) = length ?L2"
    unfolding kinship_final_def
    by (rule left_join_length_functional) (use distinct_filter_sql_eq [OF uc] in \<open>auto simp del: sql_eq_iff\<close>)
  ultimately show ?thesis by (simp add: left_join_length)
qed

section \<open>Properties of the kinship search\<close>

text \<open>C17: the kinship query returns on every store, root and code list, although kinship facts are recorded in both directions and so form cycles: the guard \<open>kt.depth < 5\<close> bounds the recursion.\<close>

theorem search_kinship_returns:
  "\<exists>rows. search_kinship db pid types = Some rows"
  using kinship_search_Some [of db types pid] by blast

text \<open>C18: the recursive query refines the chains of kinship facts: with unique keys, the number of nodes of \<open>kinship_tree\<close> for person \<open>x\<close> at depth \<open>d\<close> is the number of chains of \<open>d\<close> allowed facts from the root ending at \<open>x\<close>, for \<open>d \<le> 5\<close>, and zero beyond (or when the root is unknown). No cycle is cut and no duplicate removed: the root comes back at every even depth when facts are recorded both ways.\<close>

theorem kinship_tree_walks:
  assumes "db_keys_unique db"
  shows "\<exists>tree. kinship_tree db types pid = Some tree \<and>
           (\<forall>x d. count (mset (map kin_node_key tree)) (x, d) =
              (if d \<le> 5 \<and> pid \<in> person_ids db
               then length (filter (\<lambda>w. kin_walk_end pid w = x) (kin_walks db types pid d)) else 0))"
proof -
  obtain tree where t: "kinship_tree db types pid = Some tree"
    and m: "mset tree = mset (concat (map (cte_tree (kinship_step db types) 5) (kinship_seed db pid)))"
    using kinship_tree_mset by blast
  have "mset (map kin_node_key tree) =
        (\<Sum>e\<le>5. image_mset kin_node_key (mset (cte_layer (kinship_step db types) e (kinship_seed db pid))))"
    unfolding mset_map m cte_tree_layers image_mset_sum_atMost ..
  then have "count (mset (map kin_node_key tree)) (x, d) =
        (\<Sum>e\<le>5. if e = d \<and> pid \<in> person_ids db
            then length (filter (\<lambda>w. kin_walk_end pid w = x) (kin_walks db types pid d)) else 0)" for x d
    using kinship_layer_count [OF assms] by (simp add: count_sum flip: mset_map)
  then show ?thesis using t by (auto simp: sum.If_cases)
qed

theorem kinship_tree_walks_witness:
  "db_keys_unique kin_db \<and>
   (\<exists>tree. kinship_tree kin_db [75, 180] 1 = Some tree \<and>
      count (mset (map kin_node_key tree)) (1, 2) = 1 \<and> count (mset (map kin_node_key tree)) (1, 4) = 2)"
proof -
  have u: "db_keys_unique kin_db" by (simp add: db_keys_unique_def kin_db_def kin_person_def)
  have p: "(1::person_id) \<in> person_ids kin_db" by (simp add: person_ids_def kin_db_def kin_person_def)
  have c2: "length (filter (\<lambda>w. kin_walk_end 1 w = 1) (kin_walks kin_db [75, 180] 1 2)) = 1" by code_simp
  have c4: "length (filter (\<lambda>w. kin_walk_end 1 w = 1) (kin_walks kin_db [75, 180] 1 4)) = 2" by code_simp
  from kinship_tree_walks [OF u, of "[75, 180]" 1] obtain tree where
    t: "kinship_tree kin_db [75, 180] 1 = Some tree" and
    n: "\<forall>x d. count (mset (map kin_node_key tree)) (x, d) =
          (if d \<le> 5 \<and> 1 \<in> person_ids kin_db
           then length (filter (\<lambda>w. kin_walk_end 1 w = x) (kin_walks kin_db [75, 180] 1 d)) else 0)"
    by blast
  show ?thesis using u t n p c2 c4 by auto
qed

text \<open>C19: with unique keys, the result has one row per kinship fact of each node of the tree, and one row for a node without facts: the final left join multiplies the rows.\<close>

theorem kinship_rows_count:
  assumes "db_keys_unique db"
  shows "\<exists>tree rows. kinship_tree db types pid = Some tree \<and> search_kinship db pid types = Some rows \<and>
           length rows = sum_list (map (\<lambda>kt. max 1 (length (filter (\<lambda>k. kt_personid kt = kd_personid k) (KIN_DATA db)))) tree)"
  using kinship_search_Some [of db types pid] kinship_final_length [OF assms] by fastforce

theorem kinship_rows_count_witness:
  "db_keys_unique kin_db \<and>
   (\<exists>rows. search_kinship kin_db 1 [180] = Some rows \<and> length rows = 4)"
proof -
  have u: "db_keys_unique kin_db" by (simp add: db_keys_unique_def kin_db_def kin_person_def)
  define T where "T = the (kinship_tree kin_db [180] 1)"
  have t: "kinship_tree kin_db [180] 1 = Some T" unfolding T_def by code_simp
  have s: "sum_list (map (\<lambda>kt. max 1 (length (filter (\<lambda>k. kt_personid kt = kd_personid k) (KIN_DATA kin_db)))) T) = 4"
    unfolding T_def by code_simp
  from kinship_rows_count [OF u, of "[180]" 1] t s show ?thesis using u by auto
qed

text \<open>C20: the final select is not filtered by the code list: every fact of a node of the tree gives a row, whatever its code.\<close>

theorem kinship_final_unfiltered:
  assumes "kinship_tree db types pid = Some tree" and "kt \<in> set tree"
    and "k \<in> set (KIN_DATA db)" and "kd_personid k = kt_personid kt"
  shows "\<exists>rows. search_kinship db pid types = Some rows \<and>
           (\<exists>r \<in> set rows. kr_person_name r = kt_name kt \<and> kr_kin_id r = Some (kd_kin_id k))"
proof -
  have "(kt, Some k) \<in> set (left_join tree (KIN_DATA db) (\<lambda>kt k. kt_personid kt = kd_personid k))"
    using assms(2-4) by (auto simp: left_join_set)
  then obtain bm where "((kt, Some k), bm) \<in> set (left_join
      (left_join tree (KIN_DATA db) (\<lambda>kt k. kt_personid kt = kd_personid k))
      (BIOG_MAIN db) (\<lambda>(kt, k) bm. sql_eq (map_option kd_kin_id k) (Some (c_personid bm))))"
    by (meson left_join_fst)
  then obtain kc where "(((kt, Some k), bm), kc) \<in> set (kinship_final db tree)"
    unfolding kinship_final_def by (meson left_join_fst)
  then have "kin_project (((kt, Some k), bm), kc) \<in> set (map kin_project (sort_key kin_order_key (kinship_final db tree)))"
    by simp
  then show ?thesis using assms(1) by (force simp: search_kinship_def kin_project_def)
qed

theorem kinship_final_unfiltered_witness:
  "(\<exists>tree. kinship_tree kin_db [180] 1 = Some tree \<and>
      \<lparr>kt_personid = 2, kt_name = Some ''B'', kt_birth_year = Some 1030, kt_death_year = None,
       kt_path = Some ''A -> S'', kt_depth = 1\<rparr> \<in> set tree) \<and>
   \<lparr>kd_personid = 2, kd_kin_id = 1, kd_kin_code = 75\<rparr> \<in> set (KIN_DATA kin_db) \<and> (75::rel_code) \<notin> set [180] \<and>
   (\<exists>rows. search_kinship kin_db 1 [180] = Some rows \<and>
      (\<exists>r \<in> set rows. kr_person_name r = Some ''B'' \<and> kr_kin_id r = Some 1))"
proof -
  let ?kt = "\<lparr>kt_personid = 2, kt_name = Some ''B'', kt_birth_year = Some 1030, kt_death_year = None,
       kt_path = Some ''A -> S'', kt_depth = 1\<rparr>"
  let ?k = "\<lparr>kd_personid = 2, kd_kin_id = 1, kd_kin_code = 75\<rparr>"
  define T where "T = the (kinship_tree kin_db [180] 1)"
  have t: "kinship_tree kin_db [180] 1 = Some T" unfolding T_def by code_simp
  have m: "?kt \<in> set T" unfolding T_def by code_simp
  have k: "?k \<in> set (KIN_DATA kin_db)" by (simp add: kin_db_def)
  from kinship_final_unfiltered [OF t m k] show ?thesis using t m k by auto
qed

text \<open>C21: the result is the projection of a permutation of the final join that is sorted by the depth of the tree node first and then by the birth year of the kin as the row reports it, \<open>NULL\<close> first (\<open>ORDER BY kt.depth, bm.c_birthyear\<close>).\<close>

theorem kinship_rows_sorted:
  "\<exists>tree js. kinship_tree db types pid = Some tree \<and> search_kinship db pid types = Some (map kin_project js) \<and>
     mset js = mset (kinship_final db tree) \<and>
     sorted (map (\<lambda>j. (kt_depth (fst (fst (fst j))), kr_kin_birth_year (kin_project j))) js)"
proof -
  obtain tree where t: "kinship_tree db types pid = Some tree"
    and s: "search_kinship db pid types = Some (map kin_project (sort_key kin_order_key (kinship_final db tree)))"
    using kinship_search_Some [of db types pid] by blast
  show ?thesis
    using t s by (auto simp: kin_order_key_columns intro!: exI [of _ "sort_key kin_order_key _"])
qed

text \<open>An empty code list (\<open>IN ()\<close>) stops the recursion at the root: the result is the facts of the root alone, of every code, left-joined.\<close>

theorem kinship_empty_types:
  "search_kinship db pid [] =
     Some (map kin_project (sort_key kin_order_key (kinship_final db (kinship_seed db pid))))"
proof -
  have "kinship_step db [] kt = []" for kt by (simp add: kinship_step_def)
  then show ?thesis by (simp add: search_kinship_def kinship_tree_def cte_queue_no_step)
qed

text \<open>A root id that is no person of the store yields an empty result.\<close>

theorem kinship_unknown_root:
  assumes "pid \<notin> person_ids db"
  shows "search_kinship db pid types = Some []"
proof -
  have "kinship_seed db pid = []"
    using assms by (auto simp: kinship_seed_def person_ids_def concat_map_if_filter filter_empty_conv)
  then show ?thesis by (simp add: search_kinship_def kinship_tree_def kinship_final_def left_join_def)
qed

theorem kinship_unknown_root_witness:
  "(9::person_id) \<notin> person_ids kin_db \<and> search_kinship kin_db 9 [75, 180] = Some []"
proof -
  have "(9::person_id) \<notin> person_ids kin_db" by (simp add: person_ids_def kin_db_def kin_person_def)
  with kinship_unknown_root [OF this] show ?thesis by simp
qed

end
