(* ===== verification/Lookup.thy ===== *)
theory Lookup
  imports Complex_Main Like Store
begin

text \<open>
  The lookup endpoints of \<open>src/main.py\<close>: the search form (lines 41--51), the lifespan
  search (55--66), the person lookups (68--99) and the substring searches on offices,
  examinations and places (102--169), and the two pages that compute something:
  \<open>/sources/\<close> (140--145) and the answer of \<open>test_form_post\<close> (362--380). Each runs fixed \<open>SELECT\<close>s on the store; the
  tables they read beyond those of \<open>Store\<close> are added by a record extension. The text
  normaliser \<open>zhconv.convert\<close> is an argument \<open>conv\<close> of the model: the code only
  passes the search key through it. Texts are strings; a non-ASCII literal of the
  source is written by its UTF-8 bytes, which preserves Python's string equality.
\<close>

section \<open>The further tables\<close>

record office_codes =
  oc_office_id :: int
  oc_office_chn :: sql_text

record posted_to_office_data =
  po_personid :: person_id
  po_office_id :: int

record addresses =
  ad_addr_id :: int
  ad_name_chn :: sql_text
  ad_x_coord :: "rat option"
  ad_y_coord :: "rat option"

record biog_addr_data =
  ba_personid :: person_id
  ba_addr_id :: int
  ba_addr_type :: int

record entry_data =
  en_personid :: person_id
  en_entry_code :: int
  en_year :: "int option"

record entry_codes =
  ec_entry_code :: int
  ec_entry_desc_chn :: sql_text

record altname_data =
  an_personid :: person_id
  an_alt_name_chn :: sql_text

record text_codes =
  tc_textid :: int
  tc_title_chn :: sql_text

record biog_text_data =
  bt_personid :: person_id
  bt_textid :: int

record cbdb_full = cbdb +
  OFFICE_CODES :: "office_codes list"
  POSTED_TO_OFFICE_DATA :: "posted_to_office_data list"
  ADDRESSES :: "addresses list"
  BIOG_ADDR_DATA :: "biog_addr_data list"
  ENTRY_DATA :: "entry_data list"
  ENTRY_CODES :: "entry_codes list"
  ALTNAME_DATA :: "altname_data list"
  TEXT_CODES :: "text_codes list"
  BIOG_TEXT_DATA :: "biog_text_data list"

section \<open>The search form\<close>

text \<open>Lines 44--51: the association codes with their Chinese descriptions, all but the
  first two rows (\<open>[2:]\<close>, in scan order), and the kinship codes above 1.\<close>

definition search_form :: "cbdb_full \<Rightarrow> (rel_code \<times> sql_text) list \<times> (rel_code \<times> sql_text) list" where
  "search_form db =
     (drop 2 [(ac_assoc_code a, ac_assoc_desc_chn a). a \<leftarrow> ASSOC_CODES db],
      [(kc_kincode k, kc_kinrel_chn k). k \<leftarrow> KINSHIP_CODES db, 1 < kc_kincode k])"

section \<open>The lifespan search\<close>

text \<open>The form's label for men, the character U+7537, in UTF-8.\<close>

definition male_label :: string where
  "male_label = [CHR 0xE7, CHR 0x94, CHR 0xB7]"

text \<open>Lines 58--61: \<open>g = 0\<close> for the male label, \<open>g = 1\<close> for any other string.\<close>

definition gender_code :: "string \<Rightarrow> int" where
  "gender_code gender = (if gender = male_label then 0 else 1)"

text \<open>The \<open>WHERE\<close> clause of line 62; a comparison with a \<open>NULL\<close> year is not true.\<close>

definition lifespan_ok :: "int \<Rightarrow> int \<Rightarrow> int \<Rightarrow> biog_main \<Rightarrow> bool" where
  "lifespan_ok min_age max_age g p \<longleftrightarrow>
     (case (c_birthyear p, c_deathyear p) of
        (Some b, Some d) \<Rightarrow> d > 0 \<and> b > 0 \<and> min_age \<le> d - b \<and> d - b \<le> max_age \<and> c_female p = g
      | _ \<Rightarrow> False)"

definition search_lifespan :: "cbdb_full \<Rightarrow> int \<Rightarrow> int \<Rightarrow> string \<Rightarrow> biog_main list" where
  "search_lifespan db min_age max_age gender =
     filter (lifespan_ok min_age max_age (gender_code gender)) (BIOG_MAIN db)"

section \<open>Person lookups\<close>

text \<open>\<open>fetchone()\<close>: the first row in scan order, or \<open>None\<close>.\<close>

definition fetch_person :: "cbdb_full \<Rightarrow> person_id \<Rightarrow> biog_main option" where
  "fetch_person db pid = find (\<lambda>p. c_personid p = pid) (BIOG_MAIN db)"

text \<open>\<open>read_person\<close> (lines 91--99): the JSON object of the person, or the message.\<close>

datatype read_person_result =
    PersonNotFound
  | PersonJson person_id sql_text "int option" "int option"

definition read_person :: "cbdb_full \<Rightarrow> person_id \<Rightarrow> read_person_result" where
  "read_person db pid =
     (case fetch_person db pid of
        None \<Rightarrow> PersonNotFound
      | Some p \<Rightarrow> PersonJson (c_personid p) (c_name_chn p) (c_birthyear p) (c_deathyear p))"

text \<open>\<open>search_person_id\<close> (lines 68--80): the person, the alternative names, the
  distinct birth places (addresses of type 1) and the works of the person.\<close>

record person_info =
  pi_person :: "biog_main option"
  pi_alt_names :: "altname_data list"
  pi_birth_places :: "(sql_text \<times> rat option \<times> rat option) list"
  pi_works :: "(biog_text_data \<times> text_codes) list"

definition search_person_id :: "cbdb_full \<Rightarrow> person_id \<Rightarrow> person_info" where
  "search_person_id db pid =
     \<lparr>pi_person = fetch_person db pid,
      pi_alt_names = filter (\<lambda>a. an_personid a = pid) (ALTNAME_DATA db),
      pi_birth_places = sql_distinct
        [(ad_name_chn a, ad_x_coord a, ad_y_coord a). a \<leftarrow> ADDRESSES db,
           ad_addr_id a \<in> set [ba_addr_id b. b \<leftarrow> BIOG_ADDR_DATA db, ba_addr_type b = 1 \<and> ba_personid b = pid]],
      pi_works = [(b, t). b \<leftarrow> BIOG_TEXT_DATA db, t \<leftarrow> TEXT_CODES db,
                   bt_textid b = tc_textid t \<and> bt_personid b = pid]\<rparr>"

text \<open>\<open>search_person_name\<close> (lines 82--89): exact match on the converted name.\<close>

definition search_person_name :: "(string \<Rightarrow> string) \<Rightarrow> cbdb_full \<Rightarrow> string \<Rightarrow> biog_main list" where
  "search_person_name conv db name = filter (\<lambda>p. sql_eq (c_name_chn p) (Some (conv name))) (BIOG_MAIN db)"

section \<open>Substring searches\<close>



text \<open>\<open>search_exam\<close> (lines 125--137): every entry joined with its person, in the
  year range \<open>[start, end)\<close>, whose entry code has a description containing the key.\<close>

definition search_exam ::
  "(string \<Rightarrow> string) \<Rightarrow> cbdb_full \<Rightarrow> string \<Rightarrow> int \<Rightarrow> int \<Rightarrow> (entry_data \<times> biog_main) list" where
  "search_exam conv db exam start_year end_year =
     (let key = conv exam
      in [(e, b). e \<leftarrow> ENTRY_DATA db, b \<leftarrow> BIOG_MAIN db,
            en_personid e = c_personid b \<and>
            (case en_year e of None \<Rightarrow> False | Some y \<Rightarrow> start_year \<le> y \<and> y < end_year) \<and>
            en_entry_code e \<in> set [ec_entry_code c. c \<leftarrow> ENTRY_CODES db,
                                     sql_like (ec_entry_desc_chn c) (contains_pattern key)]])"

text \<open>\<open>search_placename\<close> (lines 154--169): the persons with an address whose name
  contains the key.\<close>

definition search_placename :: "(string \<Rightarrow> string) \<Rightarrow> cbdb_full \<Rightarrow> string \<Rightarrow> biog_main list" where
  "search_placename conv db placename =
     (let key = conv placename
      in filter (\<lambda>p. c_personid p \<in> set [ba_personid b. b \<leftarrow> BIOG_ADDR_DATA db,
                      ba_addr_id b \<in> set [ad_addr_id a. a \<leftarrow> ADDRESSES db,
                                            sql_like (ad_name_chn a) (contains_pattern key)]])
           (BIOG_MAIN db))"

section \<open>Pages\<close>

text \<open>\<open>source\<close> (lines 140--145): every row of \<open>text_codes\<close>.\<close>

definition sources_page :: "cbdb_full \<Rightarrow> text_codes list" where
  "sources_page db = TEXT_CODES db"

text \<open>\<open>test_form_post\<close> (lines 362--380): the page returned for a submitted name, the
  converted name placed into the HTML text as it is. The f-string's text before and after
  the name, line by line.\<close>

definition form_page_head :: string where
  "form_page_head =
     concat (map (\<lambda>l. l @ [CHR 0x0A])
       [[], ''    <html>'', ''    <head>'', ''        <title>Form Submission</title>'', ''    </head>'',
        ''    <body>'', ''        <h1>Form Submitted</h1>'']) @ ''        <p>Name: ''"

definition form_page_tail :: string where
  "form_page_tail =
     ''</p>'' @ [CHR 0x0A] @
     concat (map (\<lambda>l. l @ [CHR 0x0A])
       [''        <a href='' @ [CHR 0x22] @ ''/test-form'' @ [CHR 0x22] @ ''>Go back</a>'',
        ''    </body>'', ''    </html>'']) @ ''    ''"

definition test_form_post :: "(string \<Rightarrow> string) \<Rightarrow> string \<Rightarrow> string" where
  "test_form_post conv name = form_page_head @ conv name @ form_page_tail"

section \<open>Fixture\<close>

text \<open>\<open>lookup_db\<close>: three persons; person 1 held offices 10 and 11, person 2 office
  11; person 1 has the same birth place recorded twice; two examination entries.\<close>

definition lookup_db :: cbdb_full where
  "lookup_db =
     \<lparr>BIOG_MAIN = [demo_person 1 ''A'', demo_person 2 ''B'', demo_person 3 ''C''],
      ASSOC_DATA = [], ASSOC_CODES = [], KIN_DATA = [], KINSHIP_CODES = [],
      OFFICE_CODES = [\<lparr>oc_office_id = 10, oc_office_chn = Some ''Magistrate''\<rparr>,
                      \<lparr>oc_office_id = 11, oc_office_chn = Some ''Prefect''\<rparr>,
                      \<lparr>oc_office_id = 12, oc_office_chn = None\<rparr>],
      POSTED_TO_OFFICE_DATA = [\<lparr>po_personid = 1, po_office_id = 10\<rparr>,
                               \<lparr>po_personid = 1, po_office_id = 11\<rparr>,
                               \<lparr>po_personid = 2, po_office_id = 11\<rparr>],
      ADDRESSES = [\<lparr>ad_addr_id = 100, ad_name_chn = Some ''Hangzhou'', ad_x_coord = Some 120, ad_y_coord = Some 30\<rparr>,
                   \<lparr>ad_addr_id = 101, ad_name_chn = None, ad_x_coord = None, ad_y_coord = None\<rparr>],
      BIOG_ADDR_DATA = [\<lparr>ba_personid = 1, ba_addr_id = 100, ba_addr_type = 1\<rparr>,
                        \<lparr>ba_personid = 1, ba_addr_id = 100, ba_addr_type = 1\<rparr>,
                        \<lparr>ba_personid = 2, ba_addr_id = 101, ba_addr_type = 1\<rparr>],
      ENTRY_DATA = [\<lparr>en_personid = 1, en_entry_code = 36, en_year = Some 1050\<rparr>,
                    \<lparr>en_personid = 2, en_entry_code = 36, en_year = Some 1100\<rparr>],
      ENTRY_CODES = [\<lparr>ec_entry_code = 36, ec_entry_desc_chn = Some ''jinshi''\<rparr>],
      ALTNAME_DATA = [], TEXT_CODES = [], BIOG_TEXT_DATA = []\<rparr>"

section \<open>Lemmas\<close>

lemma fetch_person_Some:
  "fetch_person db pid = Some p \<Longrightarrow> p \<in> set (BIOG_MAIN db) \<and> c_personid p = pid"
  by (auto simp: fetch_person_def find_Some_iff)

lemma fetch_person_None:
  "fetch_person db pid = None \<longleftrightarrow> pid \<notin> c_personid ` set (BIOG_MAIN db)"
  by (auto simp: fetch_person_def find_None_iff)



lemma exam_codes_mem:
  "c \<in> set [ec_entry_code c. c \<leftarrow> ENTRY_CODES db, sql_like (ec_entry_desc_chn c) (contains_pattern key)] \<longleftrightarrow>
     (\<exists>ec \<in> set (ENTRY_CODES db). ec_entry_code ec = c \<and> sql_like (ec_entry_desc_chn ec) (contains_pattern key))"
  by auto

lemma addr_ids_mem:
  "i \<in> set [ad_addr_id a. a \<leftarrow> ADDRESSES db, sql_like (ad_name_chn a) (contains_pattern key)] \<longleftrightarrow>
     (\<exists>a \<in> set (ADDRESSES db). ad_addr_id a = i \<and> sql_like (ad_name_chn a) (contains_pattern key))"
  by auto

lemma place_persons_mem:
  "x \<in> set [ba_personid b. b \<leftarrow> BIOG_ADDR_DATA db, ba_addr_id b \<in> set [ad_addr_id a. a \<leftarrow> ADDRESSES db,
                                            sql_like (ad_name_chn a) (contains_pattern key)]] \<longleftrightarrow>
     (\<exists>b \<in> set (BIOG_ADDR_DATA db). ba_personid b = x \<and>
        (\<exists>a \<in> set (ADDRESSES db). ad_addr_id a = ba_addr_id b \<and> sql_like (ad_name_chn a) (contains_pattern key)))"
  unfolding addr_ids_mem by auto

text \<open>The submitted name reaches the page unescaped: whatever markup it holds is part of
  the HTML returned.\<close>

lemma test_form_post_embeds_name:
  "sublist (conv name) (test_form_post conv name)"
  unfolding test_form_post_def by (rule sublist_appendI)

section \<open>Properties of the lookups\<close>



text \<open>C27: looking a stored person up by id gives back the id, name and years stored,
  when ids are unique.\<close>

theorem read_person_roundtrip:
  assumes "distinct (map c_personid (BIOG_MAIN db))" and "p \<in> set (BIOG_MAIN db)"
  shows "read_person db (c_personid p) = PersonJson (c_personid p) (c_name_chn p) (c_birthyear p) (c_deathyear p)"
proof -
  obtain q where q: "fetch_person db (c_personid p) = Some q"
    using assms(2) fetch_person_None [of db "c_personid p"] by (cases "fetch_person db (c_personid p)") auto
  then have "q \<in> set (BIOG_MAIN db)" "c_personid q = c_personid p" by (auto dest: fetch_person_Some)
  with assms have "q = p" by (auto dest: inj_onD [OF distinct_map [THEN iffD1, THEN conjunct2]])
  with q show ?thesis by (simp add: read_person_def)
qed

theorem read_person_roundtrip_witness:
  "distinct (map c_personid (BIOG_MAIN lookup_db)) \<and> demo_person 2 ''B'' \<in> set (BIOG_MAIN lookup_db) \<and>
   read_person lookup_db 2 = PersonJson 2 (Some ''B'') None None"
proof -
  have d: "distinct (map c_personid (BIOG_MAIN lookup_db))" by (simp add: lookup_db_def demo_person_def)
  have m: "demo_person 2 ''B'' \<in> set (BIOG_MAIN lookup_db)" by (simp add: lookup_db_def)
  show ?thesis using read_person_roundtrip [OF d m] d m by (simp add: demo_person_def)
qed

text \<open>\<open>read_person\<close> answers \<open>Person not found\<close> exactly for an id that no person
  of the store has.\<close>

theorem read_person_not_found:
  "read_person db pid = PersonNotFound \<longleftrightarrow> pid \<notin> c_personid ` set (BIOG_MAIN db)"
proof (cases "fetch_person db pid")
  case None
  then show ?thesis using fetch_person_None [of db pid] by (simp add: read_person_def)
next
  case (Some p)
  then show ?thesis using fetch_person_None [of db pid] by (simp add: read_person_def)
qed

text \<open>C29: for a term free of wildcards, the examination search returns the pairs of an
  entry and its person, with the entry year in \<open>[start_year, end_year)\<close> (an unknown
  year never) and an entry code whose description contains the converted term, ASCII
  letters compared without regard to case.\<close>

theorem search_exam_rows:
  assumes "wildcard_free (conv exam)"
  shows "set (search_exam conv db exam s e) =
     {(en, b). en \<in> set (ENTRY_DATA db) \<and> b \<in> set (BIOG_MAIN db) \<and> en_personid en = c_personid b \<and>
        (\<exists>y. en_year en = Some y \<and> s \<le> y \<and> y < e) \<and>
        (\<exists>c \<in> set (ENTRY_CODES db). ec_entry_code c = en_entry_code en \<and>
           (\<exists>n. ec_entry_desc_chn c = Some n \<and> sublist (map ascii_lower (conv exam)) (map ascii_lower n)))}"
  unfolding search_exam_def Let_def exam_codes_mem like_contains_column [OF assms]
  by (auto split: option.splits) blast

theorem search_exam_rows_witness:
  "wildcard_free ''Jin'' \<and>
   set (search_exam id lookup_db ''Jin'' 1000 1100) =
     {(en, b). en \<in> set (ENTRY_DATA lookup_db) \<and> b \<in> set (BIOG_MAIN lookup_db) \<and> en_personid en = c_personid b \<and>
        (\<exists>y. en_year en = Some y \<and> 1000 \<le> y \<and> y < 1100) \<and>
        (\<exists>c \<in> set (ENTRY_CODES lookup_db). ec_entry_code c = en_entry_code en \<and>
           (\<exists>n. ec_entry_desc_chn c = Some n \<and> sublist (map ascii_lower ''Jin'') (map ascii_lower n)))} \<and>
   map (c_personid \<circ> snd) (search_exam id lookup_db ''Jin'' 1000 1100) = [1]"
proof -
  have w: "wildcard_free (id ''Jin'')" by (simp add: wildcard_free_def)
  have r: "map (c_personid \<circ> snd) (search_exam id lookup_db ''Jin'' 1000 1100) = [1]" by code_simp
  show ?thesis using search_exam_rows [of id "''Jin''" lookup_db 1000 1100, OF w] w r by simp
qed

text \<open>The birth places of a person are the distinct (name, coordinates) triples of
  the addresses linked to the person with address type 1.\<close>

theorem search_person_id_birth_places:
  "distinct (pi_birth_places (search_person_id db pid)) \<and>
   set (pi_birth_places (search_person_id db pid)) =
     {(ad_name_chn a, ad_x_coord a, ad_y_coord a) | a. a \<in> set (ADDRESSES db) \<and>
        (\<exists>b \<in> set (BIOG_ADDR_DATA db). ba_addr_type b = 1 \<and> ba_personid b = pid \<and> ba_addr_id b = ad_addr_id a)}"
proof -
  have "i \<in> set [ba_addr_id b. b \<leftarrow> BIOG_ADDR_DATA db, ba_addr_type b = 1 \<and> ba_personid b = pid] \<longleftrightarrow>
        (\<exists>b \<in> set (BIOG_ADDR_DATA db). ba_addr_type b = 1 \<and> ba_personid b = pid \<and> ba_addr_id b = i)" for i
    by auto
  then show ?thesis by (auto simp: search_person_id_def)
qed

text \<open>C30: the place term is not escaped: a term that converts to \<open>_\<close> returns every
  person linked to an address with a non-empty name.\<close>

theorem search_placename_wildcard:
  assumes "conv placename = ''_''"
  shows "set (search_placename conv db placename) =
     {p \<in> set (BIOG_MAIN db). \<exists>b \<in> set (BIOG_ADDR_DATA db). ba_personid b = c_personid p \<and>
        (\<exists>a \<in> set (ADDRESSES db). ad_addr_id a = ba_addr_id b \<and> (\<exists>n. ad_name_chn a = Some n \<and> n \<noteq> []))}"
proof -
  have u: "sql_like x (contains_pattern ''_'') \<longleftrightarrow> (\<exists>n. x = Some n \<and> n \<noteq> [])" for x
    using like_underscore_term by (cases x) (auto simp: sql_like_def)
  show ?thesis
    unfolding search_placename_def Let_def assms set_filter place_persons_mem u ..
qed

theorem search_placename_wildcard_witness:
  "id ''_'' = ''_'' \<and> demo_person 1 ''A'' \<in> set (search_placename id lookup_db ''_'') \<and>
   demo_person 2 ''B'' \<notin> set (search_placename id lookup_db ''_'')"
proof -
  have i: "id ''_'' = ''_''" by simp
  have "demo_person 1 ''A'' \<in> set (search_placename id lookup_db ''_'') \<and>
        demo_person 2 ''B'' \<notin> set (search_placename id lookup_db ''_'')"
    unfolding search_placename_wildcard [of id "''_''" lookup_db, OF i]
    by (simp add: lookup_db_def demo_person_def)
  with i show ?thesis by blast
qed

end
