(* ===== verification/Spec2Isabelle.thy ===== *)
theory Spec2Isabelle
  imports App Kinship Lookup
begin

text \<open>
  \<^bold>\<open>A verification development for cbdb-web.\<close>
  The repository is one FastAPI application, \<open>src/main.py\<close>, over a read-only SQLite copy
  of the China Biographical Database. Its core is the social-network search: the
  handler \<open>search_social_network\<close> (lines 236--290) calls the traversal
  \<open>get_social_network_personid\<close> (lines 171--234), a recursive SQL query bounded at
  distance 5, writes the rows to a CSV file (Export A, lines 246--251), assembles them
  into a NetworkX \<open>DiGraph\<close> (lines 256--269) and renders that with pyvis into a shared
  HTML file (Export B, lines 271--284). The other endpoints are single lookups.

  \<^bold>\<open>Theories.\<close>
  \<^item> \<open>Prelude\<close>: type names (\<open>sql_text\<close> for nullable text, \<open>person_id\<close>,
    \<open>rel_code\<close>, \<open>pydict\<close> for insertion-ordered Python dictionaries), the collections
    \<open>sql_simps\<close> and \<open>nx_simps\<close>, Python's \<open>dict.update\<close> and generic
    association-list lemmas.
  \<^item> \<open>Sql\<close>: the SQLite semantics the queries use: \<open>NULL\<close> in comparisons and
    \<open>IN\<close>, \<open>LEFT JOIN\<close>, \<open>DISTINCT\<close>, and \<open>WITH RECURSIVE ... UNION ALL\<close> as SQLite
    documents its evaluation (a queue from which one row at a time is taken and fed to
    the recursive select). The loop \<open>cte_queue\<close> is a \<open>partial_function (option)\<close>;
    \<open>cte_queue_closure\<close> proves that it returns whenever the recursive select lowers a
    rank, and that it returns the least row set closed under the recursive select.
  \<^item> \<open>Store\<close>: the tables \<open>BIOG_MAIN\<close>, \<open>ASSOC_DATA\<close>, \<open>ASSOC_CODES\<close>,
    \<open>KIN_DATA\<close>, \<open>KINSHIP_CODES\<close> as records, the store \<open>cbdb\<close> (what
    \<open>get_db_connection\<close> reads), and the fixture stores the witnesses use.
  \<^item> \<open>Network\<close>: the traversal. \<open>network_seed\<close> is the initial select,
    \<open>network_step\<close> the recursive select (run on one row), \<open>type_condition\<close> the
    relation-type filter, and \<open>get_social_network_personid\<close> the whole query with its
    \<open>DISTINCT\<close> and \<open>ORDER BY distance\<close>. The abstract specification is bounded
    reachability, \<open>assoc_walk\<close> over \<open>assoc_edge\<close>. Proved: the query returns (C1),
    the depth bound (C2), no self-loop rows (C3), and that the persons at distance
    \<open>d\<close> are exactly those reachable by a walk of length \<open>d \<le> 5\<close> (C4).
    Further (C11--C16): a narrower filter gives a subset of the rows; an isolated root
    gives its own row only when no filter is given; with a filter, a root without a
    fact, an unknown root, and an empty filter all give no row; and the result is
    sorted, duplicate-free, and every via row has a predecessor one step closer. The
    lemma \<open>network_spec_scenario\<close> evaluates the scenario of spec section 8, item 7
    to the root alone (the seed follows facts whose \<open>c_personid\<close> is the root, the
    expansion facts whose \<open>c_assoc_id\<close> is the previous person).
  \<^item> \<open>Graph\<close>: NetworkX's \<open>DiGraph\<close> (node and edge dictionaries), its
    \<open>add_node\<close> and \<open>add_edge\<close> as the library defines them, and the assembly loop
    \<open>build_social_graph\<close>. Proved: the node and edge key sets (C5), first-row-wins
    node attributes (C6) and last-row-wins edge attributes (C7); as lemmas,
    well-formedness (\<open>fold_add_rows_wf\<close>), the counts of nodes and edges
    (\<open>build_social_graph_counts\<close>) and, on an example, that a via of id 0 is dropped
    (\<open>build_social_graph_via_zero\<close>).
  \<^item> \<open>Csv\<close>: Python's \<open>csv\<close> writer (excel dialect, minimal quoting) and, as the
    reference decoder, the reader's character state machine; \<open>csv_read_write\<close> proves
    that reading what the writer wrote gives back the rows, for every text.
  \<^item> \<open>Export\<close>: the CSV records of Export A and the file text, which reads back
    as the header and the records (\<open>social_network_csv_roundtrip\<close>, from
    \<open>Csv.csv_read_write\<close>).
  \<^item> \<open>Pyvis\<close>: Export B. pyvis's \<open>Network\<close> (its node and edge option lists and
    its \<open>directed\<close> flag), \<open>add_node\<close>, \<open>add_edge\<close> (with its assertions as the error
    path and, in an undirected network, its skip of an edge whose reverse exists) and
    \<open>from_nx\<close> (edges in \<open>DiGraph\<close> order, then isolated nodes, with the default node
    size and edge width), as pyvis 0.3 defines them; \<open>network_html\<close> is lines 275
    and 279. The labels are specified on the rows (\<open>row_label\<close>), and the invariant
    \<open>pv_labels_from\<close> (every node shows the label \<open>add_node\<close> computes from the
    graph's data for its id) is preserved by every step of \<open>from_nx\<close>. Proved: every
    node shows the label the rows give it, the Chinese name of the first row of its
    person or its id (C8); the network of any rows is built without error,
    undirected, with the graph's nodes once each and its edges as unordered pairs
    once each (C10). \<open>network_html_demo\<close> evaluates the demo
    traversal, whose two opposite edges become one.
  \<^item> \<open>Handler\<close>: \<open>search_social_network\<close> over a store of files (paths relative to
    the server's working directory, as the handler opens them): it writes the CSV
    text to \<open>csv_export_path\<close> and the network \<open>save_graph\<close> renders to
    \<open>html_export_path\<close>, and answers with the rows (\<open>search_social_network_Some\<close>).
    The handler is \<open>async\<close> without an \<open>await\<close>, so within one server process
    requests do not interleave; the model runs it as one step.
  \<^item> \<open>Kinship\<close>: the kinship search \<open>search_kinship\<close> (lines 293--353): the
    recursive query \<open>kinship_tree\<close> (\<open>kinship_seed\<close>, \<open>kinship_step\<close>), the
    unfiltered final left joins \<open>kinship_final\<close>, and \<open>ORDER BY\<close> as \<open>sort_key\<close> on
    \<open>kin_order_key\<close> (\<open>Option_ord\<close> puts \<open>NULL\<close> first, as SQLite does). The
    abstract specification enumerates chains of kinship facts (\<open>kin_walks\<close>); the
    query has neither \<open>DISTINCT\<close> nor a cycle check, so it is related to the chains
    with multiplicities, through \<open>Sql.cte_queue_mset\<close> and the levels
    \<open>Sql.cte_layer\<close>. Proved: the query returns (C17); the nodes at each person and
    depth are counted by the chains (C18); the number of result rows (C19); the final
    join ignores the code list (C20); the order of the result (C21); and, as lemmas,
    that an empty code list stops at the root (\<open>kinship_empty_types\<close>) and an unknown
    root gives no row (\<open>kinship_unknown_root\<close>).
  \<^item> \<open>Like\<close>: SQLite's \<open>LIKE\<close> (\<open>like_match\<close>: \<open>%\<close>, \<open>_\<close>, ASCII case folding;
    \<open>sql_like\<close> with \<open>NULL\<close>) and the pattern \<open>'%term%'\<close> the searches build.
    Proved: for a term without wildcards the matcher is equivalent to substring
    containment after case folding (C24); the unescaped wildcard terms \<open>_\<close> and \<open>%\<close>
    match every non-empty, resp. every, text (C25).
  \<^item> \<open>Lookup\<close>: the other endpoints (lines 41--169) over the store extended by the
    office, address, examination, alternative-name and text tables (\<open>cbdb_full\<close>):
    \<open>search_form\<close>, \<open>search_lifespan\<close>, \<open>read_person\<close>, \<open>search_person_id\<close>,
    \<open>search_person_name\<close>, \<open>search_office\<close>, \<open>search_exam\<close>, \<open>search_placename\<close>;
    \<open>zhconv.convert\<close> is the argument \<open>conv\<close>. Proved: for a term without wildcards,
    the offices and persons of the office search (C26) and the rows of the
    examination search (C29) are those whose names contain the term, through the
    equivalence of \<open>Like\<close>; \<open>read_person\<close> of a stored person gives back its fields
    (C27) and \<open>not found\<close> exactly for unknown ids (\<open>read_person_not_found\<close>); the distinct
    birth places (\<open>search_person_id_birth_places\<close>), and a place term \<open>_\<close> returning
    every person with a named address (C30).
    The page of \<open>test_form_post\<close> holds the submitted name unescaped
    (\<open>test_form_post_embeds_name\<close>).
  \<^item> \<open>App\<close>: the application object (lines 10--29 and the route decorators) as
    FastAPI and Starlette define it: the route table (\<open>app_routes\<close>, one definition
    per decorator, after FastAPI's documentation routes and the \<open>/static\<close> mount),
    Starlette's router (\<open>router_dispatch\<close>: first full match, 405 for a path with
    another method, a 307 redirect to the path with its trailing slash changed, 404),
    the static mount (\<open>static_files_app\<close>: the requested path looked up below
    \<open>static_directory\<close> in the file store the handler writes), the pages that
    only render a template (\<open>root_page\<close>, \<open>show_map_page\<close>, \<open>about_page\<close>,
    \<open>test_form_page\<close>), and the CORS middleware (\<open>cors_send\<close>,
    \<open>cors_preflight\<close>) around it all (\<open>app_call\<close>). Proved: with the configured
    CORS options every origin may read responses with credentials (C22); no route is
    shadowed (C23); after a search, a download of \<open>/static/social_network.csv\<close>
    returns the file the handler wrote, which reads back as the records of that
    search, and a download of \<open>/static/network.html\<close> its network (C28).
  \<^item> This theory: properties across the components (C9), and the exports of the
    demo traversal (\<open>demo_traversal_exports\<close>).

  \<^bold>\<open>Bounds and fuel.\<close> No fuel is chosen: the CTE loop is a partial function and its
  return is proved from the code's own guard \<open>p.distance < 5\<close>, with the rank
  \<open>5 - distance\<close> and the multiset ordering on the ranks of the queue; the kinship
  query likewise from \<open>kt.depth < 5\<close> with the rank \<open>5 - depth\<close>.

  \<^bold>\<open>Not modelled.\<close> The parsing of query strings and form bodies into the typed
  arguments of the search handlers (\<open>App\<close> dispatches to them, and their theories take
  the typed values), FastAPI's validation messages, the rendering of templates, the
  file metadata of static responses (\<open>content-length\<close>, \<open>last-modified\<close>,
  \<open>etag\<close>, the \<open>304\<close> answer) and the normalisation of \<open>..\<close> in static paths,
  media types other than those of the two exports, and the server below the
  application, including several worker processes running the handler at once on the
  shared files; pyvis's rendering of the network into HTML and JavaScript
  (\<open>save_graph\<close>, the model keeps the node and edge lists it renders) and its display
  options (\<open>show_buttons\<close>, colours, shapes); the file encoding (UTF-8) under the CSV text; the text normaliser
  \<open>zhconv.convert\<close> (an opaque argument of the lookups); the templates the lookups
  render; the pages \<open>/\<close>, \<open>/show-map/\<close>, \<open>/about/\<close> and the GET test form, which only
  render a template; texts are byte strings, so \<open>_\<close> in a \<open>LIKE\<close> pattern matches one
  byte where SQLite matches one UTF-8 character (no theorem uses \<open>_\<close> on non-ASCII text);
  SQL injection through interpolated strings (the model takes the values the code
  means to interpolate: integer codes and ids, and search terms without a quote). The
  order of rows with equal keys is left open by SQL; the model fixes SQLite's queue and
  scan order, and no theorem depends on it except the concrete evaluations of the
  fixtures (C21 states the order of the kinship result up to permutation).
\<close>

section \<open>Traversal rows in the graph\<close>

lemma sorted_preds_named:
  "sorted (map distance rows) \<Longrightarrow>
   (\<forall>r \<in> set rows. \<forall>v. via_id r = Some v \<longrightarrow>
      (\<exists>p. (p \<in> set rows \<or> p \<in> P) \<and> person_id p = v \<and> distance p < distance r)) \<Longrightarrow>
   person_id ` P \<subseteq> S \<Longrightarrow> vias_named_before S rows"
proof (induction rows arbitrary: S P)
  case Nil
  then show ?case by simp
next
  case (Cons r rs)
  have head: "case via_id r of None \<Rightarrow> True | Some v \<Rightarrow> v \<in> S"
  proof (cases "via_id r")
    case (Some v)
    with Cons.prems(2) obtain p where p: "p \<in> set (r # rs) \<or> p \<in> P" "person_id p = v"
      "distance p < distance r" by auto
    have "p \<notin> set (r # rs)" using p(3) Cons.prems(1) by auto
    with p Cons.prems(3) Some show ?thesis by auto
  qed simp
  have "vias_named_before (insert (person_id r) S) rs"
  proof (rule Cons.IH [where P = "insert r P"])
    show "sorted (map distance rs)" using Cons.prems(1) by simp
    show "\<forall>r' \<in> set rs. \<forall>v. via_id r' = Some v \<longrightarrow>
      (\<exists>p. (p \<in> set rs \<or> p \<in> insert r P) \<and> person_id p = v \<and> distance p < distance r')"
      using Cons.prems(2) by fastforce
    show "person_id ` insert r P \<subseteq> insert (person_id r) S" using Cons.prems(3) by auto
  qed
  with head show ?case by simp
qed

lemma network_vias_named:
  assumes "get_social_network_personid db pid types = Some rows"
  shows "vias_named_before {} rows"
proof (rule sorted_preds_named [where P = "{}"])
  show "sorted (map distance rows)" using network_rows_sorted_distinct [OF assms] by simp
  show "\<forall>r \<in> set rows. \<forall>v. via_id r = Some v \<longrightarrow>
      (\<exists>p. (p \<in> set rows \<or> p \<in> {}) \<and> person_id p = v \<and> distance p < distance r)"
    using network_rows_pred [OF assms] by fastforce
qed simp

text \<open>C9: on the rows of a traversal the branch of the assembly loop that adds a via as
  a node never fires, since every via is the person of an earlier row (rows come
  ordered by distance); so every node of the graph has the attributes of a person row,
  among them the \<open>label\<close> that pyvis displays.\<close>

theorem traversal_graph_nodes_labelled:
  assumes "get_social_network_personid db pid types = Some rows"
    and "map_of (nx_node (build_social_graph rows)) n = Some d"
  shows "\<exists>r \<in> set rows. person_id r = n \<and> map_of d = map_of (person_attrs r)"
proof -
  have "map_option map_of (map_of (nx_node (build_social_graph rows)) n) =
      map_option map_of (first_node_attrs rows n)"
    using fold_add_rows_node_map [of rows nx_empty n] by (simp add: build_social_graph_def nx_empty_def)
  with assms(2) obtain a where a: "first_node_attrs rows n = Some a" and "map_of a = map_of d"
    by (cases "first_node_attrs rows n") auto
  moreover from network_vias_named [OF assms(1)] a
  obtain r where "r \<in> set rows" "person_id r = n" "a = person_attrs r"
    using first_node_attrs_person by blast
  ultimately show ?thesis by auto
qed

theorem traversal_graph_nodes_labelled_witness:
  "get_social_network_personid demo_db 1 None = Some demo_rows \<and>
   map_of (nx_node (build_social_graph demo_rows)) 3 = Some [(''name'', PyStr ''C''), (''label'', PyStr ''C'')] \<and>
   (\<exists>r \<in> set demo_rows. person_id r = 3 \<and>
      map_of [(''name'', PyStr ''C''), (''label'', PyStr ''C'')] = map_of (person_attrs r))"
proof -
  have g: "map_of (nx_node (build_social_graph demo_rows)) 3 = Some [(''name'', PyStr ''C''), (''label'', PyStr ''C'')]"
    by code_simp
  from traversal_graph_nodes_labelled [OF demo_network g] demo_network g show ?thesis by blast
qed

text \<open>On the traversal of the demo store from person 1 (a two-person cycle cut at
  distance 5), Export A has ten records after its header while the graph has four
  edges, and the edge from 1 to 2, met at distances 1, 3 and 5, carries distance 5.\<close>

theorem demo_traversal_exports:
  "get_social_network_personid demo_db 1 None = Some demo_rows \<and>
   length (social_network_csv demo_rows) = 11 \<and>
   length (nx_adj (build_social_graph demo_rows)) = 4 \<and>
   map_option (\<lambda>d. map_of d ''distance'') (map_of (nx_adj (build_social_graph demo_rows)) (1, 2)) =
     Some (Some (PyInt 5))"
proof -
  have "length (social_network_csv demo_rows) = 11" by code_simp
  moreover have "length (nx_adj (build_social_graph demo_rows)) = 4" by code_simp
  moreover have "map_option (\<lambda>d. map_of d ''distance'') (map_of (nx_adj (build_social_graph demo_rows)) (1, 2)) =
     Some (Some (PyInt 5))" by code_simp
  ultimately show ?thesis using demo_network by blast
qed

end
